(* ===== verification/Prelude.thy ===== *)
theory Prelude
  imports Main "HOL-Library.Word" "HOL-Library.Multiset" "HOL-Library.List_Lexorder" "HOL-Library.Char_ord"
    "HOL-Library.Product_Lexorder"
begin

text \<open>
  Shared vocabulary of the development: operations that read and change a state and either
  return a value or raise (\<open>returnE\<close>, \<open>raiseE\<close>, \<open>bindE\<close>), rows kept in tables with a primary
  key and a unique key (\<open>lookup_by\<close>, \<open>save_row\<close>), the first minimum of a list, and the
  locales that state what the components expect of them.

  The collection \<open>op_simps\<close> holds the equations that run an operation step by step;
  \<open>table_simps\<close> holds what a lookup returns after a table changed.
\<close>

named_theorems op_simps "equations that run an operation"
named_theorems table_simps "lookups after a change of a table"

section \<open>Operations: state, value or exception\<close>

text \<open>
  A Python method that mutates objects and may raise is a function from the state to the pair
  of its outcome and the state it leaves. The state survives an exception, as Python's does:
  undoing it is the business of the transaction around the call.
\<close>

type_synonym ('s, 'e, 'a) op = "'s \<Rightarrow> ('e + 'a) \<times> 's"

definition returnE :: "'a \<Rightarrow> ('s, 'e, 'a) op" where
  "returnE x s = (Inr x, s)"

definition raiseE :: "'e \<Rightarrow> ('s, 'e, 'a) op" where
  "raiseE e s = (Inl e, s)"

definition bindE :: "('s, 'e, 'a) op \<Rightarrow> ('a \<Rightarrow> ('s, 'e, 'b) op) \<Rightarrow> ('s, 'e, 'b) op" where
  "bindE m f s = (case m s of (Inl e, s') \<Rightarrow> (Inl e, s') | (Inr x, s') \<Rightarrow> f x s')"

definition liftE :: "'e + 'a \<Rightarrow> ('s, 'e, 'a) op" where
  "liftE r s = (r, s)"

definition getE :: "('s \<Rightarrow> 'a) \<Rightarrow> ('s, 'e, 'a) op" where
  "getE f s = (Inr (f s), s)"

definition modifyE :: "('s \<Rightarrow> 's) \<Rightarrow> ('s, 'e, unit) op" where
  "modifyE f s = (Inr (), f s)"

lemmas op_defs = returnE_def raiseE_def bindE_def liftE_def getE_def modifyE_def

lemma returnE_simp [op_simps]: "returnE x s = (Inr x, s)"
  by (simp add: returnE_def)

lemma raiseE_simp [op_simps]: "raiseE e s = (Inl e, s)"
  by (simp add: raiseE_def)

lemma liftE_simp [op_simps]: "liftE r s = (r, s)"
  by (simp add: liftE_def)

lemma getE_simp [op_simps]: "getE f s = (Inr (f s), s)"
  by (simp add: getE_def)

lemma modifyE_simp [op_simps]: "modifyE f s = (Inr (), f s)"
  by (simp add: modifyE_def)

lemma bindE_Inr [op_simps]: "m s = (Inr x, s') \<Longrightarrow> bindE m f s = f x s'"
  by (simp add: bindE_def)

lemma bindE_Inl [op_simps]: "m s = (Inl e, s') \<Longrightarrow> bindE m f s = (Inl e, s')"
  by (simp add: bindE_def)

lemmas [op_simps] = Let_def

lemma bindE_InrE:
  assumes "bindE m f s = (Inr y, t)"
  obtains x s' where "m s = (Inr x, s')" and "f x s' = (Inr y, t)"
  using assms by (auto simp: bindE_def split: prod.splits sum.splits)

lemma bindE_InlE:
  assumes "bindE m f s = (Inl e, t)"
  obtains "m s = (Inl e, t)" | x s' where "m s = (Inr x, s')" and "f x s' = (Inl e, t)"
  using assms by (auto simp: bindE_def split: prod.splits sum.splits)

section \<open>Options and lists\<close>

lemma find_Some_props: "find P xs = Some x \<Longrightarrow> P x \<and> x \<in> set xs"
  by (induction xs) (auto split: if_splits)

lemma find_append: "find P (xs @ ys) = (case find P xs of None \<Rightarrow> find P ys | Some x \<Rightarrow> Some x)"
  by (induction xs) auto

lemma filter_length_map_update:
  "(\<And>x. x \<in> set xs \<Longrightarrow> P (f x) = P x) \<Longrightarrow> length (filter P (map f xs)) = length (filter P xs)"
  by (induction xs) auto

lemma distinct_map_eq:
  "distinct (map f xs) \<Longrightarrow> x \<in> set xs \<Longrightarrow> y \<in> set xs \<Longrightarrow> f x = f y \<Longrightarrow> x = y"
  by (auto simp: distinct_map dest: inj_onD)

section \<open>Tables: rows with a primary key and a unique key\<close>

text \<open>
  \<open>lookup_by key k\<close> is a query on a unique key, \<open>append_row\<close> an INSERT and \<open>save_row\<close> the UPDATE
  by primary key that an ORM issues for a changed object.
\<close>

definition lookup_by :: "('r \<Rightarrow> 'k) \<Rightarrow> 'k \<Rightarrow> 'r list \<Rightarrow> 'r option" where
  "lookup_by key k rows = find (\<lambda>r. key r = k) rows"

definition append_row :: "'r \<Rightarrow> 'r list \<Rightarrow> 'r list" where
  "append_row r rows = rows @ [r]"

definition save_row :: "('r \<Rightarrow> 'i) \<Rightarrow> 'r \<Rightarrow> 'r list \<Rightarrow> 'r list" where
  "save_row pk r rows = map (\<lambda>x. if pk x = pk r then r else x) rows"

definition same_pk :: "('r \<Rightarrow> 'i) \<Rightarrow> 'r \<Rightarrow> 'r \<Rightarrow> bool" where
  "same_pk pk r r0 \<longleftrightarrow> pk r = pk r0"

definition fresh_pk :: "('r \<Rightarrow> 'i) \<Rightarrow> 'r \<Rightarrow> 'r list \<Rightarrow> bool" where
  "fresh_pk pk r rows \<longleftrightarrow> pk r \<notin> pk ` set rows"

definition rows_ok :: "('r \<Rightarrow> 'i) \<Rightarrow> ('r \<Rightarrow> 'k) \<Rightarrow> 'r list \<Rightarrow> bool" where
  "rows_ok pk key rows \<longleftrightarrow> distinct (map pk rows) \<and> distinct (map key rows)"

lemmas row_defs = lookup_by_def append_row_def save_row_def same_pk_def fresh_pk_def rows_ok_def

lemma lookup_by_Some: "lookup_by key k rows = Some r \<Longrightarrow> key r = k \<and> r \<in> set rows"
  by (auto simp: lookup_by_def dest: find_Some_props)

lemma lookup_by_None: "lookup_by key k rows = None \<longleftrightarrow> (\<forall>r \<in> set rows. key r \<noteq> k)"
  by (auto simp: lookup_by_def find_None_iff)

lemma lookup_by_in:
  "distinct (map key rows) \<Longrightarrow> r \<in> set rows \<Longrightarrow> lookup_by key (key r) rows = Some r"
proof (induction rows)
  case Nil
  then show ?case by simp
next
  case (Cons x rows)
  then show ?case
    by (cases "x = r") (auto simp: lookup_by_def)
qed

text \<open>A table that differs from another at one key only holds no rows but those and the new one.\<close>

lemma upd_view_rows:
  assumes "(\<lambda>k. lookup_by key k rows) = (\<lambda>k. lookup_by key k rows0)(k0 \<mapsto> r0)" and "distinct (map key rows)"
  shows "set rows \<subseteq> insert r0 (set rows0)"
proof
  fix r assume "r \<in> set rows"
  then have "lookup_by key (key r) rows = Some r" using assms(2) by (rule lookup_by_in [rotated])
  with fun_cong [OF assms(1), of "key r"] show "r \<in> insert r0 (set rows0)"
    using lookup_by_Some [of key "key r" rows0 r] by (auto split: if_splits)
qed

lemma lookup_by_append: "lookup_by key k (rows @ rs) =
    (case lookup_by key k rows of None \<Rightarrow> lookup_by key k rs | Some r \<Rightarrow> Some r)"
  by (simp add: lookup_by_def find_append split: option.splits)

lemma lookup_by_append_row:
  "lookup_by key (key r) rows = None \<Longrightarrow>
   lookup_by key k (append_row r rows) = (if k = key r then Some r else lookup_by key k rows)"
  by (simp add: append_row_def lookup_by_append) (auto simp: lookup_by_def split: option.splits)

lemma save_row_set:
  "distinct (map pk rows) \<Longrightarrow> r0 \<in> set rows \<Longrightarrow> pk r = pk r0 \<Longrightarrow>
   set (save_row pk r rows) = insert r (set rows - {r0})"
  by (auto simp: save_row_def image_iff dest: distinct_map_eq)

lemma save_row_id: "(\<And>x. x \<in> set rows \<Longrightarrow> pk x \<noteq> pk r) \<Longrightarrow> save_row pk r rows = rows"
  by (auto simp: save_row_def intro: map_idI)

lemma map_save_row:
  "(\<And>x. x \<in> set rows \<Longrightarrow> pk x = pk r \<Longrightarrow> f x = f r) \<Longrightarrow> map f (save_row pk r rows) = map f rows"
  by (auto simp: save_row_def)

lemma map_save_row_key:
  assumes "distinct (map pk rows)" and "r0 \<in> set rows" and "pk r = pk r0" and "f r = f r0"
  shows "map f (save_row pk r rows) = map f rows"
  using assms by (intro map_save_row) (metis distinct_map_eq)

lemma save_row_one:
  assumes "distinct (map pk rows)" and "x \<in> set rows" and "pk r = pk x"
  shows "save_row pk r rows = map (\<lambda>y. if y = x then r else y) rows"
  using assms by (auto simp: save_row_def dest: distinct_map_eq)

lemma lookup_by_save_row:
  assumes "distinct (map pk rows)" and "lookup_by key (key r) rows = Some r0" and "pk r = pk r0"
  shows "lookup_by key k (save_row pk r rows) = (if k = key r then Some r else lookup_by key k rows)"
  using assms
proof (induction rows)
  case Nil
  then show ?case by (simp add: lookup_by_def)
next
  case (Cons x rows)
  show ?case
  proof (cases "key x = key r")
    case True
    with Cons.prems have x: "x = r0" by (simp add: lookup_by_def)
    with Cons.prems have "save_row pk r rows = rows"
      by (intro save_row_id) (auto simp: image_iff)
    with x True Cons.prems(3) show ?thesis
      by (simp add: lookup_by_def save_row_def)
  next
    case False
    with Cons.prems(2) have found: "lookup_by key (key r) rows = Some r0"
      by (simp add: lookup_by_def)
    then have "r0 \<in> set rows" by (blast dest: lookup_by_Some)
    with Cons.prems have "pk x \<noteq> pk r" by (auto simp: image_iff)
    with False found Cons show ?thesis
      by (auto simp: lookup_by_def save_row_def)
  qed
qed

lemma rows_ok_append_row:
  "rows_ok pk key rows \<Longrightarrow> fresh_pk pk r rows \<Longrightarrow> lookup_by key (key r) rows = None \<Longrightarrow>
   rows_ok pk key (append_row r rows)"
  by (auto simp: rows_ok_def fresh_pk_def append_row_def lookup_by_None)

lemma rows_ok_save_row:
  assumes "rows_ok pk key rows" and "lookup_by key (key r) rows = Some r0" and "pk r = pk r0"
  shows "rows_ok pk key (save_row pk r rows)"
proof -
  from assms(2) have r0: "key r0 = key r" "r0 \<in> set rows"
    by (auto dest: lookup_by_Some)
  with assms have "map pk (save_row pk r rows) = map pk rows"
    and "map key (save_row pk r rows) = map key rows"
    by (auto simp: rows_ok_def intro!: map_save_row_key [of pk rows r0])
  with assms(1) show ?thesis by (simp add: rows_ok_def)
qed

lemma rows_ok_filter: "rows_ok pk key rows \<Longrightarrow> rows_ok pk key (filter P rows)"
  by (simp add: rows_ok_def distinct_map_filter)

text \<open>How many rows satisfy a condition, after an INSERT and after an UPDATE.\<close>

lemma count_append_row:
  "length (filter P (append_row r rows)) = length (filter P rows) + (if P r then 1 else 0)"
  by (simp add: append_row_def)

lemma count_save_row:
  assumes "distinct (map pk rows)" and "r0 \<in> set rows" and "pk r = pk r0"
  shows "length (filter P (save_row pk r rows)) + (if P r0 then 1 else 0)
       = length (filter P rows) + (if P r then 1 else 0)"
  using assms
proof (induction rows)
  case Nil
  then show ?case by simp
next
  case (Cons x rows)
  show ?case
  proof (cases "x = r0")
    case True
    with Cons.prems have "save_row pk r rows = rows"
      by (intro save_row_id) (auto simp: image_iff)
    with True Cons.prems(3) show ?thesis by (simp add: save_row_def)
  next
    case False
    with Cons.prems have "pk x \<noteq> pk r" by (auto simp: image_iff)
    with False Cons show ?thesis by (auto simp: save_row_def)
  qed
qed

section \<open>The contract of a table with upserts\<close>

text \<open>
  What the services expect of a table that has one row per unique key: a look-up finds the row
  that was stored last under its key and no other key is affected, and storing keeps the table
  consistent. The client's lemma is the abstract view: storing is the update of a finite map.
\<close>

locale upsert_table =
  fixes look :: "'k \<Rightarrow> 'd \<Rightarrow> 'r option"
    and ins :: "'r \<Rightarrow> 'd \<Rightarrow> 'd"
    and upd :: "'r \<Rightarrow> 'd \<Rightarrow> 'd"
    and key :: "'r \<Rightarrow> 'k"
    and same :: "'r \<Rightarrow> 'r \<Rightarrow> bool"
    and fresh :: "'r \<Rightarrow> 'd \<Rightarrow> bool"
    and inv :: "'d \<Rightarrow> bool"
  assumes look_key: "look k d = Some r \<Longrightarrow> key r = k"
    and look_ins: "look (key r) d = None \<Longrightarrow>
      look k (ins r d) = (if k = key r then Some r else look k d)"
    and look_upd: "inv d \<Longrightarrow> look (key r) d = Some r0 \<Longrightarrow> same r r0 \<Longrightarrow>
      look k (upd r d) = (if k = key r then Some r else look k d)"
    and inv_ins: "inv d \<Longrightarrow> fresh r d \<Longrightarrow> look (key r) d = None \<Longrightarrow> inv (ins r d)"
    and inv_upd: "inv d \<Longrightarrow> look (key r) d = Some r0 \<Longrightarrow> same r r0 \<Longrightarrow> inv (upd r d)"
begin

lemma ins_view: "look (key r) d = None \<Longrightarrow> (\<lambda>k. look k (ins r d)) = (\<lambda>k. look k d)(key r \<mapsto> r)"
  by (auto simp: look_ins)

lemma upd_view: "inv d \<Longrightarrow> look (key r) d = Some r0 \<Longrightarrow> same r r0 \<Longrightarrow>
    (\<lambda>k. look k (upd r d)) = (\<lambda>k. look k d)(key r \<mapsto> r)"
  by (auto simp: look_upd)

lemma upd_twice:
  assumes "inv d" and "look (key r) d = Some r0" and "same r r0" and "key r' = key r" and "same r' r"
  shows "(\<lambda>k. look k (upd r' (upd r d))) = (\<lambda>k. look k d)(key r \<mapsto> r')"
proof -
  have "inv (upd r d)" using assms(1-3) by (rule inv_upd)
  moreover have "look (key r') (upd r d) = Some r"
    using assms by (simp add: look_upd)
  ultimately have "(\<lambda>k. look k (upd r' (upd r d))) = (\<lambda>k. look k (upd r d))(key r' \<mapsto> r')"
    using assms(5) by (rule upd_view)
  with assms show ?thesis by (simp add: upd_view)
qed

end

text \<open>Lists of rows keep the contract, whatever the primary key and the unique key.\<close>

lemma upsert_table_rows:
  "upsert_table (lookup_by key) append_row (save_row pk) key (same_pk pk) (fresh_pk pk) (rows_ok pk key)"
proof unfold_locales
  show "lookup_by key k d = Some r \<Longrightarrow> key r = k" for k d r
    by (blast dest: lookup_by_Some)
  show "lookup_by key (key r) d = None \<Longrightarrow>
      lookup_by key k (append_row r d) = (if k = key r then Some r else lookup_by key k d)" for r d k
    by (rule lookup_by_append_row)
  show "rows_ok pk key d \<Longrightarrow> lookup_by key (key r) d = Some r0 \<Longrightarrow> same_pk pk r r0 \<Longrightarrow>
      lookup_by key k (save_row pk r d) = (if k = key r then Some r else lookup_by key k d)" for d r r0 k
    unfolding rows_ok_def same_pk_def by (blast intro: lookup_by_save_row)
  show "rows_ok pk key d \<Longrightarrow> fresh_pk pk r d \<Longrightarrow> lookup_by key (key r) d = None \<Longrightarrow>
      rows_ok pk key (append_row r d)" for d r
    by (rule rows_ok_append_row)
  show "rows_ok pk key d \<Longrightarrow> lookup_by key (key r) d = Some r0 \<Longrightarrow> same_pk pk r r0 \<Longrightarrow>
      rows_ok pk key (save_row pk r d)" for d r r0
    unfolding same_pk_def by (rule rows_ok_save_row)
qed

section \<open>Choosing the first minimum\<close>

text \<open>
  Python's \<open>min(xs, key=f)\<close>: the first element whose key is least; \<open>None\<close> is the ValueError of an
  empty argument.
\<close>

fun py_min_by :: "('a \<Rightarrow> 'k::linorder) \<Rightarrow> 'a list \<Rightarrow> 'a option" where
  "py_min_by key [] = None"
| "py_min_by key (x # xs) = Some (foldl (\<lambda>m y. if key y < key m then y else m) x xs)"

lemma foldl_min_by:
  "foldl (\<lambda>m y. if key y < key m then y else m) x xs \<in> insert x (set xs)
   \<and> (\<forall>y \<in> insert x (set xs). key (foldl (\<lambda>m y. if key y < key m then y else m) x xs) \<le> (key y :: 'k::linorder))"
proof (induction xs arbitrary: x)
  case Nil
  then show ?case by simp
next
  case (Cons y ys)
  let ?m = "if key y < key x then y else x"
  have "key ?m \<le> key x" "key ?m \<le> key y" by auto
  with Cons.IH [of ?m] show ?case by (auto split: if_splits intro: order_trans)
qed

text \<open>
  What a client needs of a choice by key: it picks an element, and no element has a smaller key. Where
  the key tells the elements apart, the order of the list does not matter.
\<close>

locale keyed_choice =
  fixes pick :: "'a list \<Rightarrow> 'a option"
    and key :: "'a \<Rightarrow> 'k::linorder"
  assumes pick_some: "xs \<noteq> [] \<Longrightarrow> \<exists>x. pick xs = Some x"
    and pick_in: "pick xs = Some x \<Longrightarrow> x \<in> set xs"
    and pick_least: "pick xs = Some x \<Longrightarrow> y \<in> set xs \<Longrightarrow> key x \<le> key y"
begin

lemma pick_same_set:
  assumes "set xs = set ys" and "inj_on key (set xs)"
  shows "pick xs = pick ys"
proof (cases "xs = []")
  case True
  then show ?thesis using assms(1) by simp
next
  case False
  with assms(1) have "ys \<noteq> []" by auto
  from pick_some [OF False] pick_some [OF this] obtain x y
    where xy: "pick xs = Some x" "pick ys = Some y" by blast
  then have in_set: "x \<in> set xs" "y \<in> set xs"
    using pick_in [of xs x] pick_in [of ys y] assms(1) by auto
  have "key x \<le> key y" and "key y \<le> key x"
    using pick_least [OF xy(1)] pick_least [OF xy(2)] in_set assms(1) by auto
  then have "key x = key y" by (rule antisym)
  with assms(2) in_set xy show ?thesis by (auto dest: inj_onD)
qed

lemma pick_below: "pick xs = Some x \<Longrightarrow> y \<in> set xs \<Longrightarrow> mono f \<Longrightarrow> f (key x) \<le> f (key y)"
  by (blast dest: pick_least monoD)

end

lemma keyed_choice_py_min: "keyed_choice (py_min_by key) key"
proof unfold_locales
  show "xs \<noteq> [] \<Longrightarrow> \<exists>x. py_min_by key xs = Some x" for xs
    by (cases xs) auto
  show "py_min_by key xs = Some x \<Longrightarrow> x \<in> set xs" for xs x
    using foldl_min_by [of key] by (cases xs) auto
  show "py_min_by key xs = Some x \<Longrightarrow> y \<in> set xs \<Longrightarrow> key x \<le> key y" for xs x y
    using foldl_min_by [of key] by (cases xs) auto
qed

section \<open>The contract of a unit of work\<close>

text \<open>
  What a service expects of the transaction around a call: what the call changed is stored when it returns and undone
  when it raises. \<open>stored\<close> is the state that outlives the transaction, \<open>seen\<close> what the call works on, \<open>enter\<close> the state in
  which it starts, and \<open>clean\<close> what the transaction demands of a call. The client's lemmas carry any relation between
  the states before and after over the transaction.
\<close>

locale unit_of_work =
  fixes tx :: "('s, 'e, 'a) op \<Rightarrow> ('s, 'e, 'a) op"
    and stored :: "'s \<Rightarrow> 'd"
    and seen :: "'s \<Rightarrow> 'd"
    and enter :: "'s \<Rightarrow> 's"
    and clean :: "('s, 'e, 'a) op \<Rightarrow> bool"
  assumes returned: "clean f \<Longrightarrow> tx f s = (Inr x, s') \<Longrightarrow> \<exists>s1. f (enter s) = (Inr x, s1) \<and> stored s' = seen s1"
    and raised: "clean f \<Longrightarrow> tx f s = (Inl e, s') \<Longrightarrow> stored s' = stored s"
begin

lemma all_or_nothing:
  assumes "clean f"
  shows "stored (snd (tx f s)) = stored s \<or> (\<exists>x s1. f (enter s) = (Inr x, s1) \<and> stored (snd (tx f s)) = seen s1)"
proof (cases "tx f s")
  case (Pair r s')
  then show ?thesis
    using returned [OF assms] raised [OF assms] by (cases r) fastforce+
qed

lemma carries:
  assumes "clean f" and "R (stored s) (stored s)"
    and "\<And>x s1. f (enter s) = (Inr x, s1) \<Longrightarrow> R (stored s) (seen s1)"
  shows "R (stored s) (stored (snd (tx f s)))"
  using all_or_nothing [OF assms(1), of s] assms(2,3) by auto

end

section \<open>State machines and simulations\<close>

text \<open>
  What holds of one step of a component holds of any number of steps. A state machine is a step relation with a condition
  that its steps keep; its lemmas carry the condition, and any reflexive and transitive relation, from a step to a run.
\<close>

locale state_machine =
  fixes step :: "'s \<Rightarrow> 's \<Rightarrow> bool"
    and legal :: "'s \<Rightarrow> bool"
  assumes step_keeps: "step s t \<Longrightarrow> legal s \<Longrightarrow> legal t"
begin

lemma reach_keeps: "step\<^sup>*\<^sup>* s t \<Longrightarrow> legal s \<Longrightarrow> legal t"
  by (induction rule: rtranclp_induct) (auto intro: step_keeps)

lemma reach_related:
  assumes "step\<^sup>*\<^sup>* s t" and "legal s"
    and same: "R s s" and trans: "\<And>a b c. R a b \<Longrightarrow> R b c \<Longrightarrow> R a c"
    and one: "\<And>a b. step a b \<Longrightarrow> legal a \<Longrightarrow> R a b"
  shows "R s t"
  using assms(1,2)
proof (induction rule: rtranclp_induct)
  case base
  show ?case by (rule same)
next
  case (step b c)
  then have "R b c" using reach_keeps by (intro one)
  with step show ?case by (blast intro: trans)
qed

end

text \<open>
  A list of actions of an abstract machine; \<open>None\<close> when one of them is not allowed where it stands.
\<close>

fun run_actions :: "('c \<Rightarrow> 'a \<Rightarrow> 'a option) \<Rightarrow> 'c list \<Rightarrow> 'a \<Rightarrow> 'a option" where
  "run_actions act [] x = Some x"
| "run_actions act (a # as) x = (case act a x of None \<Rightarrow> None | Some y \<Rightarrow> run_actions act as y)"

lemma run_actions_append:
  "run_actions act (as @ bs) x = (case run_actions act as x of None \<Rightarrow> None | Some y \<Rightarrow> run_actions act bs y)"
  by (induction "as" arbitrary: x) (auto split: option.splits)

text \<open>
  A simulation: seen through \<open>view\<close>, a step does nothing or one action of the abstract machine. Then every run
  is a list of actions.
\<close>

locale simulation = state_machine step legal
  for step :: "'s \<Rightarrow> 's \<Rightarrow> bool" and legal :: "'s \<Rightarrow> bool" +
  fixes view :: "'s \<Rightarrow> 'a"
    and act :: "'c \<Rightarrow> 'a \<Rightarrow> 'a option"
  assumes step_simulated: "step s t \<Longrightarrow> legal s \<Longrightarrow> view t = view s \<or> (\<exists>a. act a (view s) = Some (view t))"
begin

lemma step_actions:
  assumes "step s t" and "legal s"
  shows "\<exists>as. run_actions act as (view s) = Some (view t)"
  using step_simulated [OF assms]
proof
  assume "view t = view s"
  then have "run_actions act [] (view s) = Some (view t)" by simp
  then show ?thesis ..
next
  assume "\<exists>a. act a (view s) = Some (view t)"
  then obtain a where "act a (view s) = Some (view t)" ..
  then have "run_actions act [a] (view s) = Some (view t)" by simp
  then show ?thesis ..
qed

lemma reach_actions:
  assumes "step\<^sup>*\<^sup>* s t" and "legal s"
  shows "\<exists>as. run_actions act as (view s) = Some (view t)"
  using assms
proof (rule reach_related)
  show "\<exists>as. run_actions act as (view s) = Some (view s)" by (rule exI [of _ "[]"]) simp
  show "\<exists>as. run_actions act as (view a) = Some (view c)"
    if "\<exists>as. run_actions act as (view a) = Some (view b)" "\<exists>as. run_actions act as (view b) = Some (view c)" for a b c
  proof -
    from that obtain us vs where "run_actions act us (view a) = Some (view b)" "run_actions act vs (view b) = Some (view c)"
      by blast
    then have "run_actions act (us @ vs) (view a) = Some (view c)" by (simp add: run_actions_append)
    then show ?thesis ..
  qed
  show "\<exists>as. run_actions act as (view a) = Some (view b)" if "step a b" "legal a" for a b
    using that by (rule step_actions)
qed

end

text \<open>
  What the actions keep, the concrete machine keeps: with a condition on the abstract states that no action breaks, the
  concrete machine is a state machine for the condition of its view as well.
\<close>

locale simulated_invariant = simulation step legal view act
  for step :: "'s \<Rightarrow> 's \<Rightarrow> bool" and legal :: "'s \<Rightarrow> bool" and view :: "'s \<Rightarrow> 'a" and act :: "'c \<Rightarrow> 'a \<Rightarrow> 'a option" +
  fixes holds :: "'a \<Rightarrow> bool"
  assumes act_keeps: "act a x = Some y \<Longrightarrow> holds x \<Longrightarrow> holds y"
begin

lemma step_carries:
  assumes "step s t" and "legal s" and "holds (view s)"
  shows "holds (view t)"
  using step_simulated [OF assms(1,2)] assms(3) act_keeps by auto

end

sublocale simulated_invariant \<subseteq> carried: state_machine step "\<lambda>s. legal s \<and> holds (view s)"
  by unfold_locales (blast intro: step_keeps step_carries)

end
