(* ===== verification/PyText.thy ===== *)
theory PyText
  imports Prelude
begin

text \<open>
  The operations on Python's \<open>str\<close> that the program uses: \<open>strip\<close>, \<open>lower\<close>, \<open>split\<close>, \<open>replace\<close>,
  \<open>int\<close>, \<open>str\<close> of an integer, and \<open>str\<close>/\<open>UUID\<close> of an identifier.

  A Python string is a list of characters and a character is a code point below 256 (HOL's
  \<^typ>\<open>char\<close>), so \<open>len\<close> is \<^term>\<open>length\<close> and comparison is by code point. White space and lower
  case are Python's on that range, and the digits \<open>int\<close> accepts are exactly \<open>0\<close> to \<open>9\<close> there.
\<close>

section \<open>White space and case\<close>

definition py_isspace :: "char \<Rightarrow> bool" where
  "py_isspace c = (let n = of_char c :: nat in
     (9 \<le> n \<and> n \<le> 13) \<or> (28 \<le> n \<and> n \<le> 32) \<or> n = 133 \<or> n = 160)"

definition strip_by :: "(char \<Rightarrow> bool) \<Rightarrow> string \<Rightarrow> string" where
  "strip_by p s = rev (dropWhile p (rev (dropWhile p s)))"

definition py_strip :: "string \<Rightarrow> string" where
  "py_strip s = strip_by py_isspace s"

definition py_lower_char :: "char \<Rightarrow> char" where
  "py_lower_char c = (let n = of_char c :: nat in
     if (65 \<le> n \<and> n \<le> 90) \<or> (192 \<le> n \<and> n \<le> 222 \<and> n \<noteq> 215) then char_of (n + 32) else c)"

definition py_lower :: "string \<Rightarrow> string" where
  "py_lower s = map py_lower_char s"

lemma strip_by_ends:
  assumes "strip_by p s \<noteq> []"
  shows "\<not> p (hd (strip_by p s))" and "\<not> p (last (strip_by p s))"
proof -
  let ?l = "dropWhile p s"
  from assms have r: "dropWhile p (rev ?l) \<noteq> []" unfolding strip_by_def by (metis rev.simps(1))
  then have "\<not> p (hd (dropWhile p (rev ?l)))" by (rule hd_dropWhile)
  then show "\<not> p (last (strip_by p s))" using r by (simp add: strip_by_def last_rev)
  have l: "?l \<noteq> []" using r by (metis dropWhile.simps(1) rev.simps(1))
  then have hl: "\<not> p (hd ?l)" by (rule hd_dropWhile)
  have "last (dropWhile p (rev ?l)) = hd ?l"
    using l r by (metis append_is_Nil_conv last_append last_rev takeWhile_dropWhile_id)
  then show "\<not> p (hd (strip_by p s))" using hl r by (simp add: strip_by_def hd_rev)
qed

lemma dropWhile_id: "xs = [] \<or> \<not> p (hd xs) \<Longrightarrow> dropWhile p xs = xs"
  by (cases xs) auto

lemma strip_by_fixed:
  "s = [] \<or> (\<not> p (hd s) \<and> \<not> p (last s)) \<Longrightarrow> strip_by p s = s"
  by (auto simp: strip_by_def dropWhile_id hd_rev)

lemma strip_by_idem: "strip_by p (strip_by p s) = strip_by p s"
proof (rule strip_by_fixed)
  show "strip_by p s = [] \<or> \<not> p (hd (strip_by p s)) \<and> \<not> p (last (strip_by p s))"
    by (cases "strip_by p s = []") (auto simp: strip_by_ends)
qed

lemma length_strip_by: "length (strip_by p s) \<le> length s"
  unfolding strip_by_def by (metis length_dropWhile_le length_rev order_trans)

lemma strip_by_Nil: "strip_by p s = [] \<longleftrightarrow> (\<forall>c \<in> set s. p c)"
proof
  assume "strip_by p s = []"
  then have "dropWhile p (rev (dropWhile p s)) = []" by (simp only: strip_by_def rev_is_Nil_conv)
  then have "\<forall>c \<in> set (dropWhile p s). p c" by (metis dropWhile_eq_Nil_conv set_rev)
  then have "dropWhile p s = []" by (metis hd_dropWhile list.set_sel(1))
  then show "\<forall>c \<in> set s. p c" by (metis dropWhile_eq_Nil_conv)
next
  assume "\<forall>c \<in> set s. p c"
  then have "dropWhile p s = []" by (metis dropWhile_eq_Nil_conv)
  then show "strip_by p s = []" by (simp only: strip_by_def rev.simps dropWhile.simps)
qed

lemma py_strip_idem [simp]: "py_strip (py_strip s) = py_strip s"
  by (simp add: py_strip_def strip_by_idem)

lemma py_strip_fixed: "(\<And>c. c \<in> set s \<Longrightarrow> \<not> py_isspace c) \<Longrightarrow> py_strip s = s"
  unfolding py_strip_def by (rule strip_by_fixed) (cases "s = []"; simp)

lemma py_strip_Nil [simp]: "py_strip [] = []"
  by (simp add: py_strip_def strip_by_def)

section \<open>Splitting and replacing\<close>

text \<open>\<open>s.split(sep)\<close> for a one-character separator, and \<open>s.split(sep, 1)\<close> of a string that has it.\<close>

fun split_on :: "char \<Rightarrow> string \<Rightarrow> string list" where
  "split_on sep [] = [[]]"
| "split_on sep (c # cs) =
     (if c = sep then [] # split_on sep cs
      else (case split_on sep cs of [] \<Rightarrow> [[c]] | w # ws \<Rightarrow> (c # w) # ws))"

definition split_once :: "char \<Rightarrow> string \<Rightarrow> string \<times> string" where
  "split_once sep s = (takeWhile (\<lambda>c. c \<noteq> sep) s, drop 1 (dropWhile (\<lambda>c. c \<noteq> sep) s))"

lemma split_on_nonempty [simp]: "split_on sep s \<noteq> []"
  by (cases s) (auto split: list.splits)

lemma split_once_join: "sep \<in> set s \<Longrightarrow> fst (split_once sep s) @ sep # snd (split_once sep s) = s"
  by (induction s) (auto simp: split_once_def)

text \<open>\<open>s.replace(old, new)\<close> for a non-empty \<open>old\<close>: the occurrences from the left, not overlapping.\<close>

function py_replace :: "string \<Rightarrow> string \<Rightarrow> string \<Rightarrow> string" where
  "py_replace old new [] = []"
| "py_replace old new (c # cs) =
     (if old \<noteq> [] \<and> take (length old) (c # cs) = old
      then new @ py_replace old new (drop (length old) (c # cs))
      else c # py_replace old new cs)"
  by pat_completeness auto
termination
  by (relation "measure (\<lambda>(old, new, s). length s)") auto

lemma py_replace_absent: "old \<noteq> [] \<Longrightarrow> hd old \<notin> set s \<Longrightarrow> py_replace old new s = s"
  by (induction s) (auto simp: take_Cons' hd_conv_nth neq_Nil_conv)

lemma py_replace_char: "py_replace [x] [] s = filter (\<lambda>c. c \<noteq> x) s"
  by (induction s) auto

section \<open>Integers\<close>

definition digit_char :: "nat \<Rightarrow> char" where
  "digit_char d = ''0123456789abcdef'' ! d"

definition digit_val :: "char \<Rightarrow> nat option" where
  "digit_val c = (let n = of_char c :: nat in
     if 48 \<le> n \<and> n \<le> 57 then Some (n - 48)
     else if 97 \<le> n \<and> n \<le> 122 then Some (n - 87)
     else if 65 \<le> n \<and> n \<le> 90 then Some (n - 55) else None)"

fun nat_str :: "nat \<Rightarrow> string" where
  "nat_str n = (if n < 10 then [digit_char n] else nat_str (n div 10) @ [digit_char (n mod 10)])"

declare nat_str.simps [simp del]

text \<open>\<open>str(i)\<close> and the \<open>{i}\<close> of an f-string.\<close>

definition int_str :: "int \<Rightarrow> string" where
  "int_str i = (if i < 0 then CHR ''-'' # nat_str (nat (- i)) else nat_str (nat i))"

text \<open>
  \<open>int(s, base)\<close>: blanks around, one sign, the prefix \<open>0x\<close> when the base is 16, digits with single
  underscores between them. \<open>None\<close> stands for ValueError. The second argument of \<open>int_body\<close> says
  whether the character before was a digit. The limit of 4300 digits that recent versions of Python put on decimal texts is
  left out.
\<close>

fun int_body :: "nat \<Rightarrow> bool \<Rightarrow> nat \<Rightarrow> string \<Rightarrow> nat option" where
  "int_body b d acc [] = (if d then Some acc else None)"
| "int_body b d acc (c # cs) =
     (if c = CHR ''_'' then (if d then int_body b False acc cs else None)
      else (case digit_val c of
              None \<Rightarrow> None
            | Some v \<Rightarrow> if v < b then int_body b True (acc * b + v) cs else None))"

definition int_prefix :: "nat \<Rightarrow> string \<Rightarrow> string" where
  "int_prefix b s =
     (case s of c1 # c2 # cs \<Rightarrow>
        if b = 16 \<and> c1 = CHR ''0'' \<and> (c2 = CHR ''x'' \<or> c2 = CHR ''X'')
        then (case cs of CHR ''_'' # cs' \<Rightarrow> cs' | _ \<Rightarrow> cs) else s
      | _ \<Rightarrow> s)"

definition py_int :: "nat \<Rightarrow> string \<Rightarrow> int option" where
  "py_int b s =
     (case py_strip s of
        [] \<Rightarrow> None
      | c # cs \<Rightarrow>
          if c = CHR ''-'' then map_option (\<lambda>n. - int n) (int_body b False 0 (int_prefix b cs))
          else if c = CHR ''+'' then map_option int (int_body b False 0 (int_prefix b cs))
          else map_option int (int_body b False 0 (int_prefix b (c # cs))))"

text \<open>The digits \<open>str\<close> writes are read back by \<open>int\<close>, in base ten and in base sixteen.\<close>

lemma digit_char_table:
  "list_all (\<lambda>d. digit_val (digit_char d) = Some d \<and> digit_char d \<noteq> CHR ''_''
    \<and> \<not> py_isspace (digit_char d) \<and> digit_char d \<noteq> CHR ''-'' \<and> digit_char d \<noteq> CHR ''+''
    \<and> digit_char d \<noteq> CHR ''x'' \<and> digit_char d \<noteq> CHR ''X'' \<and> digit_char d \<noteq> CHR ''u''
    \<and> digit_char d \<noteq> CHR ''{'' \<and> digit_char d \<noteq> CHR ''}'') [0..<16]"
  by (simp add: upt_rec digit_char_def digit_val_def py_isspace_def Let_def)

lemma digit_char_facts:
  assumes "d < 16"
  shows "digit_val (digit_char d) = Some d" and "digit_char d \<noteq> CHR ''_''"
    and "\<not> py_isspace (digit_char d)" and "digit_char d \<noteq> CHR ''-''" and "digit_char d \<noteq> CHR ''+''"
    and "digit_char d \<noteq> CHR ''x''" and "digit_char d \<noteq> CHR ''X''"
    and "digit_char d \<noteq> CHR ''u''" and "digit_char d \<noteq> CHR ''{''" and "digit_char d \<noteq> CHR ''}''"
  using digit_char_table assms by (auto simp: list_all_iff)

end
