(* ===== verification/Identifiers.thy ===== *)
theory Identifiers
  imports PyText
begin

text \<open>
  Identifiers: a UUID is a 128-bit word; \<open>uuid_str\<close> is \<open>str(uuid)\<close> and \<open>parse_uuid\<close> is the
  constructor \<open>UUID(text)\<close>, the two conversions the services apply at their borders (the
  \<open>_as_uuid\<close> helpers). Reading back what was written gives the same identifier, so comparing
  identifiers as strings, as the fairness service does, is comparing identifiers.
\<close>

type_synonym uuid = "128 word"

fun hex_str :: "nat \<Rightarrow> nat \<Rightarrow> string" where
  "hex_str 0 n = []"
| "hex_str (Suc k) n = hex_str k (n div 16) @ [digit_char (n mod 16)]"

definition uuid_str :: "uuid \<Rightarrow> string" where
  "uuid_str u = (let h = hex_str 32 (unat u) in
     take 8 h @ ''-'' @ take 4 (drop 8 h) @ ''-'' @ take 4 (drop 12 h) @ ''-''
       @ take 4 (drop 16 h) @ ''-'' @ drop 20 h)"

definition parse_uuid :: "string \<Rightarrow> uuid option" where
  "parse_uuid s =
     (let h = py_replace ''-'' [] (strip_by (\<lambda>c. c = CHR ''{'' \<or> c = CHR ''}'')
                (py_replace ''uuid:'' [] (py_replace ''urn:'' [] s)))
      in if length h \<noteq> 32 then None
         else (case py_int 16 h of
                 None \<Rightarrow> None
               | Some i \<Rightarrow> if 0 \<le> i \<and> i < 2 ^ 128 then Some (word_of_int i) else None))"

section \<open>Digits written are digits read\<close>

lemma int_body_snoc:
  "int_body b dd acc xs = Some v \<Longrightarrow> d < b \<Longrightarrow> d < 16 \<Longrightarrow>
   int_body b dd acc (xs @ [digit_char d]) = Some (v * b + d)"
  by (induction b dd acc xs rule: int_body.induct)
    (auto simp: digit_char_facts split: if_splits option.splits)

lemma int_body_nat_str: "int_body 10 False 0 (nat_str n) = Some n"
proof (induction n rule: nat_str.induct)
  case (1 n)
  show ?case
  proof (cases "n < 10")
    case True
    then show ?thesis by (simp add: nat_str.simps [of n] digit_char_facts)
  next
    case False
    then have "int_body 10 False 0 (nat_str (n div 10)) = Some (n div 10)"
      by (rule "1.IH")
    then have "int_body 10 False 0 (nat_str (n div 10) @ [digit_char (n mod 10)])
        = Some (n div 10 * 10 + n mod 10)"
      by (rule int_body_snoc) auto
    with False show ?thesis by (simp add: nat_str.simps [of n])
  qed
qed

lemma int_body_hex_str: "int_body 16 False 0 (hex_str (Suc k) n) = Some (n mod 16 ^ Suc k)"
proof (induction k arbitrary: n)
  case 0
  then show ?case by (simp add: digit_char_facts)
next
  case (Suc k)
  have "int_body 16 False 0 (hex_str (Suc k) (n div 16) @ [digit_char (n mod 16)])
      = Some ((n div 16) mod 16 ^ Suc k * 16 + n mod 16)"
    by (rule int_body_snoc [OF Suc.IH]) auto
  moreover have "(n div 16) mod 16 ^ Suc k * 16 + n mod 16 = n mod 16 ^ Suc (Suc k)"
    using mod_mult2_eq [of n 16 "16 ^ Suc k"] by (simp add: mult.commute)
  ultimately show ?case by simp
qed

lemma nat_str_digits: "c \<in> set (nat_str n) \<Longrightarrow> \<exists>d < 10. c = digit_char d"
proof (induction n rule: nat_str.induct)
  case (1 n)
  show ?case
  proof (cases "n < 10")
    case True
    with "1.prems" show ?thesis by (auto simp: nat_str.simps [of n])
  next
    case False
    have "n mod 10 < 10" by simp
    moreover have "c \<in> set (nat_str (n div 10)) \<or> c = digit_char (n mod 10)"
      using "1.prems" False by (auto simp: nat_str.simps [of n])
    ultimately show ?thesis using False "1.IH" by blast
  qed
qed

lemma hex_str_digits: "c \<in> set (hex_str k n) \<Longrightarrow> \<exists>d < 16. c = digit_char d"
proof (induction k arbitrary: n)
  case 0
  then show ?case by simp
next
  case (Suc k)
  have "c \<in> set (hex_str k (n div 16)) \<or> c = digit_char (n mod 16)"
    using Suc.prems by auto
  moreover have "n mod 16 < 16" by simp
  ultimately show ?case using Suc.IH by blast
qed

lemma length_hex_str [simp]: "length (hex_str k n) = k"
  by (induction k arbitrary: n) auto

lemma nat_str_nonempty [simp]: "nat_str n \<noteq> []"
  by (simp add: nat_str.simps [of n])

lemma py_int_digits:
  assumes "\<And>c. c \<in> set s \<Longrightarrow> \<exists>d < 16. c = digit_char d" and "s \<noteq> []"
  shows "py_int b s = map_option int (int_body b False 0 s)"
proof -
  obtain c cs where s: "s = c # cs" using assms(2) by (cases s) auto
  have strip: "py_strip s = s"
    by (rule py_strip_fixed) (use assms(1) digit_char_facts in blast)
  obtain d where "d < 16" "c = digit_char d" using assms(1) [of c] s by auto
  then have c: "c \<noteq> CHR ''-''" "c \<noteq> CHR ''+''" by (auto simp: digit_char_facts)
  have "int_prefix b s = s"
  proof (cases cs)
    case Nil
    then show ?thesis by (simp add: s int_prefix_def)
  next
    case (Cons c2 cs2)
    then obtain d2 where "d2 < 16" "c2 = digit_char d2" using assms(1) [of c2] s by auto
    then show ?thesis by (simp add: s Cons int_prefix_def digit_char_facts)
  qed
  with strip s c show ?thesis by (simp add: py_int_def)
qed

text \<open>\<open>int(str(i)) == i\<close>.\<close>

lemma py_int_nat_str: "py_int 10 (nat_str n) = Some (int n)"
proof -
  have "\<exists>d < 16. c = digit_char d" if c: "c \<in> set (nat_str n)" for c
  proof -
    obtain d where "d < 10" "c = digit_char d" using nat_str_digits [OF c] by blast
    then show ?thesis by (intro exI [of _ d]) simp
  qed
  then have "py_int 10 (nat_str n) = map_option int (int_body 10 False 0 (nat_str n))"
    by (rule py_int_digits) simp_all
  then show ?thesis by (simp add: int_body_nat_str)
qed

lemma int_prefix_10: "int_prefix 10 s = s"
  by (simp add: int_prefix_def split: list.splits)

lemma py_int_int_str: "py_int 10 (int_str i) = Some i"
proof (cases "i < 0")
  case False
  then show ?thesis by (simp add: int_str_def py_int_nat_str)
next
  case True
  have "py_strip (CHR ''-'' # nat_str (nat (- i))) = CHR ''-'' # nat_str (nat (- i))"
  proof (rule py_strip_fixed)
    fix c assume "c \<in> set (CHR ''-'' # nat_str (nat (- i)))"
    then consider "c = CHR ''-''" | d where "d < 10" "c = digit_char d" by (auto dest: nat_str_digits)
    then show "\<not> py_isspace c"
    proof cases
      case 1
      then show ?thesis by (simp add: py_isspace_def)
    next
      case 2
      then show ?thesis by (simp add: digit_char_facts)
    qed
  qed
  then show ?thesis
    using True by (simp add: int_str_def py_int_def int_prefix_10 int_body_nat_str)
qed

section \<open>The two conversions of an identifier\<close>

lemma uuid_str_chars:
  assumes "c \<in> set (uuid_str u)"
  shows "c = CHR ''-'' \<or> (\<exists>d < 16. c = digit_char d)"
proof -
  have "c = CHR ''-'' \<or> c \<in> set (hex_str 32 (unat u))"
    using assms unfolding uuid_str_def Let_def by (auto dest: in_set_takeD in_set_dropD)
  then show ?thesis by (blast dest: hex_str_digits)
qed

lemma uuid_str_not:
  assumes "x \<noteq> CHR ''-''" and "\<And>d. d < 16 \<Longrightarrow> digit_char d \<noteq> x"
  shows "x \<notin> set (uuid_str u)"
  using assms uuid_str_chars by blast

lemma chunks:
  "take 8 h @ take 4 (drop 8 h) @ take 4 (drop 12 h) @ take 4 (drop 16 h) @ drop 20 h = h"
  using append_take_drop_id [of 8 h] append_take_drop_id [of 4 "drop 8 h"]
    append_take_drop_id [of 4 "drop 12 h"] append_take_drop_id [of 4 "drop 16 h"]
  by simp

lemma uuid_str_hex: "filter (\<lambda>c. c \<noteq> CHR ''-'') (uuid_str u) = hex_str 32 (unat u)"
proof -
  let ?h = "hex_str 32 (unat u)"
  have "filter (\<lambda>c. c \<noteq> CHR ''-'') (uuid_str u) = filter (\<lambda>c. c \<noteq> CHR ''-'')
      (take 8 ?h @ take 4 (drop 8 ?h) @ take 4 (drop 12 ?h) @ take 4 (drop 16 ?h) @ drop 20 ?h)"
    by (simp add: uuid_str_def Let_def del: hex_str.simps)
  also have "\<dots> = filter (\<lambda>c. c \<noteq> CHR ''-'') ?h"
    by (simp only: chunks)
  also have "\<dots> = ?h"
  proof (rule filter_True, rule ballI)
    fix c assume "c \<in> set ?h"
    then obtain d where "d < 16" "c = digit_char d" by (blast dest: hex_str_digits)
    then show "c \<noteq> CHR ''-''" by (simp add: digit_char_facts)
  qed
  finally show ?thesis .
qed

theorem parse_uuid_str [simp]: "parse_uuid (uuid_str u) = Some u"
proof -
  have no: "CHR ''u'' \<notin> set (uuid_str u)" "CHR ''{'' \<notin> set (uuid_str u)" "CHR ''}'' \<notin> set (uuid_str u)"
    by (rule uuid_str_not; simp add: digit_char_facts)+
  let ?p = "\<lambda>c. c = CHR ''{'' \<or> c = CHR ''}''"
  have ends: "uuid_str u = [] \<or> \<not> ?p (hd (uuid_str u)) \<and> \<not> ?p (last (uuid_str u))"
    using no by (metis hd_in_set last_in_set)
  have "py_replace ''urn:'' [] (uuid_str u) = uuid_str u"
    and "py_replace ''uuid:'' [] (uuid_str u) = uuid_str u"
    using no by (auto intro: py_replace_absent)
  then have hex: "py_replace ''-'' [] (strip_by ?p (py_replace ''uuid:'' [] (py_replace ''urn:'' [] (uuid_str u))))
      = hex_str 32 (unat u)"
    using ends by (simp add: strip_by_fixed py_replace_char uuid_str_hex)
  have small: "unat u mod 16 ^ 32 = unat u"
    using unsigned_less [of u, where ?'a = nat] by simp
  have "py_int 16 (hex_str 32 (unat u)) = Some (int (unat u))"
  proof -
    have "hex_str 32 (unat u) \<noteq> []" by (metis length_hex_str list.size(3) zero_neq_numeral)
    then have "py_int 16 (hex_str 32 (unat u)) = map_option int (int_body 16 False 0 (hex_str 32 (unat u)))"
      by (intro py_int_digits hex_str_digits)
    also have "int_body 16 False 0 (hex_str 32 (unat u)) = Some (unat u)"
      using int_body_hex_str [of 31 "unat u"] small by simp
    finally show ?thesis by simp
  qed
  moreover have "int (unat u) < 2 ^ 128"
    using unsigned_less [of u, where ?'a = int] by simp
  ultimately show ?thesis
    unfolding parse_uuid_def Let_def hex by simp
qed

lemma uuid_str_nonempty [simp]: "uuid_str u \<noteq> []"
  using arg_cong [OF uuid_str_hex [of u], of length] by auto

lemma uuid_str_inject [simp]: "uuid_str u = uuid_str v \<longleftrightarrow> u = v"
  by (metis option.inject parse_uuid_str)

end
