(* ===== verification/Exceptions.thy ===== *)
theory Exceptions
  imports Identifiers
begin

text \<open>
  The exceptions of the program. Each package has a base class with its own subclasses
  (\<open>core/orders/exceptions.py\<close>, \<open>core/runs/exceptions.py\<close>, \<open>api/admin/exceptions.py\<close>); a subclass
  is a constructor that carries the message and the fields the class stores. \<open>exn\<close> joins them with
  the built-in exceptions the code can raise and the ones that collaborators outside the
  repository raise (\<open>ExternalError\<close>).
\<close>

datatype order_error =
    OrderValidationError string string
  | RunNotFoundError string
  | RunNotOpenError string
  | PreferenceNotFoundError string
  | OrderNotFoundError string
  | UserNotFoundError string

datatype run_close_error =
    RunNotFoundError string
  | RunNotOpenError string
  | UnauthorizedRunCloseError string
  | RunnerSelectionError string

datatype admin_error =
    AdminAuthorizationError string string
  | ChannelNotFoundError string
  | ChannelConfigValidationError string string

datatype exn =
    OrderError order_error
  | RunCloseError run_close_error
  | AdminError admin_error
  | SlackVerificationError string
  | HTTPException int string
  | ValueError
  | TypeError
  | KeyError
  | OverflowError
  | RuntimeError string
  | CancelledError
  | IntegrityError
  | ExternalError string

text \<open>\<open>str(exc)\<close> for the admin errors, whose constructors build the message.\<close>

fun admin_error_str :: "admin_error \<Rightarrow> string" where
  "admin_error_str (AdminAuthorizationError slack_user_id reason) =
     ''User '' @ slack_user_id @ '' is not authorized: '' @ reason"
| "admin_error_str (ChannelNotFoundError slack_channel_id) =
     ''Channel '' @ slack_channel_id @ '' is not recognized by CoffeeBuddy.''"
| "admin_error_str (ChannelConfigValidationError field message) =
     ''Invalid value for '' @ field @ '': '' @ message"

text \<open>
  The helper \<open>_as_uuid\<close> that every repository and service carries: an identifier arrives as a UUID
  or as text, and text that is no UUID raises ValueError.
\<close>

datatype ident = Uuid uuid | Text string

fun ident_str :: "ident \<Rightarrow> string" where
  "ident_str (Uuid u) = uuid_str u"
| "ident_str (Text s) = s"

fun as_uuid :: "ident \<Rightarrow> exn + uuid" where
  "as_uuid (Uuid u) = Inr u"
| "as_uuid (Text s) = (case parse_uuid s of None \<Rightarrow> Inl ValueError | Some u \<Rightarrow> Inr u)"

lemma as_uuid_ident_str [simp]: "as_uuid (Text (ident_str (Uuid u))) = Inr u"
  by simp

lemma as_uuid_InlD: "as_uuid i = Inl e \<Longrightarrow> e = ValueError"
  by (cases i) (auto split: option.splits)

end
