(* ===== verification/Schema.thy ===== *)
theory Schema
  imports Exceptions
begin

text \<open>
  The persistent data (\<open>infra/db/models.py\<close>): one record per table, the database as the record of
  its tables, and \<open>schema_ok\<close>, the primary keys, unique constraints, foreign keys, CHECK
  constraints and text lengths the models declare, and that no audit row lacks its creation time, the one
  NOT NULL column that the model could leave unset. Timestamps are instants, in microseconds since 1970-01-01 UTC.

  \<open>world\<close> is what a service works on: the database as the session sees it, the clock it reads (each
  reading is the next value of \<open>w_clock\<close>) and the source of \<open>uuid4\<close> (each draw is the next value of
  \<open>w_uuids\<close>). Pending objects are flushed before a query (the sessions are built with SQLAlchemy's
  default autoflush), so a row that was added or changed is seen by the next query.
\<close>

type_synonym time = int

datatype json = JNull | JBool bool | JInt int | JStr string | JArr "json list" | JObj "(string \<times> json) list"

datatype run_status = OPEN | CLOSED | CANCELED | FAILED

fun run_status_value :: "run_status \<Rightarrow> string" where
  "run_status_value OPEN = ''open''"
| "run_status_value CLOSED = ''closed''"
| "run_status_value CANCELED = ''canceled''"
| "run_status_value FAILED = ''failed''"

record user =
  user_id :: uuid
  slack_user_id :: string
  user_display_name :: string
  user_is_active :: bool
  user_created_at :: time
  user_updated_at :: time

record channel =
  channel_id :: uuid
  slack_channel_id :: string
  channel_name :: string
  channel_enabled :: bool
  reminder_offset_minutes :: int
  fairness_window_runs :: int
  data_retention_days :: int
  reminders_enabled :: bool
  last_call_enabled :: bool
  last_call_lead_minutes :: "int option"
  last_reset_at :: "time option"
  channel_created_at :: time
  channel_updated_at :: time

record run =
  run_id :: uuid
  run_channel_id :: uuid
  run_initiator_user_id :: uuid
  run_runner_user_id :: "uuid option"
  run_status :: run_status
  run_pickup_time :: "time option"
  run_pickup_note :: "string option"
  run_started_at :: time
  run_closed_at :: "time option"
  run_failure_reason :: "string option"
  run_correlation_id :: string
  run_created_at :: time
  run_updated_at :: time

record order =
  order_id :: uuid
  order_run_id :: uuid
  order_user_id :: uuid
  order_text :: string
  order_is_final :: bool
  order_provenance :: string
  order_canceled_at :: "time option"
  order_created_at :: time
  order_updated_at :: time

record user_preference =
  pref_id :: uuid
  pref_user_id :: uuid
  pref_channel_id :: uuid
  pref_last_order_text :: string
  pref_last_used_at :: "time option"
  pref_created_at :: time
  pref_updated_at :: time

record runner_stat =
  stat_id :: uuid
  stat_user_id :: uuid
  stat_channel_id :: uuid
  stat_runs_served_count :: int
  stat_last_run_at :: "time option"
  stat_created_at :: time
  stat_updated_at :: time

text \<open>
  The audit row. \<open>act_admin_user_id\<close> is the text the actor carries, written into a UUID column that refers to a user. Its identifier is the server's, so it is unset before the INSERT. The column
  \<open>created_at\<close> is NOT NULL and the model gives it no default of any kind: \<open>None\<close> is an object
  whose attribute was never set.
\<close>

record channel_admin_action =
  act_id :: "uuid option"
  act_channel_id :: uuid
  act_admin_user_id :: string
  act_action_type :: string
  act_action_details :: json
  act_created_at :: "time option"

record db =
  users :: "user list"
  channels :: "channel list"
  runs :: "run list"
  orders :: "order list"
  user_preferences :: "user_preference list"
  runner_stats :: "runner_stat list"
  channel_admin_actions :: "channel_admin_action list"

section \<open>Constraints\<close>

definition order_key :: "order \<Rightarrow> uuid \<times> uuid" where
  "order_key o' = (order_run_id o', order_user_id o')"

definition pref_key :: "user_preference \<Rightarrow> uuid \<times> uuid" where
  "pref_key p = (pref_user_id p, pref_channel_id p)"

definition stat_key :: "runner_stat \<Rightarrow> uuid \<times> uuid" where
  "stat_key s = (stat_user_id s, stat_channel_id s)"

definition channel_checks :: "channel \<Rightarrow> bool" where
  "channel_checks c \<longleftrightarrow> 1 \<le> reminder_offset_minutes c \<and> reminder_offset_minutes c \<le> 60
     \<and> 1 \<le> fairness_window_runs c \<and> fairness_window_runs c \<le> 50
     \<and> 30 \<le> data_retention_days c \<and> data_retention_days c \<le> 365"

text \<open>The columns of type \<open>String(n)\<close>; those of type \<open>Text\<close> have no limit.\<close>

definition texts_ok :: "db \<Rightarrow> bool" where
  "texts_ok d \<longleftrightarrow> (\<forall>u \<in> set (users d). length (slack_user_id u) \<le> 32 \<and> length (user_display_name u) \<le> 120)
     \<and> (\<forall>c \<in> set (channels d). length (slack_channel_id c) \<le> 32 \<and> length (channel_name c) \<le> 120)
     \<and> (\<forall>r \<in> set (runs d). length (run_correlation_id r) \<le> 64)
     \<and> (\<forall>o' \<in> set (orders d). length (order_provenance o') \<le> 32)"

definition action_types :: "string list" where
  "action_types = [''enable'', ''disable'', ''update_config'', ''data_reset'']"

definition keys_ok :: "db \<Rightarrow> bool" where
  "keys_ok d \<longleftrightarrow> rows_ok user_id slack_user_id (users d)
     \<and> rows_ok channel_id slack_channel_id (channels d)
     \<and> distinct (map run_id (runs d))
     \<and> rows_ok order_id order_key (orders d)
     \<and> rows_ok pref_id pref_key (user_preferences d)
     \<and> rows_ok stat_id stat_key (runner_stats d)"

definition refs_ok :: "db \<Rightarrow> bool" where
  "refs_ok d \<longleftrightarrow>
     (let us = user_id ` set (users d); cs = channel_id ` set (channels d); rs = run_id ` set (runs d) in
       (\<forall>r \<in> set (runs d). run_channel_id r \<in> cs \<and> run_initiator_user_id r \<in> us
          \<and> (\<forall>u. run_runner_user_id r = Some u \<longrightarrow> u \<in> us))
     \<and> (\<forall>o' \<in> set (orders d). order_run_id o' \<in> rs \<and> order_user_id o' \<in> us)
     \<and> (\<forall>p \<in> set (user_preferences d). pref_user_id p \<in> us \<and> pref_channel_id p \<in> cs)
     \<and> (\<forall>s \<in> set (runner_stats d). stat_user_id s \<in> us \<and> stat_channel_id s \<in> cs)
     \<and> (\<forall>a \<in> set (channel_admin_actions d). act_channel_id a \<in> cs
          \<and> (\<exists>u \<in> us. parse_uuid (act_admin_user_id a) = Some u)))"

definition checks_ok :: "db \<Rightarrow> bool" where
  "checks_ok d \<longleftrightarrow> (\<forall>c \<in> set (channels d). channel_checks c)
     \<and> (\<forall>a \<in> set (channel_admin_actions d). act_action_type a \<in> set action_types \<and> act_created_at a \<noteq> None)"

definition schema_ok :: "db \<Rightarrow> bool" where
  "schema_ok d \<longleftrightarrow> keys_ok d \<and> refs_ok d \<and> checks_ok d \<and> texts_ok d"

lemmas schema_defs = schema_ok_def keys_ok_def refs_ok_def checks_ok_def texts_ok_def

section \<open>The world of a service\<close>

record world =
  w_db :: db
  w_clock :: "nat \<Rightarrow> time"
  w_ticks :: nat
  w_uuids :: "nat \<Rightarrow> uuid"
  w_drawn :: nat

text \<open>\<open>self._clock()\<close> and \<open>uuid4()\<close>.\<close>

definition now :: "(world, exn, time) op" where
  "now w = (Inr (w_clock w (w_ticks w)), w\<lparr>w_ticks := Suc (w_ticks w)\<rparr>)"

definition new_uuid :: "(world, exn, uuid) op" where
  "new_uuid w = (Inr (w_uuids w (w_drawn w)), w\<lparr>w_drawn := Suc (w_drawn w)\<rparr>)"

definition the_uuid :: "ident \<Rightarrow> (world, exn, uuid) op" where
  "the_uuid i = liftE (as_uuid i)"

definition query :: "(db \<Rightarrow> 'a) \<Rightarrow> (world, exn, 'a) op" where
  "query f = getE (\<lambda>w. f (w_db w))"

definition change :: "(db \<Rightarrow> db) \<Rightarrow> (world, exn, unit) op" where
  "change f = modifyE (\<lambda>w. w\<lparr>w_db := f (w_db w)\<rparr>)"

lemma now_simp [op_simps]:
  "now w = (Inr (w_clock w (w_ticks w)), w\<lparr>w_ticks := Suc (w_ticks w)\<rparr>)"
  by (simp add: now_def)

lemma new_uuid_simp [op_simps]:
  "new_uuid w = (Inr (w_uuids w (w_drawn w)), w\<lparr>w_drawn := Suc (w_drawn w)\<rparr>)"
  by (simp add: new_uuid_def)

lemma query_simp [op_simps]: "query f w = (Inr (f (w_db w)), w)"
  by (simp add: query_def getE_def)

lemma change_simp [op_simps]: "change f w = (Inr (), w\<lparr>w_db := f (w_db w)\<rparr>)"
  by (simp add: change_def modifyE_def)

lemma the_uuid_simp [op_simps]: "the_uuid i w = (as_uuid i, w)"
  by (simp add: the_uuid_def liftE_def)

text \<open>
  The identifiers in use, and the assumption on \<open>uuid4\<close> that theorems about inserts make: the next
  \<open>n\<close> draws differ from each other and from every identifier in use.
\<close>

definition ids_in_use :: "db \<Rightarrow> uuid list" where
  "ids_in_use d = map order_id (orders d) @ map pref_id (user_preferences d)
     @ map stat_id (runner_stats d) @ map run_id (runs d)"

definition fresh_draws :: "nat \<Rightarrow> world \<Rightarrow> bool" where
  "fresh_draws n w \<longleftrightarrow>
     (let ds = map (w_uuids w) [w_drawn w ..< w_drawn w + n]
      in distinct ds \<and> (\<forall>u \<in> set ds. u \<notin> set (ids_in_use (w_db w))))"

lemma fresh_draws_iff: "fresh_draws n w \<longleftrightarrow> inj_on (w_uuids w) {w_drawn w ..< w_drawn w + n}
    \<and> (\<forall>k. w_drawn w \<le> k \<longrightarrow> k < w_drawn w + n \<longrightarrow> w_uuids w k \<notin> set (ids_in_use (w_db w)))"
  by (auto simp: fresh_draws_def Let_def distinct_map)

lemma fresh_draws_Suc:
  "fresh_draws (Suc n) w \<Longrightarrow> w_uuids w (w_drawn w) \<notin> set (ids_in_use (w_db w))"
  by (simp add: fresh_draws_iff)

lemma fresh_draws_less: "fresh_draws n w \<Longrightarrow> m \<le> n \<Longrightarrow> fresh_draws m w"
  by (auto simp: fresh_draws_iff inj_on_def)

lemma fresh_draws_db:
  "fresh_draws n w \<Longrightarrow> w_uuids w' = w_uuids w \<Longrightarrow> w_drawn w' = w_drawn w \<Longrightarrow>
   set (ids_in_use (w_db w')) \<subseteq> set (ids_in_use (w_db w)) \<Longrightarrow> fresh_draws n w'"
  by (auto simp: fresh_draws_iff)

lemma fresh_draws_drawn:
  assumes "fresh_draws (Suc n) w" and "w_uuids w' = w_uuids w" and "w_drawn w' = Suc (w_drawn w)"
    and "set (ids_in_use (w_db w')) \<subseteq> insert (w_uuids w (w_drawn w)) (set (ids_in_use (w_db w)))"
  shows "fresh_draws n w'"
proof -
  have inj: "inj_on (w_uuids w) {w_drawn w ..< w_drawn w + Suc n}"
    using assms(1) by (simp add: fresh_draws_iff)
  then have other: "w_uuids w k \<noteq> w_uuids w (w_drawn w)" if "w_drawn w < k" "k < w_drawn w + Suc n" for k
    using that by (auto dest: inj_onD)
  have "inj_on (w_uuids w) {Suc (w_drawn w) ..< Suc (w_drawn w) + n}"
    using inj by (rule inj_on_subset) auto
  moreover have "w_uuids w k \<notin> set (ids_in_use (w_db w'))"
    if k: "Suc (w_drawn w) \<le> k" "k < Suc (w_drawn w) + n" for k
  proof -
    have "w_uuids w k \<notin> set (ids_in_use (w_db w))"
      using assms(1) k by (simp add: fresh_draws_iff)
    moreover have "w_uuids w k \<noteq> w_uuids w (w_drawn w)"
      using other k by simp
    ultimately show ?thesis using assms(4) by blast
  qed
  ultimately show ?thesis
    unfolding fresh_draws_iff assms(2,3) by blast
qed

lemma fresh_draws_advance:
  assumes fresh: "fresh_draws (m + n) w" and u: "w_uuids w' = w_uuids w"
    and drawn: "w_drawn w' = w_drawn w + k" and k: "k \<le> m"
    and ids: "set (ids_in_use (w_db w'))
      \<subseteq> set (ids_in_use (w_db w)) \<union> w_uuids w ` {w_drawn w ..< w_drawn w + k}"
  shows "fresh_draws n w'"
proof -
  have inj: "inj_on (w_uuids w) {w_drawn w ..< w_drawn w + (m + n)}"
    using fresh by (simp add: fresh_draws_iff)
  then have "inj_on (w_uuids w) {w_drawn w' ..< w_drawn w' + n}"
    by (rule inj_on_subset) (use drawn k in auto)
  moreover have "w_uuids w j \<notin> set (ids_in_use (w_db w'))" if j: "w_drawn w' \<le> j" "j < w_drawn w' + n" for j
  proof -
    have "w_uuids w j \<notin> set (ids_in_use (w_db w))"
      using fresh j drawn k by (simp add: fresh_draws_iff)
    moreover have "w_uuids w j \<notin> w_uuids w ` {w_drawn w ..< w_drawn w + k}"
      using inj j drawn k by (auto dest!: inj_onD)
    ultimately show ?thesis using ids by blast
  qed
  ultimately show ?thesis
    using u by (auto simp: fresh_draws_iff)
qed

end
