(* ===== verification/OrderRepo.thy ===== *)
theory OrderRepo
  imports Schema
begin

text \<open>
  The repositories of the orders package (\<open>core/orders/repository.py\<close>): \<open>OrderRepository\<close>,
  \<open>RunRepository\<close> and \<open>UserRepository\<close>. An order object that a method changes is a row of the
  session, so the method stores the changed row and returns it.
\<close>

datatype order_provenance = MANUAL | PREFERENCE | EDIT

fun provenance_value :: "order_provenance \<Rightarrow> string" where
  "provenance_value MANUAL = ''manual''"
| "provenance_value PREFERENCE = ''preference''"
| "provenance_value EDIT = ''edit''"

section \<open>OrderRepository\<close>

definition get_order :: "ident \<Rightarrow> ident \<Rightarrow> (world, exn, order option) op" where
  "get_order rid uid =
     bindE (the_uuid rid) (\<lambda>r.
     bindE (the_uuid uid) (\<lambda>u.
     query (\<lambda>d. lookup_by order_key (r, u) (orders d))))"

definition add_order :: "order \<Rightarrow> (world, exn, unit) op" where
  "add_order o' = change (\<lambda>d. d\<lparr>orders := append_row o' (orders d)\<rparr>)"

definition store_order :: "order \<Rightarrow> (world, exn, unit) op" where
  "store_order o' = change (\<lambda>d. d\<lparr>orders := save_row order_id o' (orders d)\<rparr>)"

definition upsert_order ::
  "ident \<Rightarrow> ident \<Rightarrow> string \<Rightarrow> bool \<Rightarrow> order_provenance \<Rightarrow> (world, exn, order) op" where
  "upsert_order rid uid text confirm prov =
     bindE (get_order rid uid) (\<lambda>found.
     bindE now (\<lambda>t.
     case found of
       Some o0 \<Rightarrow>
         (let o1 = o0\<lparr>order_text := text, order_is_final := confirm,
                      order_provenance := provenance_value prov,
                      order_canceled_at := None, order_updated_at := t\<rparr>
          in bindE (store_order o1) (\<lambda>_. returnE o1))
     | None \<Rightarrow>
         bindE new_uuid (\<lambda>i.
         bindE (the_uuid rid) (\<lambda>r.
         bindE (the_uuid uid) (\<lambda>u.
           let o1 = \<lparr>order_id = i, order_run_id = r, order_user_id = u, order_text = text,
                     order_is_final = confirm, order_provenance = provenance_value prov,
                     order_canceled_at = None, order_created_at = t, order_updated_at = t\<rparr>
           in bindE (add_order o1) (\<lambda>_. returnE o1))))))"

text \<open>\<open>OrderRepository.cancel_order\<close>; the service method of that name is \<open>cancel_order\<close>.\<close>

definition repo_cancel_order :: "order \<Rightarrow> (world, exn, order) op" where
  "repo_cancel_order o0 =
     bindE now (\<lambda>t.
       let o1 = o0\<lparr>order_canceled_at := Some t, order_updated_at := t\<rparr>
       in bindE (store_order o1) (\<lambda>_. returnE o1))"

definition active_in :: "uuid \<Rightarrow> order \<Rightarrow> bool" where
  "active_in r o' \<longleftrightarrow> order_run_id o' = r \<and> order_canceled_at o' = None"

definition count_active_orders :: "ident \<Rightarrow> (world, exn, nat) op" where
  "count_active_orders rid =
     bindE (the_uuid rid) (\<lambda>r. query (\<lambda>d. length (filter (active_in r) (orders d))))"

section \<open>RunRepository and UserRepository\<close>

definition get_run :: "ident \<Rightarrow> (world, exn, run) op" where
  "get_run rid =
     bindE (the_uuid rid) (\<lambda>r.
     bindE (query (\<lambda>d. lookup_by run_id r (runs d))) (\<lambda>found.
     case found of
       None \<Rightarrow> raiseE (OrderError (order_error.RunNotFoundError
                 (''Run '' @ ident_str rid @ '' was not found.'')))
     | Some rn \<Rightarrow> returnE rn))"

definition get_open_run :: "ident \<Rightarrow> (world, exn, run) op" where
  "get_open_run rid =
     bindE (get_run rid) (\<lambda>rn.
       if run_status rn \<noteq> OPEN
       then raiseE (OrderError (order_error.RunNotOpenError
              (''Run '' @ ident_str rid @ '' is not open for orders.'')))
       else returnE rn)"

definition get_user :: "ident \<Rightarrow> (world, exn, user) op" where
  "get_user uid =
     bindE (the_uuid uid) (\<lambda>u.
     bindE (query (\<lambda>d. lookup_by user_id u (users d))) (\<lambda>found.
     case found of
       None \<Rightarrow> raiseE (OrderError (UserNotFoundError
                 (''User '' @ ident_str uid @ '' does not exist.'')))
     | Some us \<Rightarrow> returnE us))"

section \<open>The orders table keeps the upsert contract\<close>

interpretation order_rows: upsert_table "lookup_by order_key" append_row "save_row order_id"
  order_key "same_pk order_id" "fresh_pk order_id" "rows_ok order_id order_key"
  by (rule upsert_table_rows)

text \<open>The look-ups run: they read the database and leave the world as it is.\<close>

lemma get_order_run: "get_order rid uid w =
    (case as_uuid rid of Inl e \<Rightarrow> (Inl e, w)
     | Inr r \<Rightarrow> (case as_uuid uid of Inl e \<Rightarrow> (Inl e, w)
        | Inr u \<Rightarrow> (Inr (lookup_by order_key (r, u) (orders (w_db w))), w)))"
  by (simp add: get_order_def bindE_def op_simps split: sum.splits)

lemma get_order_Uuid [op_simps]:
  "get_order (Uuid r) (Uuid u) w = (Inr (lookup_by order_key (r, u) (orders (w_db w))), w)"
  by (simp add: get_order_run)

lemma get_run_run: "get_run rid w =
    (case as_uuid rid of Inl e \<Rightarrow> (Inl e, w)
     | Inr r \<Rightarrow> (case lookup_by run_id r (runs (w_db w)) of
          None \<Rightarrow> (Inl (OrderError (order_error.RunNotFoundError
                    (''Run '' @ ident_str rid @ '' was not found.''))), w)
        | Some rn \<Rightarrow> (Inr rn, w)))"
  by (simp add: get_run_def bindE_def op_simps split: sum.splits option.splits)

lemma get_open_run_run: "get_open_run rid w =
    (case get_run rid w of (Inl e, w') \<Rightarrow> (Inl e, w')
     | (Inr rn, w') \<Rightarrow> if run_status rn = OPEN then (Inr rn, w')
         else (Inl (OrderError (order_error.RunNotOpenError
                 (''Run '' @ ident_str rid @ '' is not open for orders.''))), w'))"
  by (simp add: get_open_run_def bindE_def op_simps split: prod.splits sum.splits)

lemma get_user_run: "get_user uid w =
    (case as_uuid uid of Inl e \<Rightarrow> (Inl e, w)
     | Inr u \<Rightarrow> (case lookup_by user_id u (users (w_db w)) of
          None \<Rightarrow> (Inl (OrderError (UserNotFoundError
                    (''User '' @ ident_str uid @ '' does not exist.''))), w)
        | Some us \<Rightarrow> (Inr us, w)))"
  by (simp add: get_user_def bindE_def op_simps split: sum.splits option.splits)

lemma get_open_run_Inr:
  "get_open_run rid w = (Inr rn, w') \<longleftrightarrow> w' = w \<and> run_status rn = OPEN
     \<and> (\<exists>r. as_uuid rid = Inr r \<and> lookup_by run_id r (runs (w_db w)) = Some rn)"
  by (auto simp: get_open_run_run get_run_run split: sum.splits option.splits if_splits)

lemma get_user_Inr:
  "get_user uid w = (Inr us, w') \<longleftrightarrow>
     w' = w \<and> (\<exists>u. as_uuid uid = Inr u \<and> lookup_by user_id u (users (w_db w)) = Some us)"
  by (auto simp: get_user_run split: sum.splits option.splits)

lemma count_active_orders_Uuid [op_simps]:
  "count_active_orders (Uuid r) w = (Inr (length (filter (active_in r) (orders (w_db w)))), w)"
  by (simp add: count_active_orders_def op_simps)

lemma lookups_keep_world:
  "snd (get_open_run rid w) = w" "snd (get_user uid w) = w" "snd (get_order rid uid w) = w"
  by (simp_all add: get_open_run_run get_run_run get_user_run get_order_run
      split: sum.splits option.splits)

end
