(* ===== verification/Preferences.thy ===== *)
theory Preferences
  imports OrderRepo
begin

text \<open>
  \<open>PreferenceService\<close> (\<open>services/preferences/service.py\<close>): the last confirmed order of a user in a
  channel. \<open>mark_used\<close> receives an object of the session; the session holds one object per row, so
  the method changes the row with that object's primary key as it is at that moment.
\<close>

definition get_preference :: "ident \<Rightarrow> ident \<Rightarrow> (world, exn, user_preference option) op" where
  "get_preference uid cid =
     bindE (the_uuid uid) (\<lambda>u.
     bindE (the_uuid cid) (\<lambda>c.
     query (\<lambda>d. lookup_by pref_key (u, c) (user_preferences d))))"

definition set_preference :: "ident \<Rightarrow> ident \<Rightarrow> string \<Rightarrow> (world, exn, user_preference) op" where
  "set_preference uid cid text =
     bindE (get_preference uid cid) (\<lambda>existing.
     bindE now (\<lambda>t.
     case existing of
       Some p0 \<Rightarrow>
         (let p1 = p0\<lparr>pref_last_order_text := text, pref_last_used_at := Some t,
                      pref_updated_at := t\<rparr>
          in bindE (change (\<lambda>d. d\<lparr>user_preferences := save_row pref_id p1 (user_preferences d)\<rparr>))
               (\<lambda>_. returnE p1))
     | None \<Rightarrow>
         bindE new_uuid (\<lambda>i.
         bindE (the_uuid uid) (\<lambda>u.
         bindE (the_uuid cid) (\<lambda>c.
           let p1 = \<lparr>pref_id = i, pref_user_id = u, pref_channel_id = c,
                     pref_last_order_text = text, pref_last_used_at = Some t,
                     pref_created_at = t, pref_updated_at = t\<rparr>
           in bindE (change (\<lambda>d. d\<lparr>user_preferences := append_row p1 (user_preferences d)\<rparr>))
                (\<lambda>_. returnE p1))))))"

definition touch_preference :: "uuid \<Rightarrow> time \<Rightarrow> user_preference list \<Rightarrow> user_preference list" where
  "touch_preference i t ps = map (\<lambda>p. if pref_id p = i
     then p\<lparr>pref_last_used_at := Some t, pref_updated_at := t\<rparr> else p) ps"

definition mark_used :: "user_preference \<Rightarrow> (world, exn, unit) op" where
  "mark_used p0 =
     bindE now (\<lambda>t. change (\<lambda>d.
       d\<lparr>user_preferences := touch_preference (pref_id p0) t (user_preferences d)\<rparr>))"

interpretation pref_rows: upsert_table "lookup_by pref_key" append_row "save_row pref_id"
  pref_key "same_pk pref_id" "fresh_pk pref_id" "rows_ok pref_id pref_key"
  by (rule upsert_table_rows)

text \<open>The remembered orders as a finite map from user and channel to the order text.\<close>

definition usual :: "db \<Rightarrow> uuid \<times> uuid \<Rightarrow> string option" where
  "usual d k = map_option pref_last_order_text (lookup_by pref_key k (user_preferences d))"

lemma get_preference_Uuid [op_simps]:
  "get_preference (Uuid u) (Uuid c) w = (Inr (lookup_by pref_key (u, c) (user_preferences (w_db w))), w)"
  by (simp add: get_preference_def op_simps)

section \<open>What set_preference does\<close>

text \<open>
  It always returns; the new table has the text under the user and channel, every other key is as
  before, and the keys stay unique.
\<close>

lemma set_preference_spec:
  assumes "rows_ok pref_id pref_key (user_preferences (w_db w))" and "fresh_draws (Suc n) w"
  obtains p1 w1 ps where "set_preference (Uuid u) (Uuid c) text w = (Inr p1, w1)"
    and "pref_key p1 = (u, c)" and "pref_last_order_text p1 = text"
    and "w_db w1 = (w_db w)\<lparr>user_preferences := ps\<rparr>"
    and "(\<lambda>k. lookup_by pref_key k ps)
         = (\<lambda>k. lookup_by pref_key k (user_preferences (w_db w)))((u, c) \<mapsto> p1)"
    and "rows_ok pref_id pref_key ps" and "set (map pref_key ps)
         \<subseteq> insert (u, c) (set (map pref_key (user_preferences (w_db w))))"
    and "fresh_draws n w1"
proof (cases "lookup_by pref_key (u, c) (user_preferences (w_db w))")
  case None
  let ?t = "w_clock w (w_ticks w)" and ?i = "w_uuids w (w_drawn w)"
  let ?p = "\<lparr>pref_id = ?i, pref_user_id = u, pref_channel_id = c, pref_last_order_text = text,
    pref_last_used_at = Some ?t, pref_created_at = ?t, pref_updated_at = ?t\<rparr>"
  let ?ps = "append_row ?p (user_preferences (w_db w))"
  let ?w = "w\<lparr>w_ticks := Suc (w_ticks w), w_drawn := Suc (w_drawn w),
    w_db := (w_db w)\<lparr>user_preferences := ?ps\<rparr>\<rparr>"
  have key: "pref_key ?p = (u, c)" by (simp add: pref_key_def)
  have fresh: "fresh_pk pref_id ?p (user_preferences (w_db w))"
    using fresh_draws_Suc [OF assms(2)] by (simp add: fresh_pk_def ids_in_use_def)
  show ?thesis
  proof (rule that [of ?p ?w ?ps])
    show "set_preference (Uuid u) (Uuid c) text w = (Inr ?p, ?w)"
      using None by (simp add: set_preference_def op_simps)
    show "(\<lambda>k. lookup_by pref_key k ?ps)
        = (\<lambda>k. lookup_by pref_key k (user_preferences (w_db w)))((u, c) \<mapsto> ?p)"
      using None key pref_rows.ins_view [of ?p] by metis
    show "rows_ok pref_id pref_key ?ps"
      using assms(1) fresh None key pref_rows.inv_ins by metis
    show "fresh_draws n ?w"
      using assms(2) by (rule fresh_draws_drawn) (auto simp: ids_in_use_def append_row_def)
  qed (auto simp: append_row_def pref_key_def)
next
  case (Some p0)
  let ?t = "w_clock w (w_ticks w)"
  let ?p = "p0\<lparr>pref_last_order_text := text, pref_last_used_at := Some ?t, pref_updated_at := ?t\<rparr>"
  let ?ps = "save_row pref_id ?p (user_preferences (w_db w))"
  let ?w = "w\<lparr>w_ticks := Suc (w_ticks w), w_db := (w_db w)\<lparr>user_preferences := ?ps\<rparr>\<rparr>"
  from Some have p0: "pref_key p0 = (u, c)" "p0 \<in> set (user_preferences (w_db w))"
    by (auto dest: lookup_by_Some)
  then have key: "pref_key ?p = (u, c)" by (simp add: pref_key_def)
  have same: "same_pk pref_id ?p p0" by (simp add: same_pk_def)
  have dist: "distinct (map pref_id (user_preferences (w_db w)))"
    using assms(1) by (simp add: rows_ok_def)
  have keys: "map pref_key ?ps = map pref_key (user_preferences (w_db w))"
    by (rule map_save_row_key [OF dist p0(2)]) (simp_all add: pref_key_def)
  have ids: "map pref_id ?ps = map pref_id (user_preferences (w_db w))"
    by (rule map_save_row_key [OF dist p0(2)]) simp_all
  show ?thesis
  proof (rule that [of ?p ?w ?ps])
    show "set_preference (Uuid u) (Uuid c) text w = (Inr ?p, ?w)"
      using Some by (simp add: set_preference_def op_simps)
    show "(\<lambda>k. lookup_by pref_key k ?ps)
        = (\<lambda>k. lookup_by pref_key k (user_preferences (w_db w)))((u, c) \<mapsto> ?p)"
      using pref_rows.upd_view [OF assms(1) _ same] Some key by simp
    show "rows_ok pref_id pref_key ?ps"
      using pref_rows.inv_upd [OF assms(1) _ same] Some key by simp
    show "set (map pref_key ?ps) \<subseteq> insert (u, c) (set (map pref_key (user_preferences (w_db w))))"
      by (simp only: keys) blast
    show "fresh_draws n ?w"
      by (rule fresh_draws_db [OF fresh_draws_less [OF assms(2)]])
        (simp_all add: ids_in_use_def ids del: set_map set_append)
  qed (use key in simp_all)
qed

end
