(* ===== verification/Fixtures.thy ===== *)
theory Fixtures
  imports Schema
begin

text \<open>
  A small concrete database and world on which the witnesses evaluate: three users, one channel, two
  open runs and a closed one, with orders, preferences and runner statistics. The clock advances by
  one at each reading and the identifier source draws 100, 101, and so on.
\<close>

definition fx_user :: "uuid \<Rightarrow> string \<Rightarrow> user" where
  "fx_user i name = \<lparr>user_id = i, slack_user_id = CHR ''U'' # name, user_display_name = name,
     user_is_active = True, user_created_at = 0, user_updated_at = 0\<rparr>"

definition fx_channel :: channel where
  "fx_channel = \<lparr>channel_id = 10, slack_channel_id = ''C1'', channel_name = ''coffee'',
     channel_enabled = True, reminder_offset_minutes = 5, fairness_window_runs = 5,
     data_retention_days = 90, reminders_enabled = True, last_call_enabled = True,
     last_call_lead_minutes = None, last_reset_at = None, channel_created_at = 0,
     channel_updated_at = 0\<rparr>"

definition fx_run :: "uuid \<Rightarrow> run_status \<Rightarrow> uuid option \<Rightarrow> time option \<Rightarrow> run" where
  "fx_run i st runner closed = \<lparr>run_id = i, run_channel_id = 10, run_initiator_user_id = 1,
     run_runner_user_id = runner, run_status = st, run_pickup_time = Some 9000,
     run_pickup_note = Some ''Lobby'', run_started_at = 0, run_closed_at = closed,
     run_failure_reason = None, run_correlation_id = ''corr'', run_created_at = 0,
     run_updated_at = 0\<rparr>"

definition fx_order :: "uuid \<Rightarrow> uuid \<Rightarrow> uuid \<Rightarrow> string \<Rightarrow> order" where
  "fx_order i r u txt = \<lparr>order_id = i, order_run_id = r, order_user_id = u, order_text = txt,
     order_is_final = True, order_provenance = ''manual'', order_canceled_at = None,
     order_created_at = 1, order_updated_at = 1\<rparr>"

definition fx_pref :: "uuid \<Rightarrow> uuid \<Rightarrow> string \<Rightarrow> user_preference" where
  "fx_pref i u txt = \<lparr>pref_id = i, pref_user_id = u, pref_channel_id = 10,
     pref_last_order_text = txt, pref_last_used_at = Some 1, pref_created_at = 1,
     pref_updated_at = 1\<rparr>"

definition fx_stat :: "uuid \<Rightarrow> uuid \<Rightarrow> int \<Rightarrow> time option \<Rightarrow> runner_stat" where
  "fx_stat i u n t = \<lparr>stat_id = i, stat_user_id = u, stat_channel_id = 10,
     stat_runs_served_count = n, stat_last_run_at = t, stat_created_at = 1, stat_updated_at = 1\<rparr>"

definition fx_db :: db where
  "fx_db = \<lparr>users = [fx_user 1 ''Ann'', fx_user 2 ''Bob'', fx_user 3 ''Cid''],
     channels = [fx_channel],
     runs = [fx_run 20 OPEN None None, fx_run 21 CLOSED (Some 2) (Some 500), fx_run 22 OPEN None None],
     orders = [fx_order 30 20 2 ''tea'', fx_order 31 20 3 ''mocha''],
     user_preferences = [fx_pref 40 2 ''tea''],
     runner_stats = [fx_stat 50 2 1 (Some 500)],
     channel_admin_actions = []\<rparr>"

definition fx_world :: world where
  "fx_world = \<lparr>w_db = fx_db, w_clock = (\<lambda>n. 1000 + int n), w_ticks = 0,
     w_uuids = (\<lambda>n. word_of_nat (100 + n)), w_drawn = 0\<rparr>"

lemmas fx_defs = fx_world_def fx_db_def fx_user_def fx_channel_def fx_run_def fx_order_def
  fx_pref_def fx_stat_def

lemma fx_schema_ok: "schema_ok (w_db fx_world)"
  by (simp add: fx_defs schema_defs rows_ok_def order_key_def pref_key_def stat_key_def
      channel_checks_def Let_def)

lemma fx_fresh_draws: "fresh_draws 2 fx_world"
  by (simp add: fx_defs fresh_draws_def ids_in_use_def upt_rec Let_def)

end
