(* ===== verification/OrderService.thy ===== *)
theory OrderService
  imports Preferences Fixtures
begin

text \<open>
  \<open>OrderValidator\<close> and \<open>OrderService\<close> (\<open>core/orders/service.py\<close>): submitting, reusing and
  cancelling an order of an open run.

  The abstract view is two finite maps: \<open>basket\<close>, the active order text of a user in a run, and
  \<open>usual\<close>, the remembered text of a user in a channel. The theorems say what each operation does to
  the two maps, that a failing operation changes nothing, and which failure comes first.
\<close>

section \<open>Data transfer objects\<close>

record order_submission_request =
  req_run_id :: string
  req_user_id :: string
  req_order_text :: string
  req_confirm :: bool
  req_provenance :: order_provenance

record order_submission_result =
  sub_order_id :: string
  sub_participant_count :: nat
  sub_order_text :: string
  sub_provenance :: order_provenance
  sub_preference_updated :: bool

record order_cancellation_result =
  can_order_id :: string
  can_participant_count :: nat

record use_last_order_result =
  use_preference_id :: string
  use_submission :: order_submission_result

section \<open>OrderValidator\<close>

record order_validator =
  max_length :: int

definition default_validator :: order_validator where
  "default_validator = \<lparr>max_length = 280\<rparr>"

definition validate :: "order_validator \<Rightarrow> string \<Rightarrow> exn + string" where
  "validate v text =
     (let normalized = py_strip text in
      if normalized = [] then
        Inl (OrderError (OrderValidationError ''Order cannot be empty.'' ''order_text''))
      else if int (length normalized) > max_length v then
        Inl (OrderError (OrderValidationError
          (''Order length exceeds '' @ int_str (max_length v) @ '' characters.'') ''order_text''))
      else Inr normalized)"

section \<open>OrderService\<close>

definition persist_order ::
  "run \<Rightarrow> user \<Rightarrow> string \<Rightarrow> bool \<Rightarrow> order_provenance \<Rightarrow> (world, exn, order_submission_result) op" where
  "persist_order rn us text confirm prov =
     bindE (upsert_order (Uuid (run_id rn)) (Uuid (user_id us)) text confirm prov) (\<lambda>o1.
     bindE (if confirm
            then bindE (set_preference (Uuid (user_id us)) (Uuid (run_channel_id rn)) (order_text o1))
                   (\<lambda>_. returnE True)
            else returnE False) (\<lambda>preference_updated.
     bindE (count_active_orders (Uuid (run_id rn))) (\<lambda>participant_count.
     returnE \<lparr>sub_order_id = uuid_str (order_id o1), sub_participant_count = participant_count,
              sub_order_text = order_text o1, sub_provenance = prov,
              sub_preference_updated = preference_updated\<rparr>)))"

definition submit_order ::
  "order_validator \<Rightarrow> order_submission_request \<Rightarrow> (world, exn, order_submission_result) op" where
  "submit_order v request =
     bindE (get_open_run (Text (req_run_id request))) (\<lambda>rn.
     bindE (get_user (Text (req_user_id request))) (\<lambda>us.
     bindE (liftE (validate v (req_order_text request))) (\<lambda>normalized.
     persist_order rn us normalized (req_confirm request) (req_provenance request))))"

definition use_last_order ::
  "order_validator \<Rightarrow> string \<Rightarrow> string \<Rightarrow> (world, exn, use_last_order_result) op" where
  "use_last_order v rid uid =
     bindE (get_open_run (Text rid)) (\<lambda>rn.
     bindE (get_user (Text uid)) (\<lambda>us.
     bindE (get_preference (Uuid (user_id us)) (Uuid (run_channel_id rn))) (\<lambda>found.
     case found of
       None \<Rightarrow> raiseE (OrderError (PreferenceNotFoundError
                 (''No saved order found for user '' @ uid @ '' in this channel.'')))
     | Some preference \<Rightarrow>
         bindE (liftE (validate v (pref_last_order_text preference))) (\<lambda>normalized.
         bindE (persist_order rn us normalized True PREFERENCE) (\<lambda>submission.
         bindE (mark_used preference) (\<lambda>_.
         returnE \<lparr>use_preference_id = uuid_str (pref_id preference),
                  use_submission = submission\<rparr>))))))"

definition cancel_order :: "string \<Rightarrow> string \<Rightarrow> (world, exn, order_cancellation_result) op" where
  "cancel_order rid uid =
     bindE (get_open_run (Text rid)) (\<lambda>rn.
     bindE (get_user (Text uid)) (\<lambda>_.
     bindE (get_order (Uuid (run_id rn)) (Text uid)) (\<lambda>found.
     let missing = raiseE (OrderError (OrderNotFoundError
           (''No active order for user '' @ uid @ '' in run '' @ rid @ ''.''))) in
     case found of
       None \<Rightarrow> missing
     | Some o0 \<Rightarrow>
         if order_canceled_at o0 \<noteq> None then missing
         else bindE (repo_cancel_order o0) (\<lambda>_.
              bindE (count_active_orders (Uuid (run_id rn))) (\<lambda>participant_count.
              returnE \<lparr>can_order_id = uuid_str (order_id o0),
                       can_participant_count = participant_count\<rparr>)))))"

section \<open>The abstract view\<close>

definition basket :: "db \<Rightarrow> uuid \<times> uuid \<Rightarrow> string option" where
  "basket d k = (case lookup_by order_key k (orders d) of
     None \<Rightarrow> None
   | Some o' \<Rightarrow> if order_canceled_at o' = None then Some (order_text o') else None)"

definition basket_users :: "db \<Rightarrow> uuid \<Rightarrow> uuid set" where
  "basket_users d r = {u. basket d (r, u) \<noteq> None}"

text \<open>The count the repository returns is the number of users with an active order.\<close>

lemma active_count:
  assumes "rows_ok order_id order_key (orders d)"
  shows "length (filter (active_in r) (orders d)) = card (basket_users d r)"
proof -
  let ?rows = "filter (active_in r) (orders d)"
  from assms have dist: "distinct (map order_key (orders d))" by (simp add: rows_ok_def)
  then have "distinct (map order_key ?rows)" by (simp add: distinct_map_filter)
  then have "distinct (map order_user_id ?rows)"
    by (auto simp: distinct_map inj_on_def order_key_def active_in_def)
  moreover have "basket_users d r = set (map order_user_id ?rows)"
  proof (rule set_eqI)
    fix u
    show "u \<in> basket_users d r \<longleftrightarrow> u \<in> set (map order_user_id ?rows)"
      using lookup_by_in [OF dist]
      by (fastforce simp: basket_users_def basket_def active_in_def order_key_def
          dest: lookup_by_Some split: option.splits if_splits)
  qed
  ultimately show ?thesis
    by (metis distinct_card length_map)
qed

section \<open>The validator\<close>

lemma validate_Inr: "validate v text = Inr t \<longleftrightarrow>
    t = py_strip text \<and> t \<noteq> [] \<and> int (length t) \<le> max_length v"
  by (auto simp: validate_def Let_def)

lemma validate_Inl: "validate v text = Inl e \<Longrightarrow>
    \<exists>msg. e = OrderError (OrderValidationError msg ''order_text'')"
  by (auto simp: validate_def Let_def split: if_splits)

section \<open>Storing an order\<close>

text \<open>
  \<open>upsert_order\<close> always returns: the table has the order under the run and user, active, with the
  row of that key reused when there is one, and every other key is as before.
\<close>

lemma upsert_order_spec:
  assumes "rows_ok order_id order_key (orders (w_db w))" and "fresh_draws (Suc n) w"
  obtains o1 w1 rows where "upsert_order (Uuid r) (Uuid u) text c p w = (Inr o1, w1)"
    and "order_key o1 = (r, u)" and "order_text o1 = text" and "order_canceled_at o1 = None"
    and "order_is_final o1 = c" and "order_provenance o1 = provenance_value p"
    and "\<forall>o0. lookup_by order_key (r, u) (orders (w_db w)) = Some o0 \<longrightarrow>
           order_id o1 = order_id o0 \<and> length rows = length (orders (w_db w))"
    and "w_db w1 = (w_db w)\<lparr>orders := rows\<rparr>"
    and "(\<lambda>k. lookup_by order_key k rows) = (\<lambda>k. lookup_by order_key k (orders (w_db w)))((r, u) \<mapsto> o1)"
    and "rows_ok order_id order_key rows"
    and "set (map order_key rows) \<subseteq> insert (r, u) (set (map order_key (orders (w_db w))))"
    and "fresh_draws n w1"
proof (cases "lookup_by order_key (r, u) (orders (w_db w))")
  case None
  let ?t = "w_clock w (w_ticks w)" and ?i = "w_uuids w (w_drawn w)"
  let ?o = "\<lparr>order_id = ?i, order_run_id = r, order_user_id = u, order_text = text,
    order_is_final = c, order_provenance = provenance_value p, order_canceled_at = None,
    order_created_at = ?t, order_updated_at = ?t\<rparr>"
  let ?rows = "append_row ?o (orders (w_db w))"
  let ?w = "w\<lparr>w_ticks := Suc (w_ticks w), w_drawn := Suc (w_drawn w),
    w_db := (w_db w)\<lparr>orders := ?rows\<rparr>\<rparr>"
  have key: "order_key ?o = (r, u)" by (simp add: order_key_def)
  have fresh: "fresh_pk order_id ?o (orders (w_db w))"
    using fresh_draws_Suc [OF assms(2)] by (simp add: fresh_pk_def ids_in_use_def)
  show ?thesis
  proof (rule that [of ?o ?w ?rows])
    show "upsert_order (Uuid r) (Uuid u) text c p w = (Inr ?o, ?w)"
      using None by (simp add: upsert_order_def add_order_def op_simps)
    show "(\<lambda>k. lookup_by order_key k ?rows)
        = (\<lambda>k. lookup_by order_key k (orders (w_db w)))((r, u) \<mapsto> ?o)"
      using None key order_rows.ins_view [of ?o] by metis
    show "rows_ok order_id order_key ?rows"
      using assms(1) fresh None key order_rows.inv_ins by metis
    show "fresh_draws n ?w"
      using assms(2) by (rule fresh_draws_drawn) (auto simp: ids_in_use_def append_row_def)
  qed (use None in \<open>auto simp: append_row_def order_key_def\<close>)
next
  case (Some o0)
  let ?t = "w_clock w (w_ticks w)"
  let ?o = "o0\<lparr>order_text := text, order_is_final := c, order_provenance := provenance_value p,
    order_canceled_at := None, order_updated_at := ?t\<rparr>"
  let ?rows = "save_row order_id ?o (orders (w_db w))"
  let ?w = "w\<lparr>w_ticks := Suc (w_ticks w), w_db := (w_db w)\<lparr>orders := ?rows\<rparr>\<rparr>"
  from Some have o0: "order_key o0 = (r, u)" "o0 \<in> set (orders (w_db w))"
    by (auto dest: lookup_by_Some)
  then have key: "order_key ?o = (r, u)" by (simp add: order_key_def)
  have same: "same_pk order_id ?o o0" by (simp add: same_pk_def)
  have dist: "distinct (map order_id (orders (w_db w)))"
    using assms(1) by (simp add: rows_ok_def)
  have keys: "map order_key ?rows = map order_key (orders (w_db w))"
    by (rule map_save_row_key [OF dist o0(2)]) (simp_all add: order_key_def)
  have ids: "map order_id ?rows = map order_id (orders (w_db w))"
    by (rule map_save_row_key [OF dist o0(2)]) simp_all
  show ?thesis
  proof (rule that [of ?o ?w ?rows])
    show "upsert_order (Uuid r) (Uuid u) text c p w = (Inr ?o, ?w)"
      using Some by (simp add: upsert_order_def store_order_def op_simps)
    show "(\<lambda>k. lookup_by order_key k ?rows)
        = (\<lambda>k. lookup_by order_key k (orders (w_db w)))((r, u) \<mapsto> ?o)"
      using order_rows.upd_view [OF assms(1) _ same] Some key by simp
    show "rows_ok order_id order_key ?rows"
      using order_rows.inv_upd [OF assms(1) _ same] Some key by simp
    show "set (map order_key ?rows) \<subseteq> insert (r, u) (set (map order_key (orders (w_db w))))"
      by (simp only: keys) blast
    show "fresh_draws n ?w"
      by (rule fresh_draws_db [OF fresh_draws_less [OF assms(2)]])
        (simp_all add: ids_in_use_def ids del: set_map set_append)
  qed (use key Some in \<open>simp_all add: save_row_def\<close>)
qed

lemma basket_upd:
  "(\<lambda>k. lookup_by order_key k (orders d')) = (\<lambda>k. lookup_by order_key k (orders d))((r, u) \<mapsto> o1) \<Longrightarrow>
   basket d' = (basket d)((r, u) := if order_canceled_at o1 = None then Some (order_text o1) else None)"
  by (simp add: basket_def fun_eq_iff)

lemma usual_upd:
  "(\<lambda>k. lookup_by pref_key k (user_preferences d'))
     = (\<lambda>k. lookup_by pref_key k (user_preferences d))((u, c) \<mapsto> p1) \<Longrightarrow>
   usual d' = (usual d)((u, c) \<mapsto> pref_last_order_text p1)"
  by (simp add: usual_def fun_eq_iff)

lemma refs_orders:
  assumes "refs_ok d" and "set (map order_key rows) \<subseteq> insert (r, u) (set (map order_key (orders d)))"
    and "r \<in> run_id ` set (runs d)" and "u \<in> user_id ` set (users d)"
  shows "refs_ok (d\<lparr>orders := rows\<rparr>)"
proof -
  have "order_run_id o' \<in> run_id ` set (runs d) \<and> order_user_id o' \<in> user_id ` set (users d)"
    if "o' \<in> set rows" for o'
  proof -
    have "order_key o' \<in> insert (r, u) (set (map order_key (orders d)))"
      using that assms(2) by auto
    then show ?thesis
      using assms(1,3,4) by (auto simp: order_key_def refs_ok_def Let_def)
  qed
  with assms(1) show ?thesis by (simp add: refs_ok_def Let_def)
qed

lemma refs_prefs:
  assumes "refs_ok d" and "set (map pref_key ps) \<subseteq> insert (u, c) (set (map pref_key (user_preferences d)))"
    and "u \<in> user_id ` set (users d)" and "c \<in> channel_id ` set (channels d)"
  shows "refs_ok (d\<lparr>user_preferences := ps\<rparr>)"
proof -
  have "pref_user_id p \<in> user_id ` set (users d) \<and> pref_channel_id p \<in> channel_id ` set (channels d)"
    if "p \<in> set ps" for p
  proof -
    have "pref_key p \<in> insert (u, c) (set (map pref_key (user_preferences d)))"
      using that assms(2) by auto
    then show ?thesis
      using assms(1,3,4) by (auto simp: pref_key_def refs_ok_def Let_def)
  qed
  with assms(1) show ?thesis by (simp add: refs_ok_def Let_def)
qed

section \<open>What persisting an order does\<close>

lemma persist_order_run: "persist_order rn us text c p w =
    (case upsert_order (Uuid (run_id rn)) (Uuid (user_id us)) text c p w of
       (Inl e, w1) \<Rightarrow> (Inl e, w1)
     | (Inr o1, w1) \<Rightarrow>
         (case (if c then set_preference (Uuid (user_id us)) (Uuid (run_channel_id rn)) (order_text o1) w1
                else (Inr undefined, w1)) of
            (Inl e, w2) \<Rightarrow> (Inl e, w2)
          | (Inr _, w2) \<Rightarrow>
              (Inr \<lparr>sub_order_id = uuid_str (order_id o1),
                 sub_participant_count = length (filter (active_in (run_id rn)) (orders (w_db w2))),
                 sub_order_text = order_text o1, sub_provenance = p, sub_preference_updated = c\<rparr>, w2)))"
  by (simp add: persist_order_def bindE_def op_simps split: prod.splits sum.splits)

text \<open>
  On a database that keeps the schema it returns, keeps the schema, touches the orders and the
  preferences only, and updates the two abstract maps at one key each.
\<close>

lemma persist_order_spec:
  assumes ok: "schema_ok (w_db w)" and fresh: "fresh_draws 2 w"
    and rn: "rn \<in> set (runs (w_db w))" and us: "us \<in> set (users (w_db w))"
  obtains res w1 where "persist_order rn us text c p w = (Inr res, w1)"
    and "w_db w1 = (w_db w)\<lparr>orders := orders (w_db w1), user_preferences := user_preferences (w_db w1)\<rparr>"
    and "basket (w_db w1) = (basket (w_db w))((run_id rn, user_id us) \<mapsto> text)"
    and "usual (w_db w1) = (if c then (usual (w_db w))((user_id us, run_channel_id rn) \<mapsto> text)
           else usual (w_db w))"
    and "schema_ok (w_db w1)"
    and "sub_participant_count res = card (basket_users (w_db w1) (run_id rn))"
    and "sub_order_text res = text" and "sub_preference_updated res = c"
    and "\<forall>o0. lookup_by order_key (run_id rn, user_id us) (orders (w_db w)) = Some o0 \<longrightarrow>
           sub_order_id res = uuid_str (order_id o0)
           \<and> length (orders (w_db w1)) = length (orders (w_db w))"
    and "sub_order_id res = uuid_str (order_id (the (lookup_by order_key (run_id rn, user_id us) (orders (w_db w1)))))"
proof -
  let ?d = "w_db w" and ?r = "run_id rn" and ?u = "user_id us" and ?c = "run_channel_id rn"
  have refs: "?r \<in> run_id ` set (runs ?d)" "?u \<in> user_id ` set (users ?d)"
    "?c \<in> channel_id ` set (channels ?d)"
    using rn us ok by (auto simp: schema_ok_def refs_ok_def Let_def)
  have fresh': "fresh_draws (Suc (Suc 0)) w" using fresh by (simp add: numeral_2_eq_2)
  have rows0: "rows_ok order_id order_key (orders ?d)" using ok by (simp add: schema_defs)
  obtain o1 w1 rows where up: "upsert_order (Uuid ?r) (Uuid ?u) text c p w = (Inr o1, w1)"
    and o1: "order_key o1 = (?r, ?u)" "order_text o1 = text" "order_canceled_at o1 = None"
      "order_is_final o1 = c" "order_provenance o1 = provenance_value p"
    and same: "\<forall>o0. lookup_by order_key (?r, ?u) (orders ?d) = Some o0 \<longrightarrow>
        order_id o1 = order_id o0 \<and> length rows = length (orders ?d)"
    and d1: "w_db w1 = ?d\<lparr>orders := rows\<rparr>"
    and view1: "(\<lambda>k. lookup_by order_key k rows) = (\<lambda>k. lookup_by order_key k (orders ?d))((?r, ?u) \<mapsto> o1)"
    and rows1: "rows_ok order_id order_key rows"
    and keys1: "set (map order_key rows) \<subseteq> insert (?r, ?u) (set (map order_key (orders ?d)))"
    and fresh1: "fresh_draws (Suc 0) w1"
    by (rule upsert_order_spec [OF rows0 fresh', of ?r ?u "text" c p])
  have basket1: "basket (w_db w1) = (basket ?d)((?r, ?u) \<mapsto> text)"
    using basket_upd [of "w_db w1" ?d ?r ?u o1] view1 o1 d1 by simp
  have look1: "the (lookup_by order_key (?r, ?u) rows) = o1"
    using fun_cong [OF view1, of "(?r, ?u)"] by simp
  have refs1: "refs_ok (w_db w1)"
    using refs_orders [OF _ keys1 refs(1,2)] ok d1 by (simp add: schema_ok_def)
  have "set rows \<subseteq> insert o1 (set (orders ?d))"
    by (rule upd_view_rows [OF view1]) (use rows1 in \<open>simp add: rows_ok_def\<close>)
  moreover have "length (order_provenance o1) \<le> 32" using o1(5) by (cases p) simp_all
  ultimately have texts1: "texts_ok (w_db w1)"
    using ok d1 by (auto simp: schema_ok_def texts_ok_def)
  have schema1: "schema_ok (w_db w1)"
    using ok rows1 refs1 texts1 d1 by (simp add: schema_ok_def keys_ok_def checks_ok_def)
  show ?thesis
  proof (cases c)
    case False
    have run: "persist_order rn us text c p w =
        (Inr \<lparr>sub_order_id = uuid_str (order_id o1),
           sub_participant_count = length (filter (active_in ?r) (orders (w_db w1))),
           sub_order_text = order_text o1, sub_provenance = p, sub_preference_updated = c\<rparr>, w1)"
      using False up by (simp add: persist_order_run)
    show ?thesis
      by (rule that [OF run])
        (use False basket1 schema1 o1 same look1 d1 active_count [of "w_db w1"] rows1
          in \<open>auto simp: usual_def fun_eq_iff\<close>)
  next
    case True
    have prefs1: "rows_ok pref_id pref_key (user_preferences (w_db w1))"
      using ok d1 by (simp add: schema_defs)
    obtain p1 w2 ps where sp: "set_preference (Uuid ?u) (Uuid ?c) text w1 = (Inr p1, w2)"
      and p1: "pref_key p1 = (?u, ?c)" "pref_last_order_text p1 = text"
      and d2: "w_db w2 = (w_db w1)\<lparr>user_preferences := ps\<rparr>"
      and view2: "(\<lambda>k. lookup_by pref_key k ps)
         = (\<lambda>k. lookup_by pref_key k (user_preferences (w_db w1)))((?u, ?c) \<mapsto> p1)"
      and rows2: "rows_ok pref_id pref_key ps"
      and keys2: "set (map pref_key ps) \<subseteq> insert (?u, ?c) (set (map pref_key (user_preferences (w_db w1))))"
      and "fresh_draws 0 w2"
      by (rule set_preference_spec [OF prefs1 fresh1, of ?u ?c "text"])
    have run: "persist_order rn us text c p w =
        (Inr \<lparr>sub_order_id = uuid_str (order_id o1),
           sub_participant_count = length (filter (active_in ?r) (orders (w_db w2))),
           sub_order_text = order_text o1, sub_provenance = p, sub_preference_updated = c\<rparr>, w2)"
      using True up sp o1 by (simp add: persist_order_run)
    have usual2: "usual (w_db w2) = (usual ?d)((?u, ?c) \<mapsto> text)"
      using usual_upd [of "w_db w2" "w_db w1" ?u ?c p1] view2 p1 d2 d1
      by (simp add: usual_def fun_eq_iff)
    have refs2: "refs_ok (w_db w2)"
      using refs_prefs [OF refs1 keys2] refs d1 d2 by simp
    have schema2: "schema_ok (w_db w2)"
      using schema1 rows2 refs2 d2 by (simp add: schema_ok_def keys_ok_def checks_ok_def texts_ok_def)
    have basket2: "basket (w_db w2) = (basket ?d)((?r, ?u) \<mapsto> text)"
      using basket1 d2 by (simp add: basket_def fun_eq_iff)
    show ?thesis
      by (rule that [OF run])
        (use True basket2 usual2 schema2 o1 same look1 d1 d2 active_count [of "w_db w2"] rows1
          in auto)
  qed
qed

section \<open>The service methods, step by step\<close>

lemma submit_order_run: "submit_order v q w =
    (case get_open_run (Text (req_run_id q)) w of (Inl e, _) \<Rightarrow> (Inl e, w)
     | (Inr rn, _) \<Rightarrow> (case get_user (Text (req_user_id q)) w of (Inl e, _) \<Rightarrow> (Inl e, w)
     | (Inr us, _) \<Rightarrow> (case validate v (req_order_text q) of Inl e \<Rightarrow> (Inl e, w)
     | Inr t \<Rightarrow> persist_order rn us t (req_confirm q) (req_provenance q) w)))"
  using lookups_keep_world(1) [of "Text (req_run_id q)" w] lookups_keep_world(2) [of "Text (req_user_id q)" w]
  by (auto simp: submit_order_def bindE_def op_simps split: prod.splits sum.splits)

lemma submit_order_Inr: "submit_order v q w = (Inr res, w') \<longleftrightarrow>
    (\<exists>rn us t. get_open_run (Text (req_run_id q)) w = (Inr rn, w)
       \<and> get_user (Text (req_user_id q)) w = (Inr us, w)
       \<and> validate v (req_order_text q) = Inr t
       \<and> persist_order rn us t (req_confirm q) (req_provenance q) w = (Inr res, w'))"
  using lookups_keep_world(1) [of "Text (req_run_id q)" w] lookups_keep_world(2) [of "Text (req_user_id q)" w]
  by (auto simp: submit_order_run split: prod.splits sum.splits)

lemma set_preference_returns: "\<exists>p1 w1. set_preference (Uuid u) (Uuid c) t w = (Inr p1, w1)"
  by (simp add: set_preference_def op_simps split: option.splits)

lemma upsert_order_returns: "\<exists>o1 w1. upsert_order (Uuid r) (Uuid u) t c p w = (Inr o1, w1)"
  by (simp add: upsert_order_def add_order_def store_order_def op_simps split: option.splits)

lemma persist_order_returns: "\<exists>res w1. persist_order rn us t c p w = (Inr res, w1)"
proof -
  obtain o1 w1 where up: "upsert_order (Uuid (run_id rn)) (Uuid (user_id us)) t c p w = (Inr o1, w1)"
    using upsert_order_returns by blast
  obtain p1 w2 where "set_preference (Uuid (user_id us)) (Uuid (run_channel_id rn)) (order_text o1) w1
      = (Inr p1, w2)"
    using set_preference_returns by blast
  with up show ?thesis by (cases c) (simp_all add: persist_order_run)
qed

lemma cancel_order_run: "cancel_order rid uid w =
    (case get_open_run (Text rid) w of (Inl e, _) \<Rightarrow> (Inl e, w)
     | (Inr rn, _) \<Rightarrow> (case get_user (Text uid) w of (Inl e, _) \<Rightarrow> (Inl e, w)
     | (Inr us, _) \<Rightarrow>
        (case lookup_by order_key (run_id rn, user_id us) (orders (w_db w)) of
           None \<Rightarrow> (Inl (OrderError (OrderNotFoundError
             (''No active order for user '' @ uid @ '' in run '' @ rid @ ''.''))), w)
         | Some o0 \<Rightarrow>
            if order_canceled_at o0 \<noteq> None
            then (Inl (OrderError (OrderNotFoundError
                   (''No active order for user '' @ uid @ '' in run '' @ rid @ ''.''))), w)
            else let t = w_clock w (w_ticks w);
                     rows = save_row order_id (o0\<lparr>order_canceled_at := Some t, order_updated_at := t\<rparr>)
                       (orders (w_db w))
                 in (Inr \<lparr>can_order_id = uuid_str (order_id o0),
                      can_participant_count = length (filter (active_in (run_id rn)) rows)\<rparr>,
                     w\<lparr>w_ticks := Suc (w_ticks w), w_db := (w_db w)\<lparr>orders := rows\<rparr>\<rparr>))))"
proof (cases "get_open_run (Text rid) w")
  case (Pair res1 w1)
  then have w1: "w1 = w" using lookups_keep_world(1) [of "Text rid" w] by simp
  show ?thesis
  proof (cases res1)
    case (Inl e)
    with Pair w1 show ?thesis by (simp add: cancel_order_def op_simps)
  next
    case rn: (Inr rn)
    show ?thesis
    proof (cases "get_user (Text uid) w")
      case pair2: (Pair res2 w2)
      then have w2: "w2 = w" using lookups_keep_world(2) [of "Text uid" w] by simp
      show ?thesis
      proof (cases res2)
        case (Inl e)
        with Pair w1 rn pair2 w2 show ?thesis by (simp add: cancel_order_def op_simps)
      next
        case us: (Inr us)
        then have "as_uuid (Text uid) = Inr (user_id us)"
          using pair2 w2 get_user_Inr [of "Text uid" w us w] by (auto dest: lookup_by_Some)
        then have go: "get_order (Uuid (run_id rn)) (Text uid) w
            = (Inr (lookup_by order_key (run_id rn, user_id us) (orders (w_db w))), w)"
          by (simp add: get_order_run)
        show ?thesis
          using Pair w1 rn pair2 w2 us
          by (simp add: cancel_order_def op_simps go repo_cancel_order_def store_order_def split: option.splits)
      qed
    qed
  qed
qed

section \<open>Properties\<close>

lemma open_run_in: "get_open_run (Text i) w = (Inr rn, w) \<Longrightarrow>
    as_uuid (Text i) = Inr (run_id rn) \<and> rn \<in> set (runs (w_db w)) \<and> run_status rn = OPEN
    \<and> lookup_by run_id (run_id rn) (runs (w_db w)) = Some rn"
  by (auto simp: get_open_run_Inr dest: lookup_by_Some)

lemma user_in: "get_user (Text i) w = (Inr us, w) \<Longrightarrow>
    as_uuid (Text i) = Inr (user_id us) \<and> us \<in> set (users (w_db w))
    \<and> lookup_by user_id (user_id us) (users (w_db w)) = Some us"
  by (auto simp: get_user_Inr dest: lookup_by_Some)

definition fx_request :: order_submission_request where
  "fx_request = \<lparr>req_run_id = uuid_str 20, req_user_id = uuid_str 1,
     req_order_text = '' latte '', req_confirm = True, req_provenance = MANUAL\<rparr>"

lemmas fx_order_simps = fx_defs fx_request_def default_validator_def get_open_run_run get_run_run
  get_user_run lookup_by_def validate_def py_strip_def strip_by_def py_isspace_def Let_def

lemma fx_submit: "\<exists>res w'. submit_order default_validator fx_request fx_world = (Inr res, w')"
  using persist_order_returns by (simp add: submit_order_run fx_order_simps)

text \<open>
  Property C1. A submission that returns stores exactly one thing in the basket: the stripped text
  under the run and user of the request, whatever was there before; it updates the remembered order
  of the user in the run's channel when (and only when) the request confirms; it touches no other
  table, keeps every constraint of the schema, and reports the number of users with an active order.
\<close>

theorem submit_order_refines:
  assumes "schema_ok (w_db w)" and "fresh_draws 2 w" and "submit_order v q w = (Inr res, w')"
  shows "\<exists>r u rn. as_uuid (Text (req_run_id q)) = Inr r \<and> as_uuid (Text (req_user_id q)) = Inr u
     \<and> lookup_by run_id r (runs (w_db w)) = Some rn
     \<and> basket (w_db w') = (basket (w_db w))((r, u) \<mapsto> py_strip (req_order_text q))
     \<and> usual (w_db w') = (if req_confirm q
          then (usual (w_db w))((u, run_channel_id rn) \<mapsto> py_strip (req_order_text q))
          else usual (w_db w))
     \<and> w_db w' = (w_db w)\<lparr>orders := orders (w_db w'), user_preferences := user_preferences (w_db w')\<rparr>
     \<and> schema_ok (w_db w')
     \<and> sub_participant_count res = card (basket_users (w_db w') r)"
proof -
  obtain rn us where rn: "get_open_run (Text (req_run_id q)) w = (Inr rn, w)"
    and us: "get_user (Text (req_user_id q)) w = (Inr us, w)"
    and run: "persist_order rn us (py_strip (req_order_text q)) (req_confirm q) (req_provenance q) w
      = (Inr res, w')"
    using assms(3) by (auto simp: submit_order_Inr validate_Inr)
  note facts = open_run_in [OF rn] user_in [OF us]
  then have "rn \<in> set (runs (w_db w))" "us \<in> set (users (w_db w))" by auto
  from persist_order_spec [OF assms(1,2) this, of "py_strip (req_order_text q)" "req_confirm q" "req_provenance q"]
  show ?thesis
    by (rule, intro exI [of _ "run_id rn"] exI [of _ "user_id us"] exI [of _ rn])
      (use facts run in auto)
qed

theorem submit_order_refines_witness:
  "\<exists>res w'. submit_order default_validator fx_request fx_world = (Inr res, w')
     \<and> basket (w_db w') (20, 1) = Some ''latte'' \<and> usual (w_db w') (1, 10) = Some ''latte''
     \<and> basket (w_db w') (20, 2) = Some ''tea''"
proof -
  obtain res w' where run: "submit_order default_validator fx_request fx_world = (Inr res, w')"
    using fx_submit by blast
  from submit_order_refines [OF fx_schema_ok fx_fresh_draws run] obtain rn where
    rn: "lookup_by run_id 20 (runs (w_db fx_world)) = Some rn"
    and b: "basket (w_db w') = (basket (w_db fx_world))((20, 1) \<mapsto> ''latte'')"
    and u: "usual (w_db w') = (usual (w_db fx_world))((1, run_channel_id rn) \<mapsto> ''latte'')"
    by (auto simp: fx_request_def py_strip_def strip_by_def py_isspace_def)
  have "run_channel_id rn = 10"
    using rn by (auto simp: fx_defs lookup_by_def)
  moreover have "basket (w_db fx_world) (20, 2) = Some ''tea''"
    by (simp add: fx_defs basket_def lookup_by_def order_key_def)
  ultimately show ?thesis
    using run b u by (intro exI [of _ res] exI [of _ w']) simp
qed

text \<open>
  Property C2. A submission is accepted exactly when the run identifier is a UUID of an open run, the
  user identifier is a UUID of a known user and the stripped text is non-empty and within the limit;
  otherwise it raises and leaves the world untouched: no row, no clock reading, no drawn identifier.
\<close>

theorem submit_order_decision:
  "if (\<exists>r rn. as_uuid (Text (req_run_id q)) = Inr r \<and> lookup_by run_id r (runs (w_db w)) = Some rn
         \<and> run_status rn = OPEN)
      \<and> (\<exists>u us. as_uuid (Text (req_user_id q)) = Inr u \<and> lookup_by user_id u (users (w_db w)) = Some us)
      \<and> py_strip (req_order_text q) \<noteq> [] \<and> int (length (py_strip (req_order_text q))) \<le> max_length v
   then \<exists>res w'. submit_order v q w = (Inr res, w')
   else \<exists>e. submit_order v q w = (Inl e, w)"
proof (cases "\<exists>rn us t. get_open_run (Text (req_run_id q)) w = (Inr rn, w)
    \<and> get_user (Text (req_user_id q)) w = (Inr us, w) \<and> validate v (req_order_text q) = Inr t")
  case True
  then have "\<exists>res w'. submit_order v q w = (Inr res, w')"
    using persist_order_returns unfolding submit_order_Inr by blast
  moreover from True have "(\<exists>r rn. as_uuid (Text (req_run_id q)) = Inr r
        \<and> lookup_by run_id r (runs (w_db w)) = Some rn \<and> run_status rn = OPEN)
      \<and> (\<exists>u us. as_uuid (Text (req_user_id q)) = Inr u \<and> lookup_by user_id u (users (w_db w)) = Some us)
      \<and> py_strip (req_order_text q) \<noteq> [] \<and> int (length (py_strip (req_order_text q))) \<le> max_length v"
    by (auto simp only: get_open_run_Inr get_user_Inr validate_Inr)
  ultimately show ?thesis by (simp only: if_True simp_thms)
next
  case False
  then have "\<exists>e. submit_order v q w = (Inl e, w)"
    using lookups_keep_world(1) [of "Text (req_run_id q)" w] lookups_keep_world(2) [of "Text (req_user_id q)" w]
    by (fastforce simp: submit_order_run split: prod.splits sum.splits)
  moreover from False have "\<not> ((\<exists>r rn. as_uuid (Text (req_run_id q)) = Inr r
        \<and> lookup_by run_id r (runs (w_db w)) = Some rn \<and> run_status rn = OPEN)
      \<and> (\<exists>u us. as_uuid (Text (req_user_id q)) = Inr u \<and> lookup_by user_id u (users (w_db w)) = Some us)
      \<and> py_strip (req_order_text q) \<noteq> [] \<and> int (length (py_strip (req_order_text q))) \<le> max_length v)"
    unfolding get_open_run_Inr get_user_Inr validate_Inr by blast
  ultimately show ?thesis by (simp only: if_False simp_thms)
qed

section \<open>Cancelling\<close>

lemma cancel_order_spec:
  assumes ok: "schema_ok (w_db w)" and run: "cancel_order rid uid w = (Inr res, w')"
  obtains rn us o0 where "get_open_run (Text rid) w = (Inr rn, w)" and "get_user (Text uid) w = (Inr us, w)"
    and "lookup_by order_key (run_id rn, user_id us) (orders (w_db w)) = Some o0"
    and "order_canceled_at o0 = None" and "can_order_id res = uuid_str (order_id o0)"
    and "lookup_by order_key (run_id rn, user_id us) (orders (w_db w'))
      = Some (o0\<lparr>order_canceled_at := Some (w_clock w (w_ticks w)), order_updated_at := w_clock w (w_ticks w)\<rparr>)"
    and "basket (w_db w') = (basket (w_db w))((run_id rn, user_id us) := None)"
    and "w_db w' = (w_db w)\<lparr>orders := orders (w_db w')\<rparr>"
    and "map order_id (orders (w_db w')) = map order_id (orders (w_db w))"
    and "schema_ok (w_db w')"
    and "can_participant_count res = card (basket_users (w_db w') (run_id rn))"
    and "w_clock w' = w_clock w" and "w_uuids w' = w_uuids w" and "w_drawn w' = w_drawn w"
proof -
  let ?t = "w_clock w (w_ticks w)"
  obtain rn us o0 where rn: "get_open_run (Text rid) w = (Inr rn, w)"
    and us: "get_user (Text uid) w = (Inr us, w)"
    and o0: "lookup_by order_key (run_id rn, user_id us) (orders (w_db w)) = Some o0"
      "order_canceled_at o0 = None"
    and w': "w' = w\<lparr>w_ticks := Suc (w_ticks w), w_db := (w_db w)\<lparr>orders :=
        save_row order_id (o0\<lparr>order_canceled_at := Some ?t, order_updated_at := ?t\<rparr>) (orders (w_db w))\<rparr>\<rparr>"
    and res: "res = \<lparr>can_order_id = uuid_str (order_id o0),
        can_participant_count = length (filter (active_in (run_id rn)) (orders (w_db w')))\<rparr>"
    using run lookups_keep_world(1) [of "Text rid" w] lookups_keep_world(2) [of "Text uid" w]
    by (auto simp: cancel_order_run Let_def split: prod.splits sum.splits option.splits if_splits)
  let ?o = "o0\<lparr>order_canceled_at := Some ?t, order_updated_at := ?t\<rparr>"
  have rows0: "rows_ok order_id order_key (orders (w_db w))" using ok by (simp add: schema_defs)
  from o0 have in0: "order_key o0 = (run_id rn, user_id us)" "o0 \<in> set (orders (w_db w))"
    by (auto dest: lookup_by_Some)
  have key: "order_key ?o = (run_id rn, user_id us)" using in0 by (simp add: order_key_def)
  have same: "same_pk order_id ?o o0" by (simp add: same_pk_def)
  have view: "(\<lambda>k. lookup_by order_key k (orders (w_db w')))
      = (\<lambda>k. lookup_by order_key k (orders (w_db w)))((run_id rn, user_id us) \<mapsto> ?o)"
    using order_rows.upd_view [OF rows0 _ same] o0 key by (simp add: w')
  have rows': "rows_ok order_id order_key (orders (w_db w'))"
    using order_rows.inv_upd [OF rows0 _ same] o0 key by (simp add: w')
  have dist: "distinct (map order_id (orders (w_db w)))" using rows0 by (simp add: rows_ok_def)
  have keys: "map order_key (orders (w_db w')) = map order_key (orders (w_db w))"
    unfolding w' by (simp, rule map_save_row_key [OF dist in0(2)]) (simp_all add: order_key_def)
  have ids: "map order_id (orders (w_db w')) = map order_id (orders (w_db w))"
    unfolding w' by (simp, rule map_save_row_key [OF dist in0(2)]) simp_all
  have db: "w_db w' = (w_db w)\<lparr>orders := orders (w_db w')\<rparr>" by (simp add: w')
  have "refs_ok ((w_db w)\<lparr>orders := orders (w_db w')\<rparr>)"
    using ok open_run_in [OF rn] user_in [OF us] keys
    by (intro refs_orders [of "w_db w" _ "run_id rn" "user_id us"])
      (auto simp: schema_ok_def simp del: set_map)
  with db have refs': "refs_ok (w_db w')" by (simp only: db [symmetric])
  have "set (orders (w_db w')) \<subseteq> insert ?o (set (orders (w_db w)))"
    by (rule upd_view_rows [OF view]) (use rows' in \<open>simp add: rows_ok_def\<close>)
  then have "texts_ok (w_db w')"
    using ok in0 by (subst db) (auto simp: schema_ok_def texts_ok_def)
  then have schema': "schema_ok (w_db w')"
    using ok rows' refs' by (simp add: schema_ok_def keys_ok_def checks_ok_def w')
  have look': "lookup_by order_key (run_id rn, user_id us) (orders (w_db w')) = Some ?o"
    using fun_cong [OF view, of "(run_id rn, user_id us)"] by simp
  have basket': "basket (w_db w') = (basket (w_db w))((run_id rn, user_id us) := None)"
    using basket_upd [OF view] by simp
  have env: "w_clock w' = w_clock w" "w_uuids w' = w_uuids w" "w_drawn w' = w_drawn w"
    by (simp_all add: w')
  show ?thesis
    by (rule that [OF rn us o0 _ look' basket' db ids schema' _ env])
      (use res active_count [OF rows'] in auto)
qed

lemma finite_basket_users: "finite (basket_users d r)"
proof (rule finite_subset)
  show "basket_users d r \<subseteq> order_user_id ` set (orders d)"
    by (force simp: basket_users_def basket_def order_key_def dest: lookup_by_Some split: option.splits)
qed simp

lemma open_run_frame:
  "get_open_run i w = (Inr rn, w) \<Longrightarrow> runs (w_db w') = runs (w_db w) \<Longrightarrow> get_open_run i w' = (Inr rn, w')"
  by (simp add: get_open_run_Inr)

lemma user_frame:
  "get_user i w = (Inr us, w) \<Longrightarrow> users (w_db w') = users (w_db w) \<Longrightarrow> get_user i w' = (Inr us, w')"
  by (simp add: get_user_Inr)

lemma fx_cancel: "\<exists>res w'. cancel_order (uuid_str 20) (uuid_str 2) fx_world = (Inr res, w')"
  by (simp add: cancel_order_run fx_order_simps order_key_def)

text \<open>
  Property C3. Cancelling succeeds only on an order that is in the basket; it takes exactly that
  order out, leaves the remembered orders and every other table alone, keeps the schema, and reports
  a participant count that is one less than before.
\<close>

theorem cancel_order_refines:
  assumes "schema_ok (w_db w)" and "cancel_order rid uid w = (Inr res, w')"
  shows "\<exists>r u. as_uuid (Text rid) = Inr r \<and> as_uuid (Text uid) = Inr u
     \<and> basket (w_db w) (r, u) \<noteq> None
     \<and> basket (w_db w') = (basket (w_db w))((r, u) := None)
     \<and> w_db w' = (w_db w)\<lparr>orders := orders (w_db w')\<rparr>
     \<and> schema_ok (w_db w')
     \<and> Suc (can_participant_count res) = card (basket_users (w_db w) r)"
  using assms
proof (rule cancel_order_spec)
  fix rn us o0
  assume rn: "get_open_run (Text rid) w = (Inr rn, w)" and us: "get_user (Text uid) w = (Inr us, w)"
    and o0: "lookup_by order_key (run_id rn, user_id us) (orders (w_db w)) = Some o0"
      "order_canceled_at o0 = None"
    and b: "basket (w_db w') = (basket (w_db w))((run_id rn, user_id us) := None)"
    and rest: "w_db w' = (w_db w)\<lparr>orders := orders (w_db w')\<rparr>" "schema_ok (w_db w')"
    and count: "can_participant_count res = card (basket_users (w_db w') (run_id rn))"
  have member: "basket (w_db w) (run_id rn, user_id us) \<noteq> None"
    using o0 by (simp add: basket_def)
  then have "basket_users (w_db w) (run_id rn) = insert (user_id us) (basket_users (w_db w') (run_id rn))"
    and "user_id us \<notin> basket_users (w_db w') (run_id rn)"
    by (auto simp: basket_users_def b)
  with count have "Suc (can_participant_count res) = card (basket_users (w_db w) (run_id rn))"
    by (simp add: finite_basket_users)
  with member b rest open_run_in [OF rn] user_in [OF us] show ?thesis by blast
qed

theorem cancel_order_refines_witness:
  "\<exists>res w'. cancel_order (uuid_str 20) (uuid_str 2) fx_world = (Inr res, w')
     \<and> basket (w_db w') (20, 2) = None \<and> basket (w_db w') (20, 3) = Some ''mocha''"
proof -
  obtain res w' where run: "cancel_order (uuid_str 20) (uuid_str 2) fx_world = (Inr res, w')"
    using fx_cancel by blast
  have "basket (w_db fx_world) (20, 3) = Some ''mocha''"
    by (simp add: fx_defs basket_def lookup_by_def order_key_def)
  with run cancel_order_refines [OF fx_schema_ok run] show ?thesis by auto
qed

lemma cancel_order_once:
  assumes "schema_ok (w_db w)" and "cancel_order rid uid w = (Inr res, w')"
  shows "cancel_order rid uid w' = (Inl (OrderError (OrderNotFoundError
           (''No active order for user '' @ uid @ '' in run '' @ rid @ ''.''))), w')"
  using assms
proof (rule cancel_order_spec)
  fix rn us o0
  assume rn: "get_open_run (Text rid) w = (Inr rn, w)" and us: "get_user (Text uid) w = (Inr us, w)"
    and look: "lookup_by order_key (run_id rn, user_id us) (orders (w_db w'))
      = Some (o0\<lparr>order_canceled_at := Some (w_clock w (w_ticks w)), order_updated_at := w_clock w (w_ticks w)\<rparr>)"
    and db: "w_db w' = (w_db w)\<lparr>orders := orders (w_db w')\<rparr>"
  have "runs (w_db w') = runs (w_db w)" "users (w_db w') = users (w_db w)"
    by (subst db, simp)+
  then have "get_open_run (Text rid) w' = (Inr rn, w')" "get_user (Text uid) w' = (Inr us, w')"
    using open_run_frame [OF rn] user_frame [OF us] by auto
  with look show ?thesis by (simp add: cancel_order_run)
qed

lemma submit_after_cancel:
  assumes ok: "schema_ok (w_db w)" and fresh: "fresh_draws 2 w"
    and cancel: "cancel_order (req_run_id q) (req_user_id q) w = (Inr c, w1)"
    and submit: "submit_order v q w1 = (Inr s, w2)"
  shows "\<exists>r u. as_uuid (Text (req_run_id q)) = Inr r \<and> as_uuid (Text (req_user_id q)) = Inr u
     \<and> sub_order_id s = can_order_id c
     \<and> length (orders (w_db w2)) = length (orders (w_db w))
     \<and> basket (w_db w2) = (basket (w_db w))((r, u) \<mapsto> py_strip (req_order_text q))"
  using ok cancel
proof (rule cancel_order_spec)
  fix rn us o0
  assume rn: "get_open_run (Text (req_run_id q)) w = (Inr rn, w)"
    and us: "get_user (Text (req_user_id q)) w = (Inr us, w)"
    and look: "lookup_by order_key (run_id rn, user_id us) (orders (w_db w1))
      = Some (o0\<lparr>order_canceled_at := Some (w_clock w (w_ticks w)), order_updated_at := w_clock w (w_ticks w)\<rparr>)"
    and cid: "can_order_id c = uuid_str (order_id o0)"
    and b1: "basket (w_db w1) = (basket (w_db w))((run_id rn, user_id us) := None)"
    and db: "w_db w1 = (w_db w)\<lparr>orders := orders (w_db w1)\<rparr>"
    and ids: "map order_id (orders (w_db w1)) = map order_id (orders (w_db w))"
    and ok1: "schema_ok (w_db w1)"
    and env: "w_uuids w1 = w_uuids w" "w_drawn w1 = w_drawn w"
  have "runs (w_db w1) = runs (w_db w)" "users (w_db w1) = users (w_db w)"
    by (subst db, simp)+
  then have "get_open_run (Text (req_run_id q)) w1 = (Inr rn, w1)"
    "get_user (Text (req_user_id q)) w1 = (Inr us, w1)"
    using open_run_frame [OF rn] user_frame [OF us] by auto
  with submit have run: "persist_order rn us (py_strip (req_order_text q)) (req_confirm q)
      (req_provenance q) w1 = (Inr s, w2)"
    by (auto simp: submit_order_Inr validate_Inr)
  have "ids_in_use (w_db w1) = ids_in_use (w_db w)"
    by (subst db) (simp add: ids_in_use_def ids del: set_map)
  then have fresh1: "fresh_draws 2 w1"
    by (intro fresh_draws_db [OF fresh] env) simp
  have "length (orders (w_db w1)) = length (orders (w_db w))"
    using ids by (metis length_map)
  with open_run_in [OF rn] user_in [OF us] run look cid b1 show ?thesis
    by (intro exI [of _ "run_id rn"] exI [of _ "user_id us"])
      (rule persist_order_spec [OF ok1 fresh1, of rn us "py_strip (req_order_text q)"
          "req_confirm q" "req_provenance q"];
        use \<open>runs (w_db w1) = runs (w_db w)\<close> \<open>users (w_db w1) = users (w_db w)\<close> in auto)
qed

definition fx_again :: order_submission_request where
  "fx_again = \<lparr>req_run_id = uuid_str 20, req_user_id = uuid_str 2, req_order_text = ''chai'',
     req_confirm = False, req_provenance = EDIT\<rparr>"

text \<open>
  Property C4. What a cancellation leaves. An order is cancelled at most once: the same call again raises
  OrderNotFoundError, with the message that names the user and the run, and changes nothing more. Ordering again
  revives the cancelled row instead of adding one: the submission returns the same order identifier, the table
  has the same number of rows as before, and the basket is the one before the cancellation with the new text.
\<close>

theorem cancel_then_order_again:
  assumes "schema_ok (w_db w)" and "cancel_order (req_run_id q) (req_user_id q) w = (Inr c, w1)"
  shows "cancel_order (req_run_id q) (req_user_id q) w1 = (Inl (OrderError (OrderNotFoundError
           (''No active order for user '' @ req_user_id q @ '' in run '' @ req_run_id q @ ''.''))), w1)
     \<and> (\<forall>v s w2. fresh_draws 2 w \<longrightarrow> submit_order v q w1 = (Inr s, w2) \<longrightarrow>
         (\<exists>r u. as_uuid (Text (req_run_id q)) = Inr r \<and> as_uuid (Text (req_user_id q)) = Inr u
          \<and> sub_order_id s = can_order_id c
          \<and> length (orders (w_db w2)) = length (orders (w_db w))
          \<and> basket (w_db w2) = (basket (w_db w))((r, u) \<mapsto> py_strip (req_order_text q))))"
  using cancel_order_once [OF assms] submit_after_cancel [OF assms(1) _ assms(2)] by blast

theorem cancel_then_order_again_witness:
  "\<exists>c w1 s w2. cancel_order (uuid_str 20) (uuid_str 2) fx_world = (Inr c, w1)
     \<and> submit_order default_validator fx_again w1 = (Inr s, w2)
     \<and> sub_order_id s = can_order_id c \<and> basket (w_db w2) (20, 2) = Some ''chai''"
proof -
  obtain c w1 where cancel: "cancel_order (uuid_str 20) (uuid_str 2) fx_world = (Inr c, w1)"
    using fx_cancel by blast
  then have "runs (w_db w1) = runs (w_db fx_world)" "users (w_db w1) = users (w_db fx_world)"
    by (auto simp: cancel_order_run fx_order_simps order_key_def)
  then obtain s w2 where submit: "submit_order default_validator fx_again w1 = (Inr s, w2)"
    using persist_order_returns
    by (simp add: submit_order_run fx_again_def fx_order_simps) blast
  have "cancel_order (req_run_id fx_again) (req_user_id fx_again) fx_world = (Inr c, w1)"
    using cancel by (simp add: fx_again_def)
  from cancel_then_order_again [OF fx_schema_ok this]
  have "\<exists>r u. as_uuid (Text (req_run_id fx_again)) = Inr r \<and> as_uuid (Text (req_user_id fx_again)) = Inr u
      \<and> sub_order_id s = can_order_id c
      \<and> basket (w_db w2) = (basket (w_db fx_world))((r, u) \<mapsto> py_strip (req_order_text fx_again))"
    using fx_fresh_draws submit by blast
  with cancel submit show ?thesis
    by (auto simp: fx_again_def py_strip_def strip_by_def py_isspace_def)
qed

section \<open>Reusing the last order\<close>

definition touched :: "user_preference \<Rightarrow> world \<Rightarrow> world" where
  "touched p w = w\<lparr>w_ticks := Suc (w_ticks w), w_db := (w_db w)\<lparr>user_preferences :=
     touch_preference (pref_id p) (w_clock w (w_ticks w)) (user_preferences (w_db w))\<rparr>\<rparr>"

lemma mark_used_run [op_simps]: "mark_used p w = (Inr (), touched p w)"
  by (simp add: mark_used_def touched_def op_simps)

lemma touch_lookup: "lookup_by pref_key k (touch_preference i t ps) = map_option (\<lambda>p. if pref_id p = i
    then p\<lparr>pref_last_used_at := Some t, pref_updated_at := t\<rparr> else p) (lookup_by pref_key k ps)"
  by (induction ps) (auto simp: lookup_by_def touch_preference_def pref_key_def)

lemma touch_maps:
  "map pref_id (touch_preference i t ps) = map pref_id ps"
  "map pref_key (touch_preference i t ps) = map pref_key ps"
  "map pref_last_order_text (touch_preference i t ps) = map pref_last_order_text ps"
  by (auto simp: touch_preference_def pref_key_def)

lemma touched_view: "usual (w_db (touched p w)) = usual (w_db w)" "basket (w_db (touched p w)) = basket (w_db w)"
  "orders (w_db (touched p w)) = orders (w_db w)"
  by (auto simp: touched_def usual_def basket_def touch_lookup option.map_comp fun_eq_iff
      intro!: option.map_cong)

lemma touched_schema:
  assumes ok: "schema_ok (w_db w)"
  shows "schema_ok (w_db (touched p w))"
proof -
  let ?ps = "touch_preference (pref_id p) (w_clock w (w_ticks w)) (user_preferences (w_db w))"
  have "set (map pref_key ?ps) = set (map pref_key (user_preferences (w_db w)))"
    by (simp only: touch_maps)
  then have key: "pref_key x \<in> pref_key ` set (user_preferences (w_db w))" if "x \<in> set ?ps" for x
    using that by auto
  have "pref_user_id x \<in> user_id ` set (users (w_db w)) \<and> pref_channel_id x \<in> channel_id ` set (channels (w_db w))"
    if "x \<in> set ?ps" for x
    using key [OF that] ok by (auto simp: pref_key_def schema_ok_def refs_ok_def Let_def)
  with ok show ?thesis
    by (simp add: touched_def schema_defs rows_ok_def touch_maps Let_def)
qed

lemma use_last_order_run: "use_last_order v rid uid w =
    (case get_open_run (Text rid) w of (Inl e, _) \<Rightarrow> (Inl e, w)
     | (Inr rn, _) \<Rightarrow> (case get_user (Text uid) w of (Inl e, _) \<Rightarrow> (Inl e, w)
     | (Inr us, _) \<Rightarrow>
        (case lookup_by pref_key (user_id us, run_channel_id rn) (user_preferences (w_db w)) of
           None \<Rightarrow> (Inl (OrderError (PreferenceNotFoundError
             (''No saved order found for user '' @ uid @ '' in this channel.''))), w)
         | Some p \<Rightarrow> (case validate v (pref_last_order_text p) of Inl e \<Rightarrow> (Inl e, w)
             | Inr t \<Rightarrow> (case persist_order rn us t True PREFERENCE w of
                  (Inl e, w1) \<Rightarrow> (Inl e, w1)
                | (Inr sub, w1) \<Rightarrow> (Inr \<lparr>use_preference_id = uuid_str (pref_id p),
                     use_submission = sub\<rparr>, touched p w1))))))"
  using lookups_keep_world(1) [of "Text rid" w] lookups_keep_world(2) [of "Text uid" w]
  by (auto simp: use_last_order_def bindE_def op_simps split: prod.splits sum.splits option.splits)

lemma use_last_order_Inr:
  assumes "use_last_order v rid uid w = (Inr res, w')"
  obtains rn us p t w1 where "get_open_run (Text rid) w = (Inr rn, w)"
    and "get_user (Text uid) w = (Inr us, w)"
    and "lookup_by pref_key (user_id us, run_channel_id rn) (user_preferences (w_db w)) = Some p"
    and "validate v (pref_last_order_text p) = Inr t"
    and "persist_order rn us t True PREFERENCE w = (Inr (use_submission res), w1)"
    and "w' = touched p w1" and "use_preference_id res = uuid_str (pref_id p)"
  using assms lookups_keep_world(1) [of "Text rid" w] lookups_keep_world(2) [of "Text uid" w]
  by (auto simp: use_last_order_run split: prod.splits sum.splits option.splits)

lemma fx_use_last: "\<exists>res w'. use_last_order default_validator (uuid_str 22) (uuid_str 2) fx_world = (Inr res, w')"
proof -
  obtain s w1 where "persist_order (fx_run 22 OPEN None None) (fx_user 2 ''Bob'') ''tea'' True PREFERENCE fx_world
      = (Inr s, w1)"
    using persist_order_returns by blast
  then show ?thesis
    by (simp add: use_last_order_run fx_order_simps pref_key_def)
qed

text \<open>
  Property C6. Reusing the last order is submitting it: when the call returns, there is a remembered
  text for the user in the run's channel, the result names the preference it stands in, and the reported
  submission is that of a confirmed submission of that text with provenance \<open>preference\<close>. The database is the
  one that this submission leaves, in every table, but for one thing: the preference has the next reading of the
  clock as the time of its last use and of its last change. So the orders, the baskets and the remembered texts are
  those of the submission.
\<close>

theorem use_last_order_submits:
  assumes "use_last_order v rid uid w = (Inr res, w')"
  shows "\<exists>u rn p w1 t. as_uuid (Text uid) = Inr u \<and> get_open_run (Text rid) w = (Inr rn, w)
     \<and> lookup_by pref_key (u, run_channel_id rn) (user_preferences (w_db w)) = Some p
     \<and> use_preference_id res = uuid_str (pref_id p)
     \<and> submit_order v \<lparr>req_run_id = rid, req_user_id = uid, req_order_text = pref_last_order_text p,
          req_confirm = True, req_provenance = PREFERENCE\<rparr> w = (Inr (use_submission res), w1)
     \<and> t = w_clock w1 (w_ticks w1)
     \<and> w' = w1\<lparr>w_ticks := Suc (w_ticks w1), w_db := (w_db w1)\<lparr>user_preferences :=
          map (\<lambda>x. if pref_id x = pref_id p then x\<lparr>pref_last_used_at := Some t, pref_updated_at := t\<rparr> else x)
            (user_preferences (w_db w1))\<rparr>\<rparr>
     \<and> orders (w_db w') = orders (w_db w1) \<and> basket (w_db w') = basket (w_db w1)
     \<and> usual (w_db w') = usual (w_db w1)"
  using assms
proof (rule use_last_order_Inr)
  fix rn us p t w1
  assume rn: "get_open_run (Text rid) w = (Inr rn, w)" and us: "get_user (Text uid) w = (Inr us, w)"
    and p: "lookup_by pref_key (user_id us, run_channel_id rn) (user_preferences (w_db w)) = Some p"
    and t: "validate v (pref_last_order_text p) = Inr t"
    and run: "persist_order rn us t True PREFERENCE w = (Inr (use_submission res), w1)"
    and w': "w' = touched p w1" and named: "use_preference_id res = uuid_str (pref_id p)"
  have "submit_order v \<lparr>req_run_id = rid, req_user_id = uid, req_order_text = pref_last_order_text p,
          req_confirm = True, req_provenance = PREFERENCE\<rparr> w = (Inr (use_submission res), w1)"
    using rn us t run by (simp add: submit_order_Inr)
  moreover note touched_view [of p w1, folded w']
  ultimately show ?thesis
    using rn p named user_in [OF us] w' [unfolded touched_def touch_preference_def] by blast
qed

theorem use_last_order_submits_witness:
  "\<exists>res w' (p :: user_preference) t. use_last_order default_validator (uuid_str 22) (uuid_str 2) fx_world = (Inr res, w')
     \<and> pref_last_order_text p = ''tea'' \<and> use_preference_id res = uuid_str (pref_id p)
     \<and> (\<forall>x \<in> set (user_preferences (w_db w')). pref_id x = pref_id p \<longrightarrow> pref_last_used_at x = Some t)"
proof -
  obtain res w' where run: "use_last_order default_validator (uuid_str 22) (uuid_str 2) fx_world = (Inr res, w')"
    using fx_use_last by blast
  from use_last_order_submits [OF run] obtain u rn p w1 t where
    u: "as_uuid (Text (uuid_str 2)) = Inr u" and rn: "get_open_run (Text (uuid_str 22)) fx_world = (Inr rn, fx_world)"
    and p: "lookup_by pref_key (u, run_channel_id rn) (user_preferences (w_db fx_world)) = Some p"
      "use_preference_id res = uuid_str (pref_id p)"
    and w': "w' = w1\<lparr>w_ticks := Suc (w_ticks w1), w_db := (w_db w1)\<lparr>user_preferences :=
          map (\<lambda>x. if pref_id x = pref_id p then x\<lparr>pref_last_used_at := Some t, pref_updated_at := t\<rparr> else x)
            (user_preferences (w_db w1))\<rparr>\<rparr>"
    by blast
  have "p = fx_pref 40 2 ''tea''"
    using p(1) by (auto simp: fx_world_def fx_db_def lookup_by_def split: if_splits)
  then have "pref_last_order_text p = ''tea''" by (simp add: fx_pref_def)
  moreover have "\<forall>x \<in> set (user_preferences (w_db w')). pref_id x = pref_id p \<longrightarrow> pref_last_used_at x = Some t"
    by (auto simp: w')
  ultimately show ?thesis using run p(2) by blast
qed

lemma persist_order_facts:
  assumes "schema_ok (w_db w)" and "fresh_draws 2 w"
    and "rn \<in> set (runs (w_db w))" and "us \<in> set (users (w_db w))"
    and "persist_order rn us t c p w = (Inr res, w1)"
  shows "runs (w_db w1) = runs (w_db w)" and "users (w_db w1) = users (w_db w)"
    and "schema_ok (w_db w1)"
    and "basket (w_db w1) = (basket (w_db w))((run_id rn, user_id us) \<mapsto> t)"
    and "usual (w_db w1) = (if c then (usual (w_db w))((user_id us, run_channel_id rn) \<mapsto> t)
           else usual (w_db w))"
    and "runner_stats (w_db w1) = runner_stats (w_db w)"
proof -
  have "runs (w_db w1) = runs (w_db w) \<and> users (w_db w1) = users (w_db w) \<and> schema_ok (w_db w1)
    \<and> basket (w_db w1) = (basket (w_db w))((run_id rn, user_id us) \<mapsto> t)
    \<and> usual (w_db w1) = (if c then (usual (w_db w))((user_id us, run_channel_id rn) \<mapsto> t)
           else usual (w_db w))
    \<and> runner_stats (w_db w1) = runner_stats (w_db w)"
  proof (rule persist_order_spec [OF assms(1-4), of t c p])
    fix res' w1'
    assume run: "persist_order rn us t c p w = (Inr res', w1')"
      and d: "w_db w1' = (w_db w)\<lparr>orders := orders (w_db w1'), user_preferences := user_preferences (w_db w1')\<rparr>"
      and facts: "basket (w_db w1') = (basket (w_db w))((run_id rn, user_id us) \<mapsto> t)"
        "usual (w_db w1') = (if c then (usual (w_db w))((user_id us, run_channel_id rn) \<mapsto> t)
           else usual (w_db w))" "schema_ok (w_db w1')"
    have "w1' = w1" using run assms(5) by simp
    moreover have "runs (w_db w1') = runs (w_db w)" "users (w_db w1') = users (w_db w)"
      "runner_stats (w_db w1') = runner_stats (w_db w)"
      by (subst d, simp)+
    ultimately show ?thesis using facts by simp
  qed
  then show "runs (w_db w1) = runs (w_db w)" and "users (w_db w1) = users (w_db w)"
    and "schema_ok (w_db w1)"
    and "basket (w_db w1) = (basket (w_db w))((run_id rn, user_id us) \<mapsto> t)"
    and "usual (w_db w1) = (if c then (usual (w_db w))((user_id us, run_channel_id rn) \<mapsto> t)
           else usual (w_db w))"
    and "runner_stats (w_db w1) = runner_stats (w_db w)"
    by simp_all
qed

text \<open>
  Property C7. What a user confirms in one run is what \<open>use_last_order\<close> places in the next open run of
  the same channel: the call returns, and the user's basket entry of that run is the stripped text of
  the earlier submission. In particular the validator never rejects a text it accepted before.
\<close>

theorem confirmed_order_is_reusable:
  assumes ok: "schema_ok (w_db w)" and fresh: "fresh_draws 2 w"
    and submit: "submit_order v q w = (Inr s, w1)" and confirm: "req_confirm q"
    and rn: "get_open_run (Text (req_run_id q)) w = (Inr rn, w)"
    and rn2: "get_open_run (Text rid) w = (Inr rn2, w)" "run_channel_id rn2 = run_channel_id rn"
    and fresh1: "fresh_draws 2 w1"
  shows "\<exists>x w2 u. use_last_order v rid (req_user_id q) w1 = (Inr x, w2)
     \<and> as_uuid (Text (req_user_id q)) = Inr u
     \<and> basket (w_db w2) (run_id rn2, u) = Some (py_strip (req_order_text q))"
proof -
  let ?t = "py_strip (req_order_text q)"
  obtain us where us: "get_user (Text (req_user_id q)) w = (Inr us, w)"
    and valid: "validate v (req_order_text q) = Inr ?t"
    and run: "persist_order rn us ?t True (req_provenance q) w = (Inr s, w1)"
    using submit rn confirm by (auto simp: submit_order_Inr validate_Inr)
  have in0: "rn \<in> set (runs (w_db w))" "us \<in> set (users (w_db w))"
    using open_run_in [OF rn] user_in [OF us] by auto
  note facts = persist_order_facts [OF ok fresh in0 run]
  note same = facts(1,2) and ok1 = facts(3)
  have usual1: "usual (w_db w1) (user_id us, run_channel_id rn) = Some ?t"
    using facts(5) by simp
  have rn2': "get_open_run (Text rid) w1 = (Inr rn2, w1)" and us': "get_user (Text (req_user_id q)) w1 = (Inr us, w1)"
    using open_run_frame [OF rn2(1) same(1)] user_frame [OF us same(2)] .
  obtain p where p: "lookup_by pref_key (user_id us, run_channel_id rn2) (user_preferences (w_db w1)) = Some p"
    "pref_last_order_text p = ?t"
    using usual1 rn2(2) by (auto simp: usual_def)
  have valid': "validate v (pref_last_order_text p) = Inr ?t"
    using valid p(2) by (simp add: validate_Inr)
  have in1: "rn2 \<in> set (runs (w_db w1))" "us \<in> set (users (w_db w1))"
    using open_run_in [OF rn2'] user_in [OF us'] by auto
  obtain s2 w2 where run2: "persist_order rn2 us ?t True PREFERENCE w1 = (Inr s2, w2)"
    using persist_order_returns by blast
  have b2: "basket (w_db w2) = (basket (w_db w1))((run_id rn2, user_id us) \<mapsto> ?t)"
    by (rule persist_order_facts(4) [OF ok1 fresh1 in1 run2])
  have "use_last_order v rid (req_user_id q) w1
      = (Inr \<lparr>use_preference_id = uuid_str (pref_id p), use_submission = s2\<rparr>, touched p w2)"
    using rn2' us' p valid' run2 by (simp add: use_last_order_run)
  then show ?thesis
    using b2 user_in [OF us] by (auto simp: touched_view)
qed

theorem confirmed_order_is_reusable_witness:
  "\<exists>s w1 x w2. submit_order default_validator fx_request fx_world = (Inr s, w1)
     \<and> use_last_order default_validator (uuid_str 22) (uuid_str 1) w1 = (Inr x, w2)
     \<and> basket (w_db w2) (22, 1) = Some ''latte''"
proof -
  let ?u = "fx_user 1 ''Ann''" and ?r = "fx_run 20 OPEN None None"
  obtain s w1 where submit: "submit_order default_validator fx_request fx_world = (Inr s, w1)"
    using fx_submit by blast
  have rn: "get_open_run (Text (req_run_id fx_request)) fx_world = (Inr ?r, fx_world)"
    and rn2: "get_open_run (Text (uuid_str 22)) fx_world = (Inr (fx_run 22 OPEN None None), fx_world)"
    by (simp_all add: fx_order_simps)
  have run: "persist_order ?r ?u ''latte'' True MANUAL fx_world = (Inr s, w1)"
    using submit by (simp add: submit_order_run fx_order_simps)
  have "fresh_draws 2 w1"
    using run by (auto simp: persist_order_run upsert_order_def add_order_def set_preference_def op_simps
        fx_defs lookup_by_def order_key_def pref_key_def fresh_draws_def ids_in_use_def
        append_row_def upt_rec)
  from confirmed_order_is_reusable [OF fx_schema_ok fx_fresh_draws submit _ rn rn2 _ this]
  obtain x w2 where "use_last_order default_validator (uuid_str 22) (uuid_str 1) w1 = (Inr x, w2)"
    and "basket (w_db w2) (22, 1) = Some ''latte''"
    by (auto simp: fx_request_def fx_run_def py_strip_def strip_by_def py_isspace_def)
  with submit show ?thesis by blast
qed

end
