(* ===== verification/Fairness.thy ===== *)
theory Fairness
  imports Fixtures "HOL-Library.AList"
begin

text \<open>
  \<open>FairnessService\<close> (\<open>services/fairness/service.py\<close>): which participant of a run becomes its runner.
  The dict from user id to statistics row is an association list in insertion order, updated with
  \<open>AList.update\<close>, as Python's dict is. A row has always a creation time (the column is NOT NULL), so
  the two \<open>getattr\<close> defaults of the code are not taken.

  The abstract view is \<open>served\<close>, how often a user ran for a channel, and \<open>last_ran\<close>, when last. The
  theorems: the choice is fair and never back to back, what it does to the statistics, that the order
  of the rows does not matter, and that repeated choices share the work evenly.
\<close>

section \<open>FairnessDecision and FairnessService\<close>

record fairness_decision =
  dec_runner_user_id :: string
  dec_rationale :: string

definition unique_ordered :: "ident list \<Rightarrow> string list" where
  "unique_ordered identifiers =
     foldl (\<lambda>ordered i. if ident_str i \<in> set ordered then ordered else ordered @ [ident_str i]) [] identifiers"

type_synonym stats = "(string \<times> runner_stat) list"

fun uuids_of :: "string list \<Rightarrow> exn + uuid list" where
  "uuids_of [] = Inr []"
| "uuids_of (p # ps) = (case as_uuid (Text p) of Inl e \<Rightarrow> Inl e
     | Inr u \<Rightarrow> (case uuids_of ps of Inl e \<Rightarrow> Inl e | Inr us \<Rightarrow> Inr (u # us)))"

definition stats_of_rows :: "runner_stat list \<Rightarrow> stats" where
  "stats_of_rows rows = foldl (\<lambda>st s. AList.update (uuid_str (stat_user_id s)) s st) [] rows"

fun add_missing :: "uuid \<Rightarrow> string list \<Rightarrow> stats \<Rightarrow> (world, exn, stats) op" where
  "add_missing c [] st = returnE st"
| "add_missing c (p # ps) st =
     (if p \<in> fst ` set st then add_missing c ps st
      else bindE (the_uuid (Text p)) (\<lambda>u.
           bindE now (\<lambda>t.
           bindE new_uuid (\<lambda>i.
             let s = \<lparr>stat_id = i, stat_user_id = u, stat_channel_id = c, stat_runs_served_count = 0,
                      stat_last_run_at = None, stat_created_at = t, stat_updated_at = t\<rparr>
             in bindE (change (\<lambda>d. d\<lparr>runner_stats := append_row s (runner_stats d)\<rparr>)) (\<lambda>_.
                add_missing c ps (AList.update p s st))))))"

definition load_stats :: "uuid \<Rightarrow> string list \<Rightarrow> (world, exn, stats) op" where
  "load_stats c participants =
     bindE (liftE (uuids_of participants)) (\<lambda>us.
     bindE (query (\<lambda>d. filter (\<lambda>s. stat_channel_id s = c \<and> stat_user_id s \<in> set us) (runner_stats d)))
       (\<lambda>rows. add_missing c participants (stats_of_rows rows)))"

definition EPOCH :: time where "EPOCH = 0"

definition sort_key :: "runner_stat \<Rightarrow> int \<times> time \<times> time \<times> string" where
  "sort_key s = (stat_runs_served_count s,
     (case stat_last_run_at s of None \<Rightarrow> EPOCH | Some t \<Rightarrow> t),
     stat_created_at s, uuid_str (stat_user_id s))"

definition build_rationale :: "int \<Rightarrow> bool \<Rightarrow> string" where
  "build_rationale previous_count excluded_last_runner =
     (let base = ''Runner chosen by minimum recent runs served (count before assignment: ''
                 @ int_str previous_count
                 @ ''). Tie-breakers: earliest last_run_at then deterministic user id.''
      in if excluded_last_runner
         then base @ '' Previous runner excluded to avoid back-to-back assignments.''
         else base)"

text \<open>The guard of the exclusion, and the candidates that are left.\<close>

definition excludes_last :: "bool \<Rightarrow> string option \<Rightarrow> stats \<Rightarrow> bool" where
  "excludes_last allow last_runner st \<longleftrightarrow> \<not> allow \<and>
     (case last_runner of None \<Rightarrow> False
      | Some l \<Rightarrow> l \<noteq> [] \<and> l \<in> fst ` set st \<and> length st > 1)"

definition candidates :: "bool \<Rightarrow> string option \<Rightarrow> stats \<Rightarrow> runner_stat list" where
  "candidates allow last_runner st =
     (let every = map snd st;
          rest = (if excludes_last allow last_runner st
                  then filter (\<lambda>s. uuid_str (stat_user_id s) \<noteq> the last_runner) every else every)
      in if rest = [] then every else rest)"

definition assign_runner ::
  "ident \<Rightarrow> ident list \<Rightarrow> string option \<Rightarrow> bool \<Rightarrow> (world, exn, fairness_decision) op" where
  "assign_runner cid participant_user_ids last_runner allow =
     (let participants = unique_ordered participant_user_ids in
      if participants = [] then
        raiseE (RunCloseError (RunnerSelectionError
          ''No eligible participants to evaluate for runner assignment.''))
      else
        bindE (the_uuid cid) (\<lambda>c.
        bindE (load_stats c participants) (\<lambda>st.
        case py_min_by sort_key (candidates allow last_runner st) of
          None \<Rightarrow> raiseE ValueError
        | Some chosen \<Rightarrow>
            bindE now (\<lambda>t.
            let chosen' = chosen\<lparr>stat_runs_served_count := stat_runs_served_count chosen + 1,
                                 stat_last_run_at := Some t, stat_updated_at := t\<rparr>
            in bindE (change (\<lambda>d. d\<lparr>runner_stats := save_row stat_id chosen' (runner_stats d)\<rparr>)) (\<lambda>_.
               case map_of st (uuid_str (stat_user_id chosen)) of
                 None \<Rightarrow> raiseE KeyError
               | Some s0 \<Rightarrow> returnE \<lparr>dec_runner_user_id = uuid_str (stat_user_id chosen),
                   dec_rationale = build_rationale (stat_runs_served_count s0)
                     (excludes_last allow last_runner st)\<rparr>)))))"

interpretation stat_rows: upsert_table "lookup_by stat_key" append_row "save_row stat_id"
  stat_key "same_pk stat_id" "fresh_pk stat_id" "rows_ok stat_id stat_key"
  by (rule upsert_table_rows)

interpretation runner_choice: keyed_choice "py_min_by sort_key" sort_key
  by (rule keyed_choice_py_min)

section \<open>The abstract view\<close>

definition served :: "db \<Rightarrow> uuid \<Rightarrow> uuid \<Rightarrow> int" where
  "served d c u = (case lookup_by stat_key (u, c) (runner_stats d) of
     None \<Rightarrow> 0 | Some s \<Rightarrow> stat_runs_served_count s)"

definition last_ran :: "db \<Rightarrow> uuid \<Rightarrow> uuid \<Rightarrow> time option" where
  "last_ran d c u = (case lookup_by stat_key (u, c) (runner_stats d) of
     None \<Rightarrow> None | Some s \<Rightarrow> stat_last_run_at s)"

text \<open>Who may be chosen, over user identifiers.\<close>

definition eligible :: "bool \<Rightarrow> uuid option \<Rightarrow> uuid list \<Rightarrow> uuid set" where
  "eligible allow last_runner us =
     (case last_runner of None \<Rightarrow> set us
      | Some l \<Rightarrow> if \<not> allow \<and> l \<in> set us \<and> card (set us) > 1 then set us - {l} else set us)"

section \<open>Loading the statistics\<close>

lemma unique_ordered_from: "distinct acc \<Longrightarrow>
    set (foldl (\<lambda>ordered i. if ident_str i \<in> set ordered then ordered else ordered @ [ident_str i]) acc xs)
      = set acc \<union> ident_str ` set xs
    \<and> distinct (foldl (\<lambda>ordered i. if ident_str i \<in> set ordered then ordered else ordered @ [ident_str i]) acc xs)"
  by (induction xs arbitrary: acc) auto

lemma unique_ordered_set [simp]: "set (unique_ordered xs) = ident_str ` set xs"
  using unique_ordered_from [of "[]" xs] by (simp add: unique_ordered_def)

lemma unique_ordered_distinct [simp]: "distinct (unique_ordered xs)"
  using unique_ordered_from [of "[]" xs] by (simp add: unique_ordered_def)

lemma unique_ordered_uuids:
  "\<exists>us. unique_ordered (map (\<lambda>u. Text (uuid_str u)) us0) = map uuid_str us \<and> distinct us \<and> set us = set us0"
proof -
  let ?xs = "unique_ordered (map (\<lambda>u. Text (uuid_str u)) us0)"
  have sub: "set ?xs = uuid_str ` set us0" by (simp add: image_image)
  then have names: "?xs = map uuid_str (map (the \<circ> parse_uuid) ?xs)"
    by (auto simp: comp_def intro!: map_idI [symmetric])
  let ?us = "map (the \<circ> parse_uuid) ?xs"
  have "distinct (map uuid_str ?us)" using names unique_ordered_distinct by metis
  then have "distinct ?us" by (auto simp: distinct_map dest: inj_on_imageI2)
  moreover have "set ?us = set us0" using sub by (simp add: image_image comp_def)
  ultimately show ?thesis using names by blast
qed

lemma uuids_of_uuid_str [simp]: "uuids_of (map uuid_str us) = Inr us"
  by (induction us) auto

lemma update_new: "k \<notin> fst ` set st \<Longrightarrow> AList.update k v st = st @ [(k, v)]"
  by (induction st) auto

lemma stats_of_rows_from:
  assumes "distinct (map (\<lambda>s. uuid_str (stat_user_id s)) rows)"
    and "\<forall>s \<in> set rows. uuid_str (stat_user_id s) \<notin> fst ` set st"
  shows "foldl (\<lambda>st s. AList.update (uuid_str (stat_user_id s)) s st) st rows
       = st @ map (\<lambda>s. (uuid_str (stat_user_id s), s)) rows"
  using assms
proof (induction rows arbitrary: st)
  case Nil
  then show ?case by simp
next
  case (Cons s rows)
  have "AList.update (uuid_str (stat_user_id s)) s st = st @ [(uuid_str (stat_user_id s), s)]"
    using Cons.prems(2) by (simp add: update_new)
  moreover have "\<forall>s' \<in> set rows. uuid_str (stat_user_id s') \<notin> fst ` set (st @ [(uuid_str (stat_user_id s), s)])"
    using Cons.prems by (force simp: image_iff)
  ultimately show ?case using Cons.prems(1) Cons.IH by simp
qed


text \<open>The rows that \<open>add_missing\<close> creates, as a function of the clock and the identifier source.\<close>

fun new_stats :: "uuid \<Rightarrow> world \<Rightarrow> uuid list \<Rightarrow> runner_stat list" where
  "new_stats c w [] = []"
| "new_stats c w (u # us) =
     \<lparr>stat_id = w_uuids w (w_drawn w), stat_user_id = u, stat_channel_id = c,
      stat_runs_served_count = 0, stat_last_run_at = None, stat_created_at = w_clock w (w_ticks w),
      stat_updated_at = w_clock w (w_ticks w)\<rparr>
     # new_stats c (w\<lparr>w_ticks := Suc (w_ticks w), w_drawn := Suc (w_drawn w)\<rparr>) us"

lemma new_stats_cong:
  "w_clock w' = w_clock w \<Longrightarrow> w_ticks w' = w_ticks w \<Longrightarrow> w_uuids w' = w_uuids w \<Longrightarrow>
   w_drawn w' = w_drawn w \<Longrightarrow> new_stats c w' us = new_stats c w us"
proof (induction us arbitrary: w w')
  case Nil
  then show ?case by simp
next
  case (Cons u us)
  then show ?case
    using Cons.IH [where w = "w\<lparr>w_ticks := Suc (w_ticks w), w_drawn := Suc (w_drawn w)\<rparr>"
        and w' = "w'\<lparr>w_ticks := Suc (w_ticks w'), w_drawn := Suc (w_drawn w')\<rparr>"]
    by simp
qed

lemma new_stats_db [simp]: "new_stats c (w\<lparr>w_db := d\<rparr>) us = new_stats c w us"
  by (rule new_stats_cong) simp_all

lemma new_stats_tick_db [simp]:
  "new_stats c (w\<lparr>w_ticks := n, w_drawn := m, w_db := d\<rparr>) us = new_stats c (w\<lparr>w_ticks := n, w_drawn := m\<rparr>) us"
  by (rule new_stats_cong) simp_all

lemma new_stats_users [simp]: "map stat_user_id (new_stats c w us) = us"
  by (induction us arbitrary: w) simp_all

lemma new_stats_row: "s \<in> set (new_stats c w us) \<Longrightarrow>
    stat_channel_id s = c \<and> stat_runs_served_count s = 0 \<and> stat_last_run_at s = None \<and> stat_user_id s \<in> set us"
  by (induction us arbitrary: w) auto

lemma new_stats_keys [simp]: "map stat_key (new_stats c w us) = map (\<lambda>u. (u, c)) us"
  by (induction us arbitrary: w) (simp_all add: stat_key_def)

lemma new_stats_ids: "map stat_id (new_stats c w us) = map (w_uuids w) [w_drawn w ..< w_drawn w + length us]"
  by (induction us arbitrary: w) (simp_all add: upt_rec)

definition named :: "runner_stat list \<Rightarrow> stats" where
  "named rows = map (\<lambda>s. (uuid_str (stat_user_id s), s)) rows"

lemma named_simps [simp]:
  "named [] = []" "named (xs @ ys) = named xs @ named ys" "map snd (named rows) = rows"
  "fst ` set (named rows) = uuid_str ` stat_user_id ` set rows" "length (named rows) = length rows"
  by (simp_all add: named_def comp_def image_image)

lemma map_of_named:
  "distinct (map stat_user_id rows) \<Longrightarrow> s \<in> set rows \<Longrightarrow> map_of (named rows) (uuid_str (stat_user_id s)) = Some s"
  by (rule map_of_is_SomeI) (auto simp: named_def comp_def distinct_map inj_on_def)

lemma add_missing_run:
  assumes "distinct us"
  shows "add_missing c (map uuid_str us) (named rows) w
    = (let new = new_stats c w (filter (\<lambda>u. u \<notin> stat_user_id ` set rows) us)
       in (Inr (named (rows @ new)),
           w\<lparr>w_ticks := w_ticks w + length new, w_drawn := w_drawn w + length new,
             w_db := (w_db w)\<lparr>runner_stats := runner_stats (w_db w) @ new\<rparr>\<rparr>))"
  using assms
proof (induction us arbitrary: rows w)
  case Nil
  then show ?case by (simp add: op_simps)
next
  case (Cons u us)
  show ?case
  proof (cases "u \<in> stat_user_id ` set rows")
    case True
    then have "uuid_str u \<in> fst ` set (named rows)" by simp
    with True Cons show ?thesis by (simp del: named_simps(4))
  next
    case False
    let ?s = "\<lparr>stat_id = w_uuids w (w_drawn w), stat_user_id = u, stat_channel_id = c,
      stat_runs_served_count = 0, stat_last_run_at = None, stat_created_at = w_clock w (w_ticks w),
      stat_updated_at = w_clock w (w_ticks w)\<rparr>"
    let ?w = "w\<lparr>w_ticks := Suc (w_ticks w), w_drawn := Suc (w_drawn w),
      w_db := (w_db w)\<lparr>runner_stats := append_row ?s (runner_stats (w_db w))\<rparr>\<rparr>"
    have new: "uuid_str u \<notin> fst ` set (named rows)" using False by auto
    have "add_missing c (map uuid_str (u # us)) (named rows) w
        = add_missing c (map uuid_str us) (AList.update (uuid_str u) ?s (named rows)) ?w"
      using new by (simp add: op_simps del: named_simps(4))
    also have "AList.update (uuid_str u) ?s (named rows) = named (rows @ [?s])"
      using update_new [OF new] by (simp add: named_def)
    finally have step: "add_missing c (map uuid_str (u # us)) (named rows) w
        = add_missing c (map uuid_str us) (named (rows @ [?s])) ?w" .
    have rest: "filter (\<lambda>v. v \<notin> stat_user_id ` set (rows @ [?s])) us = filter (\<lambda>v. v \<notin> stat_user_id ` set rows) us"
      using Cons.prems by (auto intro!: filter_cong)
    show ?thesis
      unfolding step Cons.IH [OF distinct.simps(2) [THEN iffD1, OF Cons.prems, THEN conjunct2]] rest
      using False by (simp add: Let_def append_row_def)
  qed
qed


section \<open>The rows that are compared\<close>

definition rows_for :: "uuid \<Rightarrow> uuid list \<Rightarrow> db \<Rightarrow> runner_stat list" where
  "rows_for c us d = filter (\<lambda>s. stat_channel_id s = c \<and> stat_user_id s \<in> set us) (runner_stats d)"

definition missing :: "uuid \<Rightarrow> uuid list \<Rightarrow> db \<Rightarrow> uuid list" where
  "missing c us d = filter (\<lambda>u. u \<notin> stat_user_id ` set (rows_for c us d)) us"

definition compared :: "uuid \<Rightarrow> uuid list \<Rightarrow> world \<Rightarrow> runner_stat list" where
  "compared c us w = rows_for c us (w_db w) @ new_stats c w (missing c us (w_db w))"

definition after_load :: "uuid \<Rightarrow> uuid list \<Rightarrow> world \<Rightarrow> world" where
  "after_load c us w = (let new = new_stats c w (missing c us (w_db w)) in
     w\<lparr>w_ticks := w_ticks w + length new, w_drawn := w_drawn w + length new,
       w_db := (w_db w)\<lparr>runner_stats := runner_stats (w_db w) @ new\<rparr>\<rparr>)"

lemma new_stats_length [simp]: "length (new_stats c w us) = length us"
  by (metis new_stats_users length_map)

lemma rows_for_key: "s \<in> set (rows_for c us d) \<Longrightarrow> stat_key s = (stat_user_id s, c) \<and> s \<in> set (runner_stats d) \<and> stat_user_id s \<in> set us"
  by (auto simp: rows_for_def stat_key_def)

lemma distinct_rows_for:
  assumes "rows_ok stat_id stat_key (runner_stats d)"
  shows "distinct (map stat_user_id (rows_for c us d))"
proof -
  have "distinct (map stat_key (rows_for c us d))"
    using assms by (simp add: rows_ok_def rows_for_def distinct_map_filter)
  moreover have "map stat_key (rows_for c us d) = map (\<lambda>s. (stat_user_id s, c)) (rows_for c us d)"
    by (auto simp: rows_for_def stat_key_def)
  ultimately have "distinct (map (\<lambda>s. (stat_user_id s, c)) (rows_for c us d))" by simp
  then show ?thesis by (simp add: distinct_map inj_on_def)
qed

lemma load_stats_run:
  assumes "rows_ok stat_id stat_key (runner_stats (w_db w))" and "distinct us"
  shows "load_stats c (map uuid_str us) w = (Inr (named (compared c us w)), after_load c us w)"
proof -
  have "stats_of_rows (rows_for c us (w_db w)) = named (rows_for c us (w_db w))"
    using stats_of_rows_from [of "rows_for c us (w_db w)" "[]"] distinct_rows_for [OF assms(1), of c us]
    by (simp add: stats_of_rows_def named_def distinct_map inj_on_def)
  then show ?thesis
    using add_missing_run [OF assms(2), of c "rows_for c us (w_db w)" w]
    by (simp add: load_stats_def op_simps rows_for_def [symmetric] compared_def after_load_def missing_def)
qed

lemma compared_users:
  assumes "rows_ok stat_id stat_key (runner_stats (w_db w))" and "distinct us"
  shows "distinct (map stat_user_id (compared c us w))" and "stat_user_id ` set (compared c us w) = set us"
proof -
  have new: "stat_user_id ` set (new_stats c w vs) = set vs" for vs
    by (metis new_stats_users set_map)
  show "distinct (map stat_user_id (compared c us w))"
    using distinct_rows_for [OF assms(1)] assms(2) by (auto simp: compared_def missing_def)
  show "stat_user_id ` set (compared c us w) = set us"
    by (auto simp: compared_def image_Un new missing_def dest: rows_for_key)
qed

lemma compared_view:
  assumes "rows_ok stat_id stat_key (runner_stats (w_db w))" and "s \<in> set (compared c us w)"
  shows "served (w_db w) c (stat_user_id s) = stat_runs_served_count s"
    and "last_ran (w_db w) c (stat_user_id s) = stat_last_run_at s"
    and "stat_channel_id s = c"
proof -
  have "served (w_db w) c (stat_user_id s) = stat_runs_served_count s
      \<and> last_ran (w_db w) c (stat_user_id s) = stat_last_run_at s \<and> stat_channel_id s = c"
  proof (cases "s \<in> set (rows_for c us (w_db w))")
    case True
    then have "lookup_by stat_key (stat_user_id s, c) (runner_stats (w_db w)) = Some s"
      using assms(1) rows_for_key [OF True] lookup_by_in [of stat_key "runner_stats (w_db w)" s]
      by (simp add: rows_ok_def)
    with True show ?thesis by (simp add: served_def last_ran_def rows_for_def)
  next
    case False
    with assms(2) have new: "s \<in> set (new_stats c w (missing c us (w_db w)))"
      by (simp add: compared_def)
    note row = new_stats_row [OF new]
    then have "lookup_by stat_key (stat_user_id s, c) (runner_stats (w_db w)) = None"
      by (auto simp: lookup_by_None missing_def rows_for_def stat_key_def image_iff) metis
    with row show ?thesis by (simp add: served_def last_ran_def)
  qed
  then show "served (w_db w) c (stat_user_id s) = stat_runs_served_count s"
    and "last_ran (w_db w) c (stat_user_id s) = stat_last_run_at s" and "stat_channel_id s = c"
    by simp_all
qed

text \<open>The table after the load: unique keys, and one row for each of the users.\<close>

lemma after_load_rows:
  assumes ok: "rows_ok stat_id stat_key (runner_stats (w_db w))" and "distinct us"
    and fresh: "fresh_draws (length us + n) w"
  shows "rows_ok stat_id stat_key (runner_stats (w_db (after_load c us w)))"
    and "set (compared c us w) \<subseteq> set (runner_stats (w_db (after_load c us w)))"
proof -
  let ?ms = "missing c us (w_db w)"
  have len: "length ?ms \<le> length us" by (simp add: missing_def)
  then have "fresh_draws (length ?ms) w" by (intro fresh_draws_less [OF fresh]) simp
  then have ids: "distinct (map stat_id (new_stats c w ?ms))"
    "set (map stat_id (new_stats c w ?ms)) \<inter> set (map stat_id (runner_stats (w_db w))) = {}"
    by (auto simp only: new_stats_ids fresh_draws_def Let_def ids_in_use_def set_append)
  have keys: "stat_key ` set (runner_stats (w_db w)) \<inter> (\<lambda>u. (u, c)) ` set ?ms = {}"
    by (force simp: missing_def rows_for_def stat_key_def)
  have "distinct (map stat_key (new_stats c w ?ms))"
    using assms(2) by (simp add: distinct_map inj_on_def missing_def)
  moreover have "stat_key ` set (new_stats c w ?ms) = (\<lambda>u. (u, c)) ` set ?ms"
    by (metis new_stats_keys set_map)
  ultimately show "rows_ok stat_id stat_key (runner_stats (w_db (after_load c us w)))"
    using ok ids keys by (auto simp: rows_ok_def after_load_def Let_def)
  show "set (compared c us w) \<subseteq> set (runner_stats (w_db (after_load c us w)))"
    by (auto simp: compared_def after_load_def Let_def rows_for_def)
qed


section \<open>What assign_runner does\<close>

lemma candidates_named:
  assumes users: "distinct (map stat_user_id rows)" "stat_user_id ` set rows = set us" and "us \<noteq> []"
  shows "stat_user_id ` set (candidates allow (map_option uuid_str l) (named rows)) = eligible allow l us"
    and "set (candidates allow (map_option uuid_str l) (named rows)) \<subseteq> set rows"
    and "candidates allow (map_option uuid_str l) (named rows) \<noteq> []"
proof -
  have len: "length rows = card (set us)"
    using distinct_card [OF users(1)] users(2) by simp
  have sel: "map snd (named rows) = rows" by simp
  have nonempty: "rows \<noteq> []" using users(2) assms(3) by auto
  have sub: "stat_user_id ` set (candidates allow (map_option uuid_str l) (named rows)) = eligible allow l us
    \<and> candidates allow (map_option uuid_str l) (named rows) \<noteq> []"
  proof (cases l)
    case None
    then show ?thesis
      using users(2) nonempty by (simp add: candidates_def excludes_last_def eligible_def Let_def)
  next
    case (Some r)
    have guard: "excludes_last allow (Some (uuid_str r)) (named rows)
        \<longleftrightarrow> \<not> allow \<and> r \<in> set us \<and> card (set us) > 1"
      by (auto simp: excludes_last_def len users(2) [symmetric])
    have rest: "filter (\<lambda>s. uuid_str (stat_user_id s) \<noteq> uuid_str r) rows \<noteq> []"
      if "card (set us) > 1"
    proof
      assume "filter (\<lambda>s. uuid_str (stat_user_id s) \<noteq> uuid_str r) rows = []"
      then have "set us \<subseteq> {r}" using users(2) by (auto simp: filter_empty_conv)
      then have "card (set us) \<le> card {r}" by (rule card_mono [rotated]) simp
      with that show False by simp
    qed
    have diff: "stat_user_id ` {s \<in> set rows. stat_user_id s \<noteq> r} = set us - {r}"
      using users(2) by auto
    show ?thesis
      using Some guard rest users(2) nonempty diff
      by (auto simp: candidates_def eligible_def Let_def)
  qed
  then show "stat_user_id ` set (candidates allow (map_option uuid_str l) (named rows)) = eligible allow l us"
    and "candidates allow (map_option uuid_str l) (named rows) \<noteq> []"
    by simp_all
  show "set (candidates allow (map_option uuid_str l) (named rows)) \<subseteq> set rows"
    by (auto simp: candidates_def Let_def)
qed


lemma eligible_set: "set us = set us' \<Longrightarrow> eligible allow l us = eligible allow l us'"
  by (simp add: eligible_def split: option.splits)

definition bump :: "time \<Rightarrow> runner_stat \<Rightarrow> runner_stat" where
  "bump t s = s\<lparr>stat_runs_served_count := stat_runs_served_count s + 1, stat_last_run_at := Some t,
     stat_updated_at := t\<rparr>"

lemma bump_simps [simp]:
  "stat_id (bump t s) = stat_id s" "stat_user_id (bump t s) = stat_user_id s"
  "stat_channel_id (bump t s) = stat_channel_id s" "stat_key (bump t s) = stat_key s"
  "stat_runs_served_count (bump t s) = stat_runs_served_count s + 1"
  "stat_last_run_at (bump t s) = Some t"
  by (simp_all add: bump_def stat_key_def)

text \<open>The world after the choice of a row.\<close>

definition chosen_world :: "runner_stat \<Rightarrow> world \<Rightarrow> world" where
  "chosen_world s w = w\<lparr>w_ticks := Suc (w_ticks w),
     w_db := (w_db w)\<lparr>runner_stats := save_row stat_id (bump (w_clock w (w_ticks w)) s) (runner_stats (w_db w))\<rparr>\<rparr>"

abbreviation texts :: "uuid list \<Rightarrow> ident list" where
  "texts us \<equiv> map (\<lambda>u. Text (uuid_str u)) us"

lemma assign_runner_run:
  assumes "rows_ok stat_id stat_key (runner_stats (w_db w))" and "us0 \<noteq> []"
  obtains us s where "unique_ordered (texts us0) = map uuid_str us" and "distinct us" and "set us = set us0"
    and "py_min_by sort_key (candidates allow (map_option uuid_str l) (named (compared c us w))) = Some s"
    and "s \<in> set (compared c us w)" and "stat_user_id s \<in> eligible allow l us0"
    and "assign_runner (Text (uuid_str c)) (texts us0) (map_option uuid_str l) allow w
      = (Inr \<lparr>dec_runner_user_id = uuid_str (stat_user_id s),
           dec_rationale = build_rationale (stat_runs_served_count s)
             (excludes_last allow (map_option uuid_str l) (named (compared c us w)))\<rparr>,
         chosen_world s (after_load c us w))"
proof -
  obtain us where us: "unique_ordered (texts us0) = map uuid_str us" "distinct us" "set us = set us0"
    using unique_ordered_uuids by blast
  let ?rows = "compared c us w" and ?w = "after_load c us w"
  let ?cs = "candidates allow (map_option uuid_str l) (named ?rows)"
  have "us \<noteq> []" using us(3) assms(2) by auto
  note users = compared_users [OF assms(1) us(2), of c]
  note cs = candidates_named [OF users \<open>us \<noteq> []\<close>, of allow l]
  from runner_choice.pick_some [OF cs(3)] obtain s where s: "py_min_by sort_key ?cs = Some s" by blast
  from runner_choice.pick_in [OF s] have s_in: "s \<in> set ?cs" .
  then have row: "s \<in> set ?rows" using cs(2) by blast
  have "stat_user_id s \<in> eligible allow l us0"
    using s_in cs(1) eligible_set [OF us(3)] by blast
  moreover have "assign_runner (Text (uuid_str c)) (texts us0) (map_option uuid_str l) allow w
      = (Inr \<lparr>dec_runner_user_id = uuid_str (stat_user_id s),
           dec_rationale = build_rationale (stat_runs_served_count s)
             (excludes_last allow (map_option uuid_str l) (named ?rows))\<rparr>, chosen_world s ?w)"
    using us(1) \<open>us \<noteq> []\<close> load_stats_run [OF assms(1) us(2), of c] s map_of_named [OF users(1) row]
    by (simp add: assign_runner_def op_simps chosen_world_def bump_def)
  ultimately show ?thesis using that us s row by blast
qed

text \<open>
  The statistics after the call, through the abstract view. Only the chosen user's count and last run
  change, and only for this channel.
\<close>

lemma chosen_world_view:
  assumes ok: "rows_ok stat_id stat_key (runner_stats (w_db w))" and us: "distinct us"
    and fresh: "fresh_draws (length us + n) w" and row: "s \<in> set (compared c us w)"
  defines "w1 \<equiv> chosen_world s (after_load c us w)"
  shows "served (w_db w1) = (\<lambda>c' u. if c' = c \<and> u = stat_user_id s then served (w_db w) c' u + 1 else served (w_db w) c' u)"
    and "last_ran (w_db w1) = (\<lambda>c' u. if c' = c \<and> u = stat_user_id s
           then Some (w_clock w (w_ticks w1 - 1)) else last_ran (w_db w) c' u)"
    and "rows_ok stat_id stat_key (runner_stats (w_db w1))"
    and "set (map stat_key (runner_stats (w_db w1))) = (\<lambda>u. (u, c)) ` set us \<union> set (map stat_key (runner_stats (w_db w)))"
    and "w_db w1 = (w_db w)\<lparr>runner_stats := runner_stats (w_db w1)\<rparr>"
    and "w_clock w1 = w_clock w" and "w_ticks w < w_ticks w1"
    and "fresh_draws n w1"
proof -
  let ?w = "after_load c us w" and ?ms = "missing c us (w_db w)"
  let ?t = "w_clock w (w_ticks ?w)" and ?d = "w_db ?w"
  have clock: "w_clock ?w = w_clock w" by (simp add: after_load_def Let_def)
  note rows = after_load_rows [OF ok us fresh, of c]
  have s_in: "s \<in> set (runner_stats ?d)" using row rows(2) by blast
  have dist: "distinct (map stat_id (runner_stats ?d))" "distinct (map stat_key (runner_stats ?d))"
    using rows(1) by (auto simp: rows_ok_def)
  have key: "stat_key s = (stat_user_id s, c)"
    using compared_view(3) [OF ok row] by (simp add: stat_key_def)
  have found: "lookup_by stat_key (stat_key s) (runner_stats ?d) = Some s"
    using dist(2) s_in by (rule lookup_by_in)
  have same: "same_pk stat_id (bump ?t s) s" by (simp add: same_pk_def)
  have look: "lookup_by stat_key k (runner_stats (w_db w1)) =
      (if k = stat_key s then Some (bump ?t s) else lookup_by stat_key k (runner_stats ?d))" for k
    using stat_rows.look_upd [OF rows(1) _ same, of k] found clock
    by (simp add: w1_def chosen_world_def)
  have load: "case_option 0 stat_runs_served_count (lookup_by stat_key (u, c') (runner_stats ?d)) = served (w_db w) c' u
      \<and> case_option None stat_last_run_at (lookup_by stat_key (u, c') (runner_stats ?d)) = last_ran (w_db w) c' u"
    for c' u
    by (auto simp: after_load_def Let_def lookup_by_append served_def last_ran_def
        dest!: lookup_by_Some new_stats_row split: option.splits)
  have mine: "served (w_db w) c (stat_user_id s) = stat_runs_served_count s"
    by (rule compared_view(1) [OF ok row])
  show "served (w_db w1) = (\<lambda>c' u. if c' = c \<and> u = stat_user_id s then served (w_db w) c' u + 1 else served (w_db w) c' u)"
    using load mine key by (auto simp: fun_eq_iff served_def [of "w_db w1"] look)
  have ticks: "w_ticks w1 = Suc (w_ticks ?w)" by (simp add: w1_def chosen_world_def)
  show "last_ran (w_db w1) = (\<lambda>c' u. if c' = c \<and> u = stat_user_id s
           then Some (w_clock w (w_ticks w1 - 1)) else last_ran (w_db w) c' u)"
    using load key ticks by (auto simp: fun_eq_iff last_ran_def [of "w_db w1"] look)
  show "rows_ok stat_id stat_key (runner_stats (w_db w1))"
    using stat_rows.inv_upd [OF rows(1) _ same] found clock
    by (simp add: w1_def chosen_world_def)
  have "map stat_key (runner_stats (w_db w1)) = map stat_key (runner_stats ?d)"
    using map_save_row_key [OF dist(1) s_in, of "bump ?t s" stat_key] clock
    by (simp add: w1_def chosen_world_def)
  moreover have "set (map stat_key (runner_stats ?d)) = (\<lambda>u. (u, c)) ` set us \<union> set (map stat_key (runner_stats (w_db w)))"
  proof -
    have "map stat_key (runner_stats ?d) = map stat_key (runner_stats (w_db w)) @ map (\<lambda>u. (u, c)) ?ms"
      by (simp add: after_load_def Let_def)
    then have "set (map stat_key (runner_stats ?d)) = stat_key ` set (runner_stats (w_db w)) \<union> (\<lambda>u. (u, c)) ` set ?ms"
      by (metis set_append set_map)
    moreover have "(\<lambda>u. (u, c)) ` set us \<subseteq> (\<lambda>u. (u, c)) ` set ?ms \<union> stat_key ` set (runner_stats (w_db w))"
      by (force simp: missing_def rows_for_def stat_key_def)
    moreover have "set ?ms \<subseteq> set us" by (auto simp: missing_def)
    ultimately show ?thesis by auto
  qed
  ultimately show "set (map stat_key (runner_stats (w_db w1))) = (\<lambda>u. (u, c)) ` set us \<union> set (map stat_key (runner_stats (w_db w)))"
    by simp
  show "w_db w1 = (w_db w)\<lparr>runner_stats := runner_stats (w_db w1)\<rparr>" "w_clock w1 = w_clock w"
    "w_ticks w < w_ticks w1"
    by (simp_all add: w1_def chosen_world_def after_load_def Let_def)
  show "fresh_draws n w1"
  proof (rule fresh_draws_advance [OF fresh])
    show "w_drawn w1 = w_drawn w + length ?ms" "w_uuids w1 = w_uuids w" "length ?ms \<le> length us"
      by (simp_all add: w1_def chosen_world_def after_load_def Let_def missing_def)
    have "map stat_id (runner_stats (w_db w1)) = map stat_id (runner_stats ?d)"
      using map_save_row_key [OF dist(1) s_in, of "bump ?t s" stat_id] clock
      by (simp add: w1_def chosen_world_def)
    also have "\<dots> = map stat_id (runner_stats (w_db w)) @ map (w_uuids w) [w_drawn w ..< w_drawn w + length ?ms]"
      by (simp add: after_load_def Let_def new_stats_ids)
    finally have ids: "stat_id ` set (runner_stats (w_db w1))
        = stat_id ` set (runner_stats (w_db w)) \<union> w_uuids w ` {w_drawn w ..< w_drawn w + length ?ms}"
      by (metis set_append set_map set_upt)
    have "orders (w_db w1) = orders (w_db w)" "runs (w_db w1) = runs (w_db w)"
      "user_preferences (w_db w1) = user_preferences (w_db w)"
      by (simp_all add: w1_def chosen_world_def after_load_def Let_def)
    then show "set (ids_in_use (w_db w1))
        \<subseteq> set (ids_in_use (w_db w)) \<union> w_uuids w ` {w_drawn w ..< w_drawn w + length ?ms}"
      using ids by (auto simp: ids_in_use_def)
  qed
qed


section \<open>Properties of the choice\<close>

definition precedence :: "db \<Rightarrow> uuid \<Rightarrow> uuid \<Rightarrow> int \<times> time" where
  "precedence d c u = (served d c u, case last_ran d c u of None \<Rightarrow> EPOCH | Some t \<Rightarrow> t)"

lemma sort_key_precedence:
  assumes "rows_ok stat_id stat_key (runner_stats (w_db w))"
    and "s \<in> set (compared c us w)" and "s' \<in> set (compared c us w)" and "sort_key s \<le> sort_key s'"
  shows "precedence (w_db w) c (stat_user_id s) \<le> precedence (w_db w) c (stat_user_id s')"
  using assms(4) compared_view [OF assms(1,2)] compared_view [OF assms(1,3)]
  by (auto simp: precedence_def sort_key_def less_eq_prod_def less_prod_def split: option.splits)

lemma assign_runner_precedence:
  assumes ok: "rows_ok stat_id stat_key (runner_stats (w_db w))" and us0: "us0 \<noteq> []"
  obtains us s where "distinct us" and "set us = set us0" and "s \<in> set (compared c us w)"
    and "assign_runner (Text (uuid_str c)) (texts us0) (map_option uuid_str l) allow w
      = (Inr \<lparr>dec_runner_user_id = uuid_str (stat_user_id s),
           dec_rationale = build_rationale (stat_runs_served_count s)
             (excludes_last allow (map_option uuid_str l) (named (compared c us w)))\<rparr>,
         chosen_world s (after_load c us w))"
    and "stat_user_id s \<in> eligible allow l us0"
    and "\<forall>v \<in> eligible allow l us0. precedence (w_db w) c (stat_user_id s) \<le> precedence (w_db w) c v"
proof (rule assign_runner_run [OF ok us0, of allow l c])
  fix us s
  let ?cs = "candidates allow (map_option uuid_str l) (named (compared c us w))"
  assume us: "distinct us" "set us = set us0" and s: "py_min_by sort_key ?cs = Some s"
    and row: "s \<in> set (compared c us w)"
    and rest: "stat_user_id s \<in> eligible allow l us0"
      "assign_runner (Text (uuid_str c)) (texts us0) (map_option uuid_str l) allow w
      = (Inr \<lparr>dec_runner_user_id = uuid_str (stat_user_id s),
           dec_rationale = build_rationale (stat_runs_served_count s)
             (excludes_last allow (map_option uuid_str l) (named (compared c us w)))\<rparr>,
         chosen_world s (after_load c us w))"
  have "us \<noteq> []" using us us0 by auto
  note cs = candidates_named [OF compared_users [OF ok us(1), of c] this, of allow l]
  have least: "precedence (w_db w) c (stat_user_id s) \<le> precedence (w_db w) c v"
    if v: "v \<in> eligible allow l us0" for v
  proof -
    obtain s' where s': "s' \<in> set ?cs" "stat_user_id s' = v"
      using v cs(1) eligible_set [OF us(2), of allow l] by (metis imageE)
    have "sort_key s \<le> sort_key s'" by (rule runner_choice.pick_least [OF s s'(1)])
    then show ?thesis
      using sort_key_precedence [OF ok row _ , of s'] cs(2) s' by blast
  qed
  show thesis
    by (rule that [OF us row rest(2,1)]) (use least in blast)
qed

text \<open>
  Property C8. For a run with participants the choice returns, the runner is an eligible participant,
  and nobody who is eligible has run less often for the channel; among those who have run equally
  often, nobody's last run is longer ago. A participant without statistics counts as zero runs.
\<close>

theorem assign_runner_fair:
  assumes "rows_ok stat_id stat_key (runner_stats (w_db w))" and "us \<noteq> []"
  shows "\<exists>dec r w'. assign_runner (Text (uuid_str c)) (texts us) (map_option uuid_str l) allow w = (Inr dec, w')
     \<and> dec_runner_user_id dec = uuid_str r \<and> r \<in> eligible allow l us
     \<and> (\<forall>v \<in> eligible allow l us. served (w_db w) c r < served (w_db w) c v
          \<or> served (w_db w) c r = served (w_db w) c v
            \<and> case_option EPOCH id (last_ran (w_db w) c r) \<le> case_option EPOCH id (last_ran (w_db w) c v))"
proof (rule assign_runner_precedence [OF assms, of c l allow])
  fix us' and s :: runner_stat
  let ?dec = "\<lparr>dec_runner_user_id = uuid_str (stat_user_id s),
    dec_rationale = build_rationale (stat_runs_served_count s)
      (excludes_last allow (map_option uuid_str l) (named (compared c us' w)))\<rparr>"
  assume "assign_runner (Text (uuid_str c)) (texts us) (map_option uuid_str l) allow w
      = (Inr ?dec, chosen_world s (after_load c us' w))"
    and "stat_user_id s \<in> eligible allow l us"
    and least: "\<forall>v \<in> eligible allow l us. precedence (w_db w) c (stat_user_id s) \<le> precedence (w_db w) c v"
  moreover have "served (w_db w) c (stat_user_id s) < served (w_db w) c v
      \<or> served (w_db w) c (stat_user_id s) = served (w_db w) c v
        \<and> case_option EPOCH id (last_ran (w_db w) c (stat_user_id s)) \<le> case_option EPOCH id (last_ran (w_db w) c v)"
    if "v \<in> eligible allow l us" for v
    using bspec [OF least that]
    by (auto simp: precedence_def less_eq_prod_def less_prod_def split: option.splits)
  ultimately show ?thesis
    by (intro exI [of _ ?dec] exI [of _ "stat_user_id s"] exI [of _ "chosen_world s (after_load c us' w)"]) simp
qed

lemma fx_stats_ok: "rows_ok stat_id stat_key (runner_stats (w_db fx_world))"
  using fx_schema_ok by (simp add: schema_defs)

theorem assign_runner_fair_witness:
  "\<exists>dec w'. assign_runner (Text (uuid_str 10)) (texts [2, 3]) (map_option uuid_str (Some 3)) True fx_world = (Inr dec, w')
     \<and> dec_runner_user_id dec = uuid_str 3"
proof -
  have "\<exists>dec r w'. assign_runner (Text (uuid_str 10)) (texts [2, 3]) (map_option uuid_str (Some 3)) True fx_world = (Inr dec, w')
     \<and> dec_runner_user_id dec = uuid_str r \<and> r \<in> eligible True (Some 3) [2, 3]
     \<and> (\<forall>v \<in> eligible True (Some 3) [2, 3]. served (w_db fx_world) 10 r < served (w_db fx_world) 10 v
          \<or> served (w_db fx_world) 10 r = served (w_db fx_world) 10 v
            \<and> case_option EPOCH id (last_ran (w_db fx_world) 10 r) \<le> case_option EPOCH id (last_ran (w_db fx_world) 10 v))"
    by (rule assign_runner_fair [OF fx_stats_ok]) simp
  then show ?thesis
    by (auto simp: eligible_def served_def fx_defs lookup_by_def stat_key_def)
qed


text \<open>
  Property C9. What a choice does to the data: the chosen participant's count goes up by one and the
  last run is a reading of the clock during the call; nobody else's count or last run changes, in this
  channel or in another; every participant has a statistics row afterwards; keys stay unique; no other
  table is touched.
\<close>

theorem assign_runner_effect:
  assumes ok: "rows_ok stat_id stat_key (runner_stats (w_db w))" and us: "us \<noteq> []"
    and fresh: "fresh_draws (length us) w"
    and run: "assign_runner (Text (uuid_str c)) (texts us) (map_option uuid_str l) allow w = (Inr dec, w')"
  shows "\<exists>r k. dec_runner_user_id dec = uuid_str r \<and> r \<in> set us \<and> w_ticks w \<le> k \<and> k < w_ticks w'
     \<and> served (w_db w') = (\<lambda>c' u. if c' = c \<and> u = r then served (w_db w) c' u + 1 else served (w_db w) c' u)
     \<and> last_ran (w_db w') = (\<lambda>c' u. if c' = c \<and> u = r then Some (w_clock w k) else last_ran (w_db w) c' u)
     \<and> set (map stat_key (runner_stats (w_db w'))) = (\<lambda>u. (u, c)) ` set us \<union> set (map stat_key (runner_stats (w_db w)))
     \<and> rows_ok stat_id stat_key (runner_stats (w_db w'))
     \<and> w_db w' = (w_db w)\<lparr>runner_stats := runner_stats (w_db w')\<rparr>"
proof (rule assign_runner_precedence [OF ok us, of c l allow])
  fix us' and s :: runner_stat
  assume us': "distinct us'" "set us' = set us" and row: "s \<in> set (compared c us' w)"
    and run': "assign_runner (Text (uuid_str c)) (texts us) (map_option uuid_str l) allow w
      = (Inr \<lparr>dec_runner_user_id = uuid_str (stat_user_id s),
           dec_rationale = build_rationale (stat_runs_served_count s)
             (excludes_last allow (map_option uuid_str l) (named (compared c us' w)))\<rparr>,
         chosen_world s (after_load c us' w))"
  have "length us' \<le> length us"
    using us' by (metis card_length distinct_card)
  then have fresh': "fresh_draws (length us' + 0) w"
    using fresh_draws_less [OF fresh] by simp
  have "stat_user_id s \<in> set us"
    using compared_users(2) [OF ok us'(1), of c] row us'(2) by blast
  moreover have "w' = chosen_world s (after_load c us' w)" "dec_runner_user_id dec = uuid_str (stat_user_id s)"
    using run run' by auto
  ultimately show ?thesis
    using chosen_world_view(1-5,7) [OF ok us'(1) fresh' row] us'(2)
    by (intro exI [of _ "stat_user_id s"] exI [of _ "w_ticks w' - 1"]) auto
qed

theorem assign_runner_effect_witness:
  "\<exists>dec w' r. assign_runner (Text (uuid_str 10)) (texts [2]) (map_option uuid_str None) False fx_world = (Inr dec, w')
     \<and> served (w_db w') 10 2 = 2 \<and> r = (2::uuid)"
proof -
  from assign_runner_run [OF fx_stats_ok, of "[2]" False None 10] obtain dec w' where
    run: "assign_runner (Text (uuid_str 10)) (texts [2]) (map_option uuid_str None) False fx_world = (Inr dec, w')"
    by blast
  have "fresh_draws (length [2::uuid]) fx_world"
    by (rule fresh_draws_less [OF fx_fresh_draws]) simp
  from assign_runner_effect [OF fx_stats_ok _ this run] obtain r where
    "r \<in> set [2::uuid]" "served (w_db w') = (\<lambda>c' u. if c' = 10 \<and> u = r then served (w_db fx_world) c' u + 1
       else served (w_db fx_world) c' u)"
    by blast
  then have "served (w_db w') 10 2 = served (w_db fx_world) 10 2 + 1" by simp
  then show ?thesis
    using run by (simp add: served_def fx_defs lookup_by_def stat_key_def)
qed

text \<open>
  Property C10. No back-to-back assignment: unless the caller allows it, the previous runner of a run
  they take part in is chosen again exactly when there is no other participant.
\<close>

theorem assign_runner_repeats:
  assumes ok: "rows_ok stat_id stat_key (runner_stats (w_db w))" and us: "l \<in> set us"
    and run: "assign_runner (Text (uuid_str c)) (texts us) (Some (uuid_str l)) False w = (Inr dec, w')"
  shows "dec_runner_user_id dec = uuid_str l \<longleftrightarrow> set us = {l}"
proof -
  have ne: "us \<noteq> []" using us by auto
  show ?thesis
  proof (rule assign_runner_precedence [OF ok ne, of c "Some l" False])
    fix us' and s :: runner_stat
    assume "assign_runner (Text (uuid_str c)) (texts us) (map_option uuid_str (Some l)) False w
      = (Inr \<lparr>dec_runner_user_id = uuid_str (stat_user_id s),
           dec_rationale = build_rationale (stat_runs_served_count s)
             (excludes_last False (map_option uuid_str (Some l)) (named (compared c us' w)))\<rparr>,
         chosen_world s (after_load c us' w))"
      and el: "stat_user_id s \<in> eligible False (Some l) us"
    then have dec: "dec_runner_user_id dec = uuid_str (stat_user_id s)" using run by simp
    have "card (set us) > 1 \<longleftrightarrow> set us \<noteq> {l}"
    proof
      assume "set us \<noteq> {l}"
      then have "{l} \<subset> set us" using us by auto
      then have "card {l} < card (set us)" by (rule psubset_card_mono [rotated]) simp
      then show "card (set us) > 1" by simp
    qed auto
    then show ?thesis
      using dec el us by (auto simp: eligible_def split: if_splits)
  qed
qed

theorem assign_runner_repeats_witness:
  "\<exists>dec w'. assign_runner (Text (uuid_str 10)) (texts [2, 3]) (Some (uuid_str 2)) False fx_world = (Inr dec, w')
     \<and> dec_runner_user_id dec \<noteq> uuid_str 2"
proof -
  from assign_runner_run [OF fx_stats_ok, of "[2, 3]" False "Some 2" 10] obtain dec w' where
    run: "assign_runner (Text (uuid_str 10)) (texts [2, 3]) (Some (uuid_str 2)) False fx_world = (Inr dec, w')"
    by (metis list.discI option.simps(9))
  have "dec_runner_user_id dec = uuid_str 2 \<longleftrightarrow> set [2, 3] = {2::uuid}"
    by (rule assign_runner_repeats [OF fx_stats_ok _ run]) simp
  with run show ?thesis by auto
qed

text \<open>The last component of the sort key tells the users apart, so that the order of the rows does not matter.\<close>

lemma assign_runner_any_row_order:
  assumes ok: "rows_ok stat_id stat_key (runner_stats (w_db w))" and us0: "us \<noteq> []"
    and perm: "mset rows = mset (runner_stats (w_db w))"
  shows "fst (assign_runner (Text (uuid_str c)) (texts us) (map_option uuid_str l) allow
             (w\<lparr>w_db := (w_db w)\<lparr>runner_stats := rows\<rparr>\<rparr>))
       = fst (assign_runner (Text (uuid_str c)) (texts us) (map_option uuid_str l) allow w)"
proof -
  let ?w = "w\<lparr>w_db := (w_db w)\<lparr>runner_stats := rows\<rparr>\<rparr>"
  have same: "set rows = set (runner_stats (w_db w))" using perm by (metis set_mset_mset)
  have ok': "rows_ok stat_id stat_key (runner_stats (w_db ?w))"
    using ok perm by (simp add: rows_ok_def) (metis mset_eq_imp_distinct_iff mset_map)
  show ?thesis
  proof (rule assign_runner_run [OF ok us0, of allow l c], rule assign_runner_run [OF ok' us0, of allow l c])
    fix vs s vs' s'
    let ?cs = "candidates allow (map_option uuid_str l) (named (compared c vs w))"
      and ?cs' = "candidates allow (map_option uuid_str l) (named (compared c vs ?w))"
    assume vs: "unique_ordered (texts us) = map uuid_str vs" "distinct vs"
      "unique_ordered (texts us) = map uuid_str vs'"
      and s: "py_min_by sort_key ?cs = Some s"
      and s': "py_min_by sort_key (candidates allow (map_option uuid_str l) (named (compared c vs' ?w))) = Some s'"
      and run: "assign_runner (Text (uuid_str c)) (texts us) (map_option uuid_str l) allow w
      = (Inr \<lparr>dec_runner_user_id = uuid_str (stat_user_id s),
           dec_rationale = build_rationale (stat_runs_served_count s)
             (excludes_last allow (map_option uuid_str l) (named (compared c vs w)))\<rparr>,
         chosen_world s (after_load c vs w))"
      and run': "assign_runner (Text (uuid_str c)) (texts us) (map_option uuid_str l) allow ?w
      = (Inr \<lparr>dec_runner_user_id = uuid_str (stat_user_id s'),
           dec_rationale = build_rationale (stat_runs_served_count s')
             (excludes_last allow (map_option uuid_str l) (named (compared c vs' ?w)))\<rparr>,
         chosen_world s' (after_load c vs' ?w))"
    have vs': "vs' = vs" using vs(1,3) by (auto dest: map_injective simp: inj_def)
    have rows: "set (compared c vs ?w) = set (compared c vs w)"
      using same by (simp add: compared_def rows_for_def missing_def)
    have users: "distinct (map stat_user_id (compared c vs w))" "distinct (map stat_user_id (compared c vs ?w))"
      using compared_users [OF ok vs(2)] compared_users [OF ok' vs(2)] by auto
    have len: "length (compared c vs ?w) = length (compared c vs w)"
      using users rows by (metis distinct_card distinct_map)
    have ex: "excludes_last allow (map_option uuid_str l) (named (compared c vs ?w))
        = excludes_last allow (map_option uuid_str l) (named (compared c vs w))"
      using rows len by (simp add: excludes_last_def split: option.splits)
    have cs: "set ?cs = set ?cs'"
    proof -
      have "filter P (compared c vs ?w) = [] \<longleftrightarrow> filter P (compared c vs w) = []" for P
        using rows by (simp add: filter_empty_conv)
      moreover have "compared c vs ?w = [] \<longleftrightarrow> compared c vs w = []" using rows by (metis set_empty)
      ultimately show ?thesis using rows ex by (auto simp: candidates_def Let_def)
    qed
    have "inj_on sort_key (set (compared c vs w))"
      using users(1) by (auto simp: sort_key_def distinct_map inj_on_def)
    moreover have "set ?cs \<subseteq> set (compared c vs w)"
      by (auto simp: candidates_def Let_def)
    ultimately have "inj_on sort_key (set ?cs)" by (rule inj_on_subset)
    from runner_choice.pick_same_set [OF cs this] s s' have "s' = s" by (simp add: vs')
    then show ?thesis using run run' ex by (simp add: vs')
  qed
qed

definition fx_two_stats :: world where
  "fx_two_stats = fx_world\<lparr>w_db := fx_db\<lparr>runner_stats := [fx_stat 50 2 1 (Some 500), fx_stat 51 3 1 (Some 500)]\<rparr>\<rparr>"

section \<open>Ties\<close>

lemma excludes_named:
  assumes users: "distinct (map stat_user_id rows)" "stat_user_id ` set rows = set us"
  shows "excludes_last allow (map_option uuid_str l) (named rows) \<longleftrightarrow> eligible allow l us \<noteq> set us"
proof -
  have "length rows = card (set us)" using distinct_card [OF users(1)] users(2) by simp
  then show ?thesis
    by (cases l) (auto simp: excludes_last_def eligible_def users(2) [symmetric])
qed

lemma compared_row:
  assumes "lookup_by stat_key (v, c) (runner_stats (w_db w)) = Some sv" and "v \<in> set us"
  shows "sv \<in> set (compared c us w)" and "stat_user_id sv = v"
  using lookup_by_Some [OF assms(1)] assms(2) by (auto simp: compared_def rows_for_def stat_key_def)

text \<open>The rationale of a choice, and who wins among those who have run equally often and equally long ago.\<close>

definition rationale_text :: "int \<Rightarrow> bool \<Rightarrow> string" where
  "rationale_text n excluded = ''Runner chosen by minimum recent runs served (count before assignment: '' @ int_str n
     @ ''). Tie-breakers: earliest last_run_at then deterministic user id.''
     @ (if excluded then '' Previous runner excluded to avoid back-to-back assignments.'' else [])"

lemma assign_runner_tie_break:
  assumes ok: "rows_ok stat_id stat_key (runner_stats (w_db w))" and us: "us \<noteq> []"
  shows "\<exists>dec r w'. assign_runner (Text (uuid_str c)) (texts us) (map_option uuid_str l) allow w = (Inr dec, w')
     \<and> dec_runner_user_id dec = uuid_str r \<and> r \<in> eligible allow l us
     \<and> dec_rationale dec = rationale_text (served (w_db w) c r) (eligible allow l us \<noteq> set us)
     \<and> (\<forall>v \<in> eligible allow l us. \<forall>sr sv. lookup_by stat_key (r, c) (runner_stats (w_db w)) = Some sr
          \<longrightarrow> lookup_by stat_key (v, c) (runner_stats (w_db w)) = Some sv
          \<longrightarrow> stat_runs_served_count sr = stat_runs_served_count sv
          \<longrightarrow> case_option EPOCH id (stat_last_run_at sr) = case_option EPOCH id (stat_last_run_at sv)
          \<longrightarrow> stat_created_at sr < stat_created_at sv
            \<or> stat_created_at sr = stat_created_at sv \<and> uuid_str r \<le> uuid_str v)"
proof (rule assign_runner_run [OF ok us, of allow l c])
  fix vs s
  let ?cs = "candidates allow (map_option uuid_str l) (named (compared c vs w))"
  let ?ex = "excludes_last allow (map_option uuid_str l) (named (compared c vs w))"
  assume vs: "distinct vs" "set vs = set us" and s: "py_min_by sort_key ?cs = Some s"
    and row: "s \<in> set (compared c vs w)" and el: "stat_user_id s \<in> eligible allow l us"
    and run: "assign_runner (Text (uuid_str c)) (texts us) (map_option uuid_str l) allow w
      = (Inr \<lparr>dec_runner_user_id = uuid_str (stat_user_id s),
           dec_rationale = build_rationale (stat_runs_served_count s) ?ex\<rparr>, chosen_world s (after_load c vs w))"
  have ne: "vs \<noteq> []" using vs us by auto
  note users = compared_users [OF ok vs(1), of c]
  note cs = candidates_named [OF users ne, of allow l]
  have same: "eligible allow l vs = eligible allow l us" by (rule eligible_set [OF vs(2)])
  have only: "sv = x" if "sv \<in> set (compared c vs w)" "x \<in> set (compared c vs w)" "stat_user_id sv = stat_user_id x" for sv x
    using distinct_map_eq [OF users(1)] that by blast
  have ties: "stat_created_at sr < stat_created_at sv
            \<or> stat_created_at sr = stat_created_at sv \<and> uuid_str (stat_user_id s) \<le> uuid_str v"
    if v: "v \<in> eligible allow l us" and sr: "lookup_by stat_key (stat_user_id s, c) (runner_stats (w_db w)) = Some sr"
      and sv: "lookup_by stat_key (v, c) (runner_stats (w_db w)) = Some sv"
      and tie: "stat_runs_served_count sr = stat_runs_served_count sv"
        "case_option EPOCH id (stat_last_run_at sr) = case_option EPOCH id (stat_last_run_at sv)" for v sr sv
  proof -
    have in_vs: "stat_user_id s \<in> set vs" "v \<in> set vs"
      using el v vs(2) by (auto simp: eligible_def split: option.splits if_splits)
    have s_row: "s = sr" by (rule only [OF row compared_row(1) [OF sr in_vs(1)]]) (simp add: compared_row(2) [OF sr in_vs(1)])
    obtain x where x: "x \<in> set ?cs" "stat_user_id x = v" using v cs(1) same by (metis imageE)
    then have "sv = x"
      using only [OF compared_row(1) [OF sv in_vs(2)], of x] cs(2) compared_row(2) [OF sv in_vs(2)] by blast
    then have "sort_key sr \<le> sort_key sv" using runner_choice.pick_least [OF s x(1)] s_row by simp
    then show ?thesis
      using tie s_row \<open>sv = x\<close> x(2)
      by (auto simp: sort_key_def less_eq_prod_def less_prod_def id_def split: option.splits)
  qed
  have "?ex \<longleftrightarrow> eligible allow l us \<noteq> set us"
    using excludes_named [OF users, of allow l] same vs(2) by simp
  then have says: "build_rationale (stat_runs_served_count s) ?ex
      = rationale_text (served (w_db w) c (stat_user_id s)) (eligible allow l us \<noteq> set us)"
    using compared_view(1) [OF ok row] by (simp add: build_rationale_def rationale_text_def Let_def)
  show ?thesis
    by (rule exI, rule exI [of _ "stat_user_id s"], rule exI, intro conjI, rule run)
      (use el says ties in simp_all)
qed

text \<open>
  Property C11. Ties are broken by the data, not by the order of the rows. The database may return the statistics
  rows in any order: the runner and the rationale are the same. And among all who are eligible and have run equally often and
  equally long ago, the one whose statistics row is oldest is chosen, whatever the ids are; only for rows of the same
  age the smaller id decides. The rationale tells it otherwise: its text names the count, the last run and the user id,
  and not the age of the row; it adds that the previous runner was excluded exactly when the choice was narrowed.
\<close>

theorem assign_runner_ties:
  assumes "rows_ok stat_id stat_key (runner_stats (w_db w))" and "us \<noteq> []"
  shows "(\<forall>rows. mset rows = mset (runner_stats (w_db w)) \<longrightarrow>
        fst (assign_runner (Text (uuid_str c)) (texts us) (map_option uuid_str l) allow (w\<lparr>w_db := (w_db w)\<lparr>runner_stats := rows\<rparr>\<rparr>))
        = fst (assign_runner (Text (uuid_str c)) (texts us) (map_option uuid_str l) allow w))
    \<and> (\<exists>dec r w'. assign_runner (Text (uuid_str c)) (texts us) (map_option uuid_str l) allow w = (Inr dec, w')
     \<and> dec_runner_user_id dec = uuid_str r \<and> r \<in> eligible allow l us
     \<and> dec_rationale dec = ''Runner chosen by minimum recent runs served (count before assignment: ''
          @ int_str (served (w_db w) c r) @ ''). Tie-breakers: earliest last_run_at then deterministic user id.''
          @ (if eligible allow l us \<noteq> set us then '' Previous runner excluded to avoid back-to-back assignments.'' else [])
     \<and> (\<forall>v \<in> eligible allow l us. \<forall>sr sv. lookup_by stat_key (r, c) (runner_stats (w_db w)) = Some sr
          \<longrightarrow> lookup_by stat_key (v, c) (runner_stats (w_db w)) = Some sv
          \<longrightarrow> stat_runs_served_count sr = stat_runs_served_count sv
          \<longrightarrow> case_option EPOCH id (stat_last_run_at sr) = case_option EPOCH id (stat_last_run_at sv)
          \<longrightarrow> stat_created_at sr < stat_created_at sv
            \<or> stat_created_at sr = stat_created_at sv \<and> uuid_str r \<le> uuid_str v))"
  using assign_runner_any_row_order [OF assms] assign_runner_tie_break [OF assms, of c l allow, unfolded rationale_text_def]
  by blast

theorem assign_runner_ties_witness:
  "\<exists>dec w'. assign_runner (Text (uuid_str 10)) (texts [2, 3]) None True
      (fx_two_stats\<lparr>w_db := (w_db fx_two_stats)\<lparr>runner_stats :=
         [(fx_stat 50 2 1 (Some 500))\<lparr>stat_created_at := 7\<rparr>, fx_stat 51 3 1 (Some 500)]\<rparr>\<rparr>) = (Inr dec, w')
     \<and> dec_runner_user_id dec = uuid_str 3"
proof -
  let ?s = "(fx_stat 50 2 1 (Some 500))\<lparr>stat_created_at := 7\<rparr>"
  let ?w = "fx_two_stats\<lparr>w_db := (w_db fx_two_stats)\<lparr>runner_stats := [?s, fx_stat 51 3 1 (Some 500)]\<rparr>\<rparr>"
  have "rows_ok stat_id stat_key (runner_stats (w_db ?w))"
    by (simp add: fx_stat_def rows_ok_def stat_key_def)
  from assign_runner_ties [OF this, of "[2, 3]" 10 None True, THEN conjunct2] obtain dec r w' where
    run: "assign_runner (Text (uuid_str 10)) (texts [2, 3]) None True ?w = (Inr dec, w')"
    and r: "dec_runner_user_id dec = uuid_str r" "r \<in> eligible True None [2, 3]"
    and least: "\<forall>v \<in> eligible True None [2, 3]. \<forall>sr sv. lookup_by stat_key (r, 10) (runner_stats (w_db ?w)) = Some sr
          \<longrightarrow> lookup_by stat_key (v, 10) (runner_stats (w_db ?w)) = Some sv
          \<longrightarrow> stat_runs_served_count sr = stat_runs_served_count sv
          \<longrightarrow> case_option EPOCH id (stat_last_run_at sr) = case_option EPOCH id (stat_last_run_at sv)
          \<longrightarrow> stat_created_at sr < stat_created_at sv
            \<or> stat_created_at sr = stat_created_at sv \<and> uuid_str r \<le> uuid_str v"
    by auto
  have "r \<noteq> 2"
    using bspec [OF least, of 3] by (auto simp: eligible_def fx_stat_def lookup_by_def stat_key_def)
  with r(2) have "r = 3" by (simp add: eligible_def)
  with run r(1) show ?thesis by auto
qed

end
