(* ===== verification/CloseRun.thy ===== *)
theory CloseRun
  imports OrderService Fairness
begin

text \<open>
  \<open>CloseRunService\<close> (\<open>core/runs/service.py\<close>): closing a run checks the run and the actor, chooses the
  runner with \<open>assign_runner\<close>, closes the run, makes its orders final and builds the summary that the
  channel and the runner receive.

  The collaborators are fields of \<open>close_run_service\<close>: the authorizer (a Protocol of the code) and the
  collation by which the database sorts names, given as a sort key. UUID columns sort by value. The
  fairness service and this service read the same clock.
\<close>

section \<open>Requests and results\<close>

record close_run_request =
  crq_run_id :: string
  crq_actor_user_id :: string
  crq_allow_immediate_repeat :: bool

record participant_order =
  part_user_id :: string
  part_display_name :: string
  part_order_text :: string
  part_provenance :: string

record run_summary =
  sum_run_id :: string
  sum_channel_id :: string
  sum_channel_name :: string
  sum_runner_user_id :: string
  sum_runner_display_name :: string
  sum_pickup_time :: "time option"
  sum_pickup_note :: "string option"
  sum_participants :: "participant_order list"
  sum_total_orders :: nat
  sum_reminder_offset_minutes :: int
  sum_reminders_enabled :: bool
  sum_last_call_enabled :: bool
  sum_closed_at :: time

record close_run_result =
  crr_run_id :: string
  crr_channel_id :: string
  crr_runner_user_id :: string
  crr_closed_at :: time
  crr_summary :: run_summary
  crr_fairness_note :: string

record close_run_service =
  is_authorized :: "run \<Rightarrow> string \<Rightarrow> bool"
  collation :: "string \<Rightarrow> string"

section \<open>CloseRunService\<close>

definition close_get_run :: "string \<Rightarrow> (world, exn, run) op" where
  "close_get_run rid =
     bindE (the_uuid (Text rid)) (\<lambda>r.
     bindE (query (\<lambda>d. lookup_by run_id r (runs d))) (\<lambda>found.
     case found of
       None \<Rightarrow> raiseE (RunCloseError (run_close_error.RunNotFoundError (''Run '' @ rid @ '' not found.'')))
     | Some rn \<Rightarrow> returnE rn))"

definition close_get_channel :: "uuid \<Rightarrow> (world, exn, channel) op" where
  "close_get_channel c =
     bindE (query (\<lambda>d. lookup_by channel_id c (channels d))) (\<lambda>found.
     case found of
       None \<Rightarrow> raiseE (RunCloseError (run_close_error.RunNotFoundError
                 (''Channel '' @ uuid_str c @ '' missing for run close.'')))
     | Some ch \<Rightarrow> returnE ch)"

text \<open>The join of the active orders with their users, and the query that sorts it.\<close>

definition joined_orders :: "uuid \<Rightarrow> db \<Rightarrow> (order \<times> user) list" where
  "joined_orders r d = concat (map (\<lambda>o'. map (Pair o') (filter (\<lambda>u. user_id u = order_user_id o') (users d)))
     (filter (active_in r) (orders d)))"

definition participant_key :: "(string \<Rightarrow> string) \<Rightarrow> order \<times> user \<Rightarrow> string \<times> uuid" where
  "participant_key col x = (col (user_display_name (snd x)), user_id (snd x))"

definition load_active_orders :: "(string \<Rightarrow> string) \<Rightarrow> uuid \<Rightarrow> (world, exn, (order \<times> user) list) op" where
  "load_active_orders col r =
     query (\<lambda>d. linorder_class.sort_key (participant_key col) (joined_orders r d))"

definition earlier_runs :: "run \<Rightarrow> db \<Rightarrow> run list" where
  "earlier_runs rn d = filter (\<lambda>r. run_channel_id r = run_channel_id rn \<and> run_status r = CLOSED
     \<and> run_closed_at r \<noteq> None \<and> run_id r \<noteq> run_id rn \<and> run_runner_user_id r \<noteq> None) (runs d)"

definition latest_first :: "run \<Rightarrow> int" where
  "latest_first r = - the (run_closed_at r)"

definition previous_runner_id :: "run \<Rightarrow> (world, exn, string option) op" where
  "previous_runner_id rn =
     query (\<lambda>d. map_option (\<lambda>r. uuid_str (the (run_runner_user_id r)))
       (py_min_by latest_first (earlier_runs rn d)))"

definition finalize_run :: "run \<Rightarrow> uuid \<Rightarrow> time \<Rightarrow> (world, exn, run) op" where
  "finalize_run rn runner t =
     (let rn' = rn\<lparr>run_runner_user_id := Some runner, run_status := CLOSED,
                  run_closed_at := Some t, run_updated_at := t\<rparr>
      in bindE (change (\<lambda>d. d\<lparr>runs := save_row run_id rn' (runs d)\<rparr>)) (\<lambda>_. returnE rn'))"

definition finalized :: "time \<Rightarrow> order \<Rightarrow> order" where
  "finalized t o' = o'\<lparr>order_is_final := True, order_updated_at := t\<rparr>"

definition participant :: "order \<times> user \<Rightarrow> participant_order" where
  "participant x = \<lparr>part_user_id = uuid_str (order_user_id (fst x)),
     part_display_name = user_display_name (snd x), part_order_text = order_text (fst x),
     part_provenance = order_provenance (fst x)\<rparr>"

fun snapshot_orders :: "(order \<times> user) list \<Rightarrow> time \<Rightarrow> (world, exn, participant_order list) op" where
  "snapshot_orders [] t = returnE []"
| "snapshot_orders (x # xs) t =
     bindE (store_order (finalized t (fst x))) (\<lambda>_.
     bindE (snapshot_orders xs t) (\<lambda>ps. returnE (participant x # ps)))"

definition close_after_checks :: "close_run_service \<Rightarrow> close_run_request \<Rightarrow> run \<Rightarrow> (world, exn, close_run_result) op" where
  "close_after_checks srv q rn =
     bindE (close_get_channel (run_channel_id rn)) (\<lambda>ch.
     bindE (load_active_orders (collation srv) (run_id rn)) (\<lambda>os.
     if os = [] then
       raiseE (RunCloseError (RunnerSelectionError ''Cannot close run without active participant orders.''))
     else
       bindE (previous_runner_id rn) (\<lambda>l.
       bindE (assign_runner (Text (uuid_str (channel_id ch)))
           (map (\<lambda>x. Text (uuid_str (order_user_id (fst x)))) os) l (crq_allow_immediate_repeat q)) (\<lambda>dec.
       bindE (the_uuid (Text (dec_runner_user_id dec))) (\<lambda>ru.
       bindE (query (\<lambda>d. lookup_by user_id ru (users d))) (\<lambda>found.
       case found of
         None \<Rightarrow> raiseE (RunCloseError (RunnerSelectionError
           (''Runner '' @ dec_runner_user_id dec @ '' missing from persistence during close.'')))
       | Some runner \<Rightarrow>
           bindE now (\<lambda>t.
           bindE (finalize_run rn ru t) (\<lambda>rn'.
           bindE (snapshot_orders os t) (\<lambda>ps.
           returnE \<lparr>crr_run_id = uuid_str (run_id rn'), crr_channel_id = uuid_str (channel_id ch),
             crr_runner_user_id = dec_runner_user_id dec, crr_closed_at = t,
             crr_summary = \<lparr>sum_run_id = uuid_str (run_id rn'), sum_channel_id = uuid_str (channel_id ch),
               sum_channel_name = channel_name ch, sum_runner_user_id = dec_runner_user_id dec,
               sum_runner_display_name = user_display_name runner,
               sum_pickup_time = run_pickup_time rn', sum_pickup_note = run_pickup_note rn',
               sum_participants = ps, sum_total_orders = length ps,
               sum_reminder_offset_minutes = reminder_offset_minutes ch,
               sum_reminders_enabled = reminders_enabled ch, sum_last_call_enabled = last_call_enabled ch,
               sum_closed_at = t\<rparr>,
             crr_fairness_note = dec_rationale dec\<rparr>)))))))))"

definition close_run :: "close_run_service \<Rightarrow> close_run_request \<Rightarrow> (world, exn, close_run_result) op" where
  "close_run srv q =
     bindE (close_get_run (crq_run_id q)) (\<lambda>rn.
     if run_status rn \<noteq> OPEN then
       raiseE (RunCloseError (run_close_error.RunNotOpenError (''Run '' @ crq_run_id q @ '' is not open.'')))
     else if \<not> is_authorized srv rn (crq_actor_user_id q) then
       raiseE (RunCloseError (UnauthorizedRunCloseError
         (''Actor '' @ crq_actor_user_id q @ '' is not allowed to close run '' @ crq_run_id q @ ''.'')))
     else close_after_checks srv q rn)"

interpretation previous_run: keyed_choice "py_min_by latest_first" latest_first
  by (rule keyed_choice_py_min)

section \<open>The join\<close>

lemma filter_key_single:
  "distinct (map f xs) \<Longrightarrow> x \<in> set xs \<Longrightarrow> filter (\<lambda>y. f y = f x) xs = [x]"
proof (induction xs)
  case Nil
  then show ?case by simp
next
  case (Cons y ys)
  then show ?case
    by (cases "y = x") (auto simp: filter_empty_conv image_iff)
qed

lemma lookup_by_map:
  "(\<And>x. x \<in> set rows \<Longrightarrow> key (f x) = key x) \<Longrightarrow> lookup_by key k (map f rows) = map_option f (lookup_by key k rows)"
  by (induction rows) (auto simp: lookup_by_def)

lemma joined_orders_fst:
  assumes "schema_ok d"
  shows "map fst (joined_orders r d) = filter (active_in r) (orders d)"
    and "\<forall>x \<in> set (joined_orders r d). snd x \<in> set (users d) \<and> user_id (snd x) = order_user_id (fst x)"
proof -
  have dist: "distinct (map user_id (users d))"
    using assms by (simp add: schema_defs rows_ok_def)
  have one: "\<exists>u \<in> set (users d). filter (\<lambda>u. user_id u = order_user_id o') (users d) = [u]"
    if "o' \<in> set (orders d)" for o'
  proof -
    have "order_user_id o' \<in> user_id ` set (users d)"
      using that assms by (simp add: schema_ok_def refs_ok_def Let_def)
    then obtain u where "u \<in> set (users d)" "user_id u = order_user_id o'" by auto
    then show ?thesis using filter_key_single [OF dist, of u] by auto
  qed
  have "map fst (concat (map (\<lambda>o'. map (Pair o') (filter (\<lambda>u. user_id u = order_user_id o') (users d))) os)) = os"
    if "set os \<subseteq> set (orders d)" for os
    using that
  proof (induction os)
    case (Cons o' os)
    then obtain u where "filter (\<lambda>u. user_id u = order_user_id o') (users d) = [u]" using one by force
    with Cons show ?case by simp
  qed simp
  then show "map fst (joined_orders r d) = filter (active_in r) (orders d)"
    unfolding joined_orders_def by (meson filter_is_subset)
  show "\<forall>x \<in> set (joined_orders r d). snd x \<in> set (users d) \<and> user_id (snd x) = order_user_id (fst x)"
    by (auto simp: joined_orders_def)
qed

lemma load_active_orders_run [op_simps]: "load_active_orders col r w
    = (Inr (linorder_class.sort_key (participant_key col) (joined_orders r (w_db w))), w)"
  by (simp add: load_active_orders_def op_simps)

section \<open>Snapshots\<close>

lemma snapshot_orders_run: "snapshot_orders xs t w = (Inr (map participant xs),
    w\<lparr>w_db := (w_db w)\<lparr>orders := foldl (\<lambda>rows x. save_row order_id (finalized t (fst x)) rows) (orders (w_db w)) xs\<rparr>\<rparr>)"
  by (induction xs arbitrary: w) (simp_all add: store_order_def op_simps)

lemma save_finalized:
  assumes "distinct (map order_id rows)" and "distinct (map (order_id \<circ> fst) xs)" and "fst ` set xs \<subseteq> set rows"
  shows "foldl (\<lambda>rows x. save_row order_id (finalized t (fst x)) rows) rows xs
       = map (\<lambda>o'. if o' \<in> fst ` set xs then finalized t o' else o') rows"
  using assms
proof (induction xs rule: rev_induct)
  case Nil
  then show ?case by simp
next
  case (snoc x xs)
  let ?f = "\<lambda>o'. if o' \<in> fst ` set xs then finalized t o' else o'"
  have id: "order_id (?f o') = order_id o'" for o' by (simp add: finalized_def)
  have IH: "foldl (\<lambda>rows x. save_row order_id (finalized t (fst x)) rows) rows xs = map ?f rows"
    using snoc by simp
  have x: "fst x \<in> set rows" using snoc.prems by simp
  have "(if order_id (?f o') = order_id (finalized t (fst x)) then finalized t (fst x) else ?f o')
      = (if o' \<in> fst ` set (xs @ [x]) then finalized t o' else o')" if "o' \<in> set rows" for o'
  proof (cases "order_id o' = order_id (fst x)")
    case True
    then have "o' = fst x" by (rule distinct_map_eq [OF snoc.prems(1) that x])
    then show ?thesis by (simp add: finalized_def)
  next
    case False
    then show ?thesis by (auto simp: finalized_def)
  qed
  then show ?case
    by (simp only: foldl_append foldl.simps IH) (simp add: save_row_def)
qed


section \<open>A successful close, step by step\<close>

definition previous_runner :: "run \<Rightarrow> db \<Rightarrow> uuid option" where
  "previous_runner rn d = map_option (the \<circ> run_runner_user_id) (py_min_by latest_first (earlier_runs rn d))"

lemma previous_runner_id_run [op_simps]:
  "previous_runner_id rn w = (Inr (map_option uuid_str (previous_runner rn (w_db w))), w)"
  by (simp add: previous_runner_id_def previous_runner_def op_simps option.map_comp comp_def)

definition active_orders :: "close_run_service \<Rightarrow> uuid \<Rightarrow> db \<Rightarrow> (order \<times> user) list" where
  "active_orders srv r d = linorder_class.sort_key (participant_key (collation srv)) (joined_orders r d)"

definition closed_run :: "run \<Rightarrow> uuid \<Rightarrow> time \<Rightarrow> run" where
  "closed_run rn runner t = rn\<lparr>run_runner_user_id := Some runner, run_status := CLOSED,
     run_closed_at := Some t, run_updated_at := t\<rparr>"

definition close_world :: "run \<Rightarrow> uuid \<Rightarrow> (order \<times> user) list \<Rightarrow> world \<Rightarrow> world" where
  "close_world rn runner os w = (let t = w_clock w (w_ticks w) in
     w\<lparr>w_ticks := Suc (w_ticks w),
       w_db := (w_db w)\<lparr>runs := save_row run_id (closed_run rn runner t) (runs (w_db w)),
         orders := foldl (\<lambda>rows x. save_row order_id (finalized t (fst x)) rows) (orders (w_db w)) os\<rparr>\<rparr>)"

lemma close_get_run_Inr: "close_get_run rid w = (Inr rn, w') \<longleftrightarrow>
    w' = w \<and> (\<exists>r. as_uuid (Text rid) = Inr r \<and> lookup_by run_id r (runs (w_db w)) = Some rn)"
  by (auto simp: close_get_run_def bindE_def op_simps split: sum.splits option.splits)

lemma close_get_run_world: "snd (close_get_run rid w) = w"
  by (auto simp: close_get_run_def bindE_def op_simps split: sum.splits option.splits)

lemma close_run_success:
  assumes ok: "schema_ok (w_db w)" and rn: "close_get_run (crq_run_id q) w = (Inr rn, w)"
    and opened: "run_status rn = OPEN" and auth: "is_authorized srv rn (crq_actor_user_id q)"
    and act: "filter (active_in (run_id rn)) (orders (w_db w)) \<noteq> []"
  obtains ch us s runner where "ch \<in> set (channels (w_db w))" and "channel_id ch = run_channel_id rn"
    and "distinct us" and "set us = order_user_id ` {o' \<in> set (orders (w_db w)). active_in (run_id rn) o'}"
    and "s \<in> set (compared (run_channel_id rn) us w)"
    and "stat_user_id s \<in> eligible (crq_allow_immediate_repeat q) (previous_runner rn (w_db w)) us"
    and "runner \<in> set (users (w_db w))" and "user_id runner = stat_user_id s"
    and "\<forall>v \<in> eligible (crq_allow_immediate_repeat q) (previous_runner rn (w_db w)) us.
           served (w_db w) (run_channel_id rn) (stat_user_id s) \<le> served (w_db w) (run_channel_id rn) v"
    and "close_run srv q w =
      (let w1 = chosen_world s (after_load (run_channel_id rn) us w);
           os = active_orders srv (run_id rn) (w_db w); t = w_clock w1 (w_ticks w1);
           ru = uuid_str (stat_user_id s)
       in (Inr \<lparr>crr_run_id = uuid_str (run_id rn), crr_channel_id = uuid_str (run_channel_id rn),
             crr_runner_user_id = ru, crr_closed_at = t,
             crr_summary = \<lparr>sum_run_id = uuid_str (run_id rn), sum_channel_id = uuid_str (run_channel_id rn),
               sum_channel_name = channel_name ch, sum_runner_user_id = ru,
               sum_runner_display_name = user_display_name runner,
               sum_pickup_time = run_pickup_time rn, sum_pickup_note = run_pickup_note rn,
               sum_participants = map participant os, sum_total_orders = length os,
               sum_reminder_offset_minutes = reminder_offset_minutes ch,
               sum_reminders_enabled = reminders_enabled ch, sum_last_call_enabled = last_call_enabled ch,
               sum_closed_at = t\<rparr>,
             crr_fairness_note = build_rationale (stat_runs_served_count s)
               (excludes_last (crq_allow_immediate_repeat q)
                 (map_option uuid_str (previous_runner rn (w_db w))) (named (compared (run_channel_id rn) us w)))\<rparr>,
           close_world rn (stat_user_id s) os w1))"
proof -
  let ?d = "w_db w" and ?c = "run_channel_id rn" and ?l = "previous_runner rn (w_db w)"
  let ?os = "active_orders srv (run_id rn) ?d" and ?allow = "crq_allow_immediate_repeat q"
  let ?us0 = "map (order_user_id \<circ> fst) ?os"
  have rows: "rows_ok stat_id stat_key (runner_stats ?d)" and dist: "distinct (map channel_id (channels ?d))"
      "distinct (map user_id (users ?d))"
    using ok by (auto simp: schema_defs rows_ok_def)
  have "rn \<in> set (runs ?d)" using rn by (auto simp: close_get_run_Inr dest: lookup_by_Some)
  then have "?c \<in> channel_id ` set (channels ?d)"
    using ok by (simp add: schema_ok_def refs_ok_def Let_def)
  then obtain ch where ch: "ch \<in> set (channels ?d)" "channel_id ch = ?c" by auto
  have found: "lookup_by channel_id ?c (channels ?d) = Some ch"
    using lookup_by_in [OF dist(1) ch(1)] ch(2) by simp
  have "set ?os = set (joined_orders (run_id rn) ?d)" by (simp add: active_orders_def)
  then have fst_os: "fst ` set ?os = {o' \<in> set (orders ?d). active_in (run_id rn) o'}"
    using arg_cong [OF joined_orders_fst(1) [OF ok, of "run_id rn"], of set] by simp
  then have us0: "set ?us0 = order_user_id ` {o' \<in> set (orders ?d). active_in (run_id rn) o'}"
    unfolding fst_os [symmetric] by (simp add: image_image)
  have os_ne: "?os \<noteq> []"
  proof
    assume "?os = []"
    with fst_os act show False by (auto simp: filter_empty_conv)
  qed
  then have "?us0 \<noteq> []" by simp
  then obtain us s where
    us: "distinct us" "set us = set ?us0" and s: "s \<in> set (compared ?c us w)"
    and run: "assign_runner (Text (uuid_str ?c)) (texts ?us0) (map_option uuid_str ?l) ?allow w
      = (Inr \<lparr>dec_runner_user_id = uuid_str (stat_user_id s),
           dec_rationale = build_rationale (stat_runs_served_count s)
             (excludes_last ?allow (map_option uuid_str ?l) (named (compared ?c us w)))\<rparr>,
         chosen_world s (after_load ?c us w))"
    and el: "stat_user_id s \<in> eligible ?allow ?l ?us0"
    and least: "\<forall>v \<in> eligible ?allow ?l ?us0. precedence ?d ?c (stat_user_id s) \<le> precedence ?d ?c v"
    by (rule assign_runner_precedence [OF rows])
  have "stat_user_id s \<in> set us"
    using compared_users(2) [OF rows us(1), of ?c] s by blast
  then have "stat_user_id s \<in> user_id ` set (users ?d)"
    using us(2) us0 ok by (auto simp: schema_ok_def refs_ok_def Let_def)
  then obtain runner where runner: "runner \<in> set (users ?d)" "user_id runner = stat_user_id s" by auto
  have users1: "users (w_db (chosen_world s (after_load ?c us w))) = users ?d"
    by (simp add: chosen_world_def after_load_def Let_def)
  have found_u: "lookup_by user_id (stat_user_id s) (users ?d) = Some runner"
    using lookup_by_in [OF dist(2) runner(1)] runner(2) by simp
  have texts: "map (\<lambda>x. Text (uuid_str (order_user_id (fst x)))) ?os = texts ?us0" by simp
  have os: "linorder_class.sort_key (participant_key (collation srv)) (joined_orders (run_id rn) ?d) = ?os"
    by (simp add: active_orders_def)
  have "close_run srv q w =
      (let w1 = chosen_world s (after_load (run_channel_id rn) us w); t = w_clock w1 (w_ticks w1);
           ru = uuid_str (stat_user_id s)
       in (Inr \<lparr>crr_run_id = uuid_str (run_id rn), crr_channel_id = uuid_str (run_channel_id rn),
             crr_runner_user_id = ru, crr_closed_at = t,
             crr_summary = \<lparr>sum_run_id = uuid_str (run_id rn), sum_channel_id = uuid_str (run_channel_id rn),
               sum_channel_name = channel_name ch, sum_runner_user_id = ru,
               sum_runner_display_name = user_display_name runner,
               sum_pickup_time = run_pickup_time rn, sum_pickup_note = run_pickup_note rn,
               sum_participants = map participant ?os, sum_total_orders = length ?os,
               sum_reminder_offset_minutes = reminder_offset_minutes ch,
               sum_reminders_enabled = reminders_enabled ch, sum_last_call_enabled = last_call_enabled ch,
               sum_closed_at = t\<rparr>,
             crr_fairness_note = build_rationale (stat_runs_served_count s)
               (excludes_last (crq_allow_immediate_repeat q)
                 (map_option uuid_str (previous_runner rn (w_db w))) (named (compared (run_channel_id rn) us w)))\<rparr>,
           close_world rn (stat_user_id s) ?os w1))"
    unfolding close_run_def close_after_checks_def Let_def
    by (simp add: rn opened auth close_get_channel_def found op_simps os os_ne ch(2) texts run users1
        found_u finalize_run_def snapshot_orders_run close_world_def closed_run_def del: map_map)
  moreover have "\<forall>v \<in> eligible ?allow ?l us. served ?d ?c (stat_user_id s) \<le> served ?d ?c v"
    using least eligible_set [OF us(2), of ?allow ?l]
    by (auto simp: precedence_def less_eq_prod_def less_prod_def)
  ultimately show ?thesis
    using that [OF ch us(1) _ s _ runner] us us0 el eligible_set [OF us(2), of ?allow ?l]
    by (simp add: Let_def)
qed


text \<open>The refusals of \<open>close_run\<close> in the order in which the code makes them.\<close>

definition close_refusal :: "close_run_service \<Rightarrow> close_run_request \<Rightarrow> db \<Rightarrow> exn option" where
  "close_refusal srv q d =
     (case as_uuid (Text (crq_run_id q)) of Inl e \<Rightarrow> Some e
      | Inr r \<Rightarrow> (case lookup_by run_id r (runs d) of
          None \<Rightarrow> Some (RunCloseError (run_close_error.RunNotFoundError (''Run '' @ crq_run_id q @ '' not found.'')))
        | Some rn \<Rightarrow>
            if run_status rn \<noteq> OPEN then
              Some (RunCloseError (run_close_error.RunNotOpenError (''Run '' @ crq_run_id q @ '' is not open.'')))
            else if \<not> is_authorized srv rn (crq_actor_user_id q) then
              Some (RunCloseError (UnauthorizedRunCloseError
                (''Actor '' @ crq_actor_user_id q @ '' is not allowed to close run '' @ crq_run_id q @ ''.'')))
            else if basket_users d r = {} then
              Some (RunCloseError (RunnerSelectionError ''Cannot close run without active participant orders.''))
            else None))"

lemma active_empty:
  assumes "schema_ok d"
  shows "filter (active_in r) (orders d) = [] \<longleftrightarrow> basket_users d r = {}"
proof -
  have "rows_ok order_id order_key (orders d)" using assms by (simp add: schema_defs)
  then have "length (filter (active_in r) (orders d)) = card (basket_users d r)" by (rule active_count)
  then show ?thesis using finite_basket_users by (metis card_eq_0_iff length_0_conv)
qed

lemma close_run_refused:
  assumes ok: "schema_ok (w_db w)" and e: "close_refusal srv q (w_db w) = Some e"
  shows "close_run srv q w = (Inl e, w)"
proof (cases "as_uuid (Text (crq_run_id q))")
  case (Inl e')
  then have "close_get_run (crq_run_id q) w = (Inl e', w)"
    by (simp add: close_get_run_def bindE_def op_simps)
  moreover have "e' = e" using e Inl by (simp add: close_refusal_def)
  ultimately show ?thesis by (simp add: close_run_def op_simps)
next
  case (Inr r)
  show ?thesis
  proof (cases "lookup_by run_id r (runs (w_db w))")
    case None
    then show ?thesis
      using e Inr by (simp add: close_refusal_def close_run_def close_get_run_def op_simps)
  next
    case (Some rn)
    then have rn: "close_get_run (crq_run_id q) w = (Inr rn, w)" "run_id rn = r"
      using Inr by (auto simp: close_get_run_Inr dest: lookup_by_Some)
    have refusal: "run_status rn \<noteq> OPEN \<and> e = RunCloseError (run_close_error.RunNotOpenError (''Run '' @ crq_run_id q @ '' is not open.''))
      \<or> run_status rn = OPEN \<and> \<not> is_authorized srv rn (crq_actor_user_id q) \<and> e = RunCloseError (UnauthorizedRunCloseError
                (''Actor '' @ crq_actor_user_id q @ '' is not allowed to close run '' @ crq_run_id q @ ''.''))
      \<or> run_status rn = OPEN \<and> is_authorized srv rn (crq_actor_user_id q) \<and> basket_users (w_db w) r = {}
         \<and> e = RunCloseError (RunnerSelectionError ''Cannot close run without active participant orders.'')"
      using e Inr Some by (auto simp: close_refusal_def split: if_splits)
    show ?thesis
    proof (cases "run_status rn = OPEN \<and> is_authorized srv rn (crq_actor_user_id q)")
      case False
      then show ?thesis using refusal rn(1) by (auto simp: close_run_def op_simps)
    next
      case True
      then have "filter (active_in r) (orders (w_db w)) = []"
        using refusal active_empty [OF ok, of r] by simp
      then have none: "joined_orders r (w_db w) = []"
        using joined_orders_fst(1) [OF ok, of r] by simp
      have "rn \<in> set (runs (w_db w))" using Some by (auto dest: lookup_by_Some)
      then have "run_channel_id rn \<in> channel_id ` set (channels (w_db w))"
        using ok by (simp add: schema_ok_def refs_ok_def Let_def)
      then obtain ch where "lookup_by channel_id (run_channel_id rn) (channels (w_db w)) = Some ch"
        by (cases "lookup_by channel_id (run_channel_id rn) (channels (w_db w))") (auto simp: lookup_by_None)
      then show ?thesis
        using True refusal rn none by (auto simp: close_run_def close_after_checks_def close_get_channel_def op_simps)
    qed
  qed
qed

lemma close_refusal_None:
  assumes ok: "schema_ok (w_db w)"
  shows "close_refusal srv q (w_db w) = None \<longleftrightarrow> (\<exists>rn. close_get_run (crq_run_id q) w = (Inr rn, w)
     \<and> run_status rn = OPEN \<and> is_authorized srv rn (crq_actor_user_id q)
     \<and> filter (active_in (run_id rn)) (orders (w_db w)) \<noteq> [])"
  using lookup_by_Some [of run_id _ "runs (w_db w)"] active_empty [OF ok]
  by (auto simp: close_refusal_def close_get_run_Inr split: sum.splits option.splits if_splits)


lemma close_run_returns:
  assumes "schema_ok (w_db w)" and "close_get_run (crq_run_id q) w = (Inr rn, w)" and "run_status rn = OPEN"
    and "is_authorized srv rn (crq_actor_user_id q)" and "filter (active_in (run_id rn)) (orders (w_db w)) \<noteq> []"
  shows "\<exists>res w'. close_run srv q w = (Inr res, w')"
  by (rule close_run_success [OF assms]) (auto simp: Let_def)

section \<open>What a close does\<close>

lemma active_fst:
  assumes "schema_ok d"
  shows "fst ` set (active_orders srv r d) = {o' \<in> set (orders d). active_in r o'}"
    and "distinct (map (order_id \<circ> fst) (active_orders srv r d))"
proof -
  have set_eq: "set (active_orders srv r d) = set (joined_orders r d)" by (simp add: active_orders_def)
  then show "fst ` set (active_orders srv r d) = {o' \<in> set (orders d). active_in r o'}"
    using arg_cong [OF joined_orders_fst(1) [OF assms, of r], of set] by simp
  have "distinct (map order_id (orders d))" using assms by (simp add: schema_defs rows_ok_def)
  then have "distinct (map order_id (filter (active_in r) (orders d)))" by (rule distinct_map_filter)
  then have "distinct (map (order_id \<circ> fst) (joined_orders r d))"
    using joined_orders_fst(1) [OF assms, of r] by (metis map_map)
  moreover have "mset (map (order_id \<circ> fst) (active_orders srv r d)) = mset (map (order_id \<circ> fst) (joined_orders r d))"
    by (simp add: active_orders_def)
  ultimately show "distinct (map (order_id \<circ> fst) (active_orders srv r d))"
    by (metis mset_eq_imp_distinct_iff)
qed

text \<open>The tables after the close, row by row.\<close>

lemma close_world_tables:
  fixes srv :: close_run_service and u :: uuid
  assumes ok: "schema_ok (w_db w)" and rn: "rn \<in> set (runs (w_db w))"
    and same: "runs (w_db w1) = runs (w_db w)" "orders (w_db w1) = orders (w_db w)"
  defines "t \<equiv> w_clock w1 (w_ticks w1)" and "d \<equiv> w_db (close_world rn u (active_orders srv (run_id rn) (w_db w)) w1)"
  shows "runs d = map (\<lambda>x. if x = rn then closed_run rn u t else x) (runs (w_db w))"
    and "orders d = map (\<lambda>o'. if active_in (run_id rn) o' then finalized t o' else o') (orders (w_db w))"
    and "d = (w_db w1)\<lparr>runs := runs d, orders := orders d\<rparr>"
proof -
  have dist: "distinct (map run_id (runs (w_db w)))" "distinct (map order_id (orders (w_db w)))"
    using ok by (auto simp: schema_defs rows_ok_def)
  have "save_row run_id (closed_run rn u t) (runs (w_db w))
      = map (\<lambda>x. if x = rn then closed_run rn u t else x) (runs (w_db w))"
    by (rule save_row_one [OF dist(1) rn]) (simp add: closed_run_def)
  then show "runs d = map (\<lambda>x. if x = rn then closed_run rn u t else x) (runs (w_db w))"
    by (simp add: d_def close_world_def Let_def same t_def)
  note fin = active_fst [OF ok, where r = "run_id rn" and srv = srv]
  have "foldl (\<lambda>rows x. save_row order_id (finalized t (fst x)) rows) (orders (w_db w)) (active_orders srv (run_id rn) (w_db w))
      = map (\<lambda>o'. if active_in (run_id rn) o' then finalized t o' else o') (orders (w_db w))"
    using save_finalized [OF dist(2) fin(2)] fin(1) by auto
  then show "orders d = map (\<lambda>o'. if active_in (run_id rn) o' then finalized t o' else o') (orders (w_db w))"
    by (simp add: d_def close_world_def Let_def same t_def)
  show "d = (w_db w1)\<lparr>runs := runs d, orders := orders d\<rparr>"
    by (simp add: d_def close_world_def Let_def)
qed

lemma basket_finalized: "orders d' = map (\<lambda>o'. if P o' then finalized t o' else o') (orders d) \<Longrightarrow> basket d' = basket d"
  by (auto simp: basket_def fun_eq_iff lookup_by_map order_key_def finalized_def split: option.splits)

lemma active_users: "order_user_id ` {o' \<in> set (orders d). active_in r o'} = basket_users d r"
  if "rows_ok order_id order_key (orders d)"
proof -
  have "u \<in> basket_users d r \<longleftrightarrow> (\<exists>o' \<in> set (orders d). active_in r o' \<and> order_user_id o' = u)" for u
  proof
    assume "u \<in> basket_users d r"
    then show "\<exists>o' \<in> set (orders d). active_in r o' \<and> order_user_id o' = u"
      by (auto simp: basket_users_def basket_def active_in_def order_key_def
          dest!: lookup_by_Some split: option.splits if_splits)
  next
    assume "\<exists>o' \<in> set (orders d). active_in r o' \<and> order_user_id o' = u"
    then obtain o' where o': "o' \<in> set (orders d)" "active_in r o'" "order_user_id o' = u" by blast
    then have "lookup_by order_key (r, u) (orders d) = Some o'"
      using lookup_by_in [of order_key "orders d" o'] that
      by (auto simp: rows_ok_def order_key_def active_in_def)
    then show "u \<in> basket_users d r"
      using o' by (simp add: basket_users_def basket_def active_in_def)
  qed
  then show ?thesis by auto
qed

lemma refs_closed:
  assumes "refs_ok d" and "runs d' = map (\<lambda>x. if x = rn then closed_run rn u t else x) (runs d)"
    and "orders d' = map (\<lambda>o'. if P o' then finalized t o' else o') (orders d)"
    and "set (map stat_key (runner_stats d')) = (\<lambda>u. (u, c)) ` us \<union> set (map stat_key (runner_stats d))"
    and "us \<subseteq> user_id ` set (users d)" and "u \<in> us" and "c \<in> channel_id ` set (channels d)"
    and "users d' = users d" "channels d' = channels d" "user_preferences d' = user_preferences d"
      "channel_admin_actions d' = channel_admin_actions d"
  shows "refs_ok d'"
proof -
  have ids: "run_id ` set (runs d') = run_id ` set (runs d)"
  proof -
    have "map run_id (runs d') = map run_id (runs d)" by (simp add: assms(2) closed_run_def)
    then show ?thesis by (metis set_map)
  qed
  have stats: "stat_user_id s \<in> user_id ` set (users d) \<and> stat_channel_id s \<in> channel_id ` set (channels d)"
    if "s \<in> set (runner_stats d')" for s
  proof -
    have "stat_key s \<in> (\<lambda>u. (u, c)) ` us \<union> set (map stat_key (runner_stats d))"
      using that assms(4) by auto
    then show ?thesis
      using assms(1,5,7) by (auto simp: stat_key_def refs_ok_def Let_def)
  qed
  have os: "order_run_id o' \<in> run_id ` set (runs d) \<and> order_user_id o' \<in> user_id ` set (users d)"
    if "o' \<in> set (orders d')" for o'
    using that assms(1,3) by (auto simp: refs_ok_def Let_def finalized_def split: if_splits)
  have rs: "run_channel_id r \<in> channel_id ` set (channels d) \<and> run_initiator_user_id r \<in> user_id ` set (users d)
      \<and> (\<forall>v. run_runner_user_id r = Some v \<longrightarrow> v \<in> user_id ` set (users d))" if "r \<in> set (runs d')" for r
    using that assms(1,2,5,6) by (auto simp: refs_ok_def Let_def closed_run_def split: if_splits)
  show ?thesis
    unfolding refs_ok_def Let_def ids assms(8-11)
    using stats os rs assms(1) by (auto simp: refs_ok_def Let_def)
qed


lemma close_run_view:
  assumes ok: "schema_ok (w_db w)" and fresh: "fresh_draws (length (orders (w_db w)) + n) w"
    and run: "close_run srv q w = (Inr res, w')"
  obtains rn u t where "close_get_run (crq_run_id q) w = (Inr rn, w)" and "run_status rn = OPEN"
    and "is_authorized srv rn (crq_actor_user_id q)"
    and "u \<in> eligible (crq_allow_immediate_repeat q) (previous_runner rn (w_db w))
           (map (order_user_id \<circ> fst) (active_orders srv (run_id rn) (w_db w)))"
    and "u \<in> basket_users (w_db w) (run_id rn)"
    and "runs (w_db w') = map (\<lambda>x. if x = rn then closed_run rn u t else x) (runs (w_db w))"
    and "orders (w_db w') = map (\<lambda>o'. if active_in (run_id rn) o' then finalized t o' else o') (orders (w_db w))"
    and "served (w_db w') = (\<lambda>c' v. if c' = run_channel_id rn \<and> v = u then served (w_db w) c' v + 1 else served (w_db w) c' v)"
    and "users (w_db w') = users (w_db w) \<and> channels (w_db w') = channels (w_db w)
      \<and> user_preferences (w_db w') = user_preferences (w_db w)
      \<and> channel_admin_actions (w_db w') = channel_admin_actions (w_db w)"
    and "schema_ok (w_db w')"
    and "\<exists>k. t = w_clock w k \<and> w_ticks w \<le> k \<and> k < w_ticks w'" and "w_clock w' = w_clock w"
    and "crr_runner_user_id res = uuid_str u" and "crr_closed_at res = t"
    and "crr_run_id res = uuid_str (run_id rn)" and "crr_channel_id res = uuid_str (run_channel_id rn)"
    and "sum_participants (crr_summary res) = map participant (active_orders srv (run_id rn) (w_db w))"
    and "sum_total_orders (crr_summary res) = length (active_orders srv (run_id rn) (w_db w))"
    and "\<exists>us \<in> set (users (w_db w)). user_id us = u \<and> sum_runner_display_name (crr_summary res) = user_display_name us"
    and "fresh_draws n w'"
    and "\<forall>v \<in> eligible (crq_allow_immediate_repeat q) (previous_runner rn (w_db w))
           (map (order_user_id \<circ> fst) (active_orders srv (run_id rn) (w_db w))).
           served (w_db w) (run_channel_id rn) u \<le> served (w_db w) (run_channel_id rn) v"
proof -
  have "close_refusal srv q (w_db w) = None"
    using close_run_refused [OF ok, of srv q] run by (cases "close_refusal srv q (w_db w)") auto
  then obtain rn where rn: "close_get_run (crq_run_id q) w = (Inr rn, w)" "run_status rn = OPEN"
    "is_authorized srv rn (crq_actor_user_id q)" "filter (active_in (run_id rn)) (orders (w_db w)) \<noteq> []"
    using close_refusal_None [OF ok] by blast
  let ?d = "w_db w" and ?c = "run_channel_id rn" and ?os = "active_orders srv (run_id rn) (w_db w)"
  show ?thesis
  proof (rule close_run_success [OF ok rn])
    fix ch us and s :: runner_stat and runner
    let ?w1 = "chosen_world s (after_load ?c us w)"
    let ?t = "w_clock ?w1 (w_ticks ?w1)" and ?u = "stat_user_id s"
    assume ch: "ch \<in> set (channels ?d)" "channel_id ch = ?c"
      and us: "distinct us" "set us = order_user_id ` {o' \<in> set (orders ?d). active_in (run_id rn) o'}"
      and s: "s \<in> set (compared ?c us w)"
      and el: "stat_user_id s \<in> eligible (crq_allow_immediate_repeat q) (previous_runner rn ?d) us"
      and runner: "runner \<in> set (users ?d)" "user_id runner = ?u"
      and least: "\<forall>v \<in> eligible (crq_allow_immediate_repeat q) (previous_runner rn ?d) us.
        served ?d ?c (stat_user_id s) \<le> served ?d ?c v"
      and eq: "close_run srv q w = (let w1 = ?w1; os = ?os; t = w_clock w1 (w_ticks w1); ru = uuid_str ?u
       in (Inr \<lparr>crr_run_id = uuid_str (run_id rn), crr_channel_id = uuid_str ?c,
             crr_runner_user_id = ru, crr_closed_at = t,
             crr_summary = \<lparr>sum_run_id = uuid_str (run_id rn), sum_channel_id = uuid_str ?c,
               sum_channel_name = channel_name ch, sum_runner_user_id = ru,
               sum_runner_display_name = user_display_name runner,
               sum_pickup_time = run_pickup_time rn, sum_pickup_note = run_pickup_note rn,
               sum_participants = map participant os, sum_total_orders = length os,
               sum_reminder_offset_minutes = reminder_offset_minutes ch,
               sum_reminders_enabled = reminders_enabled ch, sum_last_call_enabled = last_call_enabled ch,
               sum_closed_at = t\<rparr>,
             crr_fairness_note = build_rationale (stat_runs_served_count s)
               (excludes_last (crq_allow_immediate_repeat q)
                 (map_option uuid_str (previous_runner rn ?d)) (named (compared ?c us w)))\<rparr>,
           close_world rn ?u os w1))"
    have w': "w' = close_world rn ?u ?os ?w1" using run eq by (simp add: Let_def)
    have stats: "rows_ok stat_id stat_key (runner_stats ?d)" and orows: "rows_ok order_id order_key (orders ?d)"
      using ok by (auto simp: schema_defs)
    have rn_in: "rn \<in> set (runs ?d)" using rn(1) by (auto simp: close_get_run_Inr dest: lookup_by_Some)
    have "length us = card (set us)" using us(1) by (simp add: distinct_card)
    also have "\<dots> \<le> length (orders ?d)"
      by (rule le_trans [OF _ length_filter_le [of "active_in (run_id rn)"]])
        (use card_length [of "map order_user_id (filter (active_in (run_id rn)) (orders ?d))"] in \<open>simp add: us(2)\<close>)
    finally have fresh': "fresh_draws (length us + n) w" using fresh_draws_less [OF fresh] by simp
    note view = chosen_world_view [OF stats us(1) fresh' s]
    have same: "runs (w_db ?w1) = runs ?d" "orders (w_db ?w1) = orders ?d"
      and frame1: "users (w_db ?w1) = users ?d" "channels (w_db ?w1) = channels ?d"
        "user_preferences (w_db ?w1) = user_preferences ?d" "channel_admin_actions (w_db ?w1) = channel_admin_actions ?d"
      by (simp_all add: chosen_world_def after_load_def Let_def)
    note tables = close_world_tables [OF ok rn_in same, where u = ?u and srv = srv, folded w']
    have stats': "runner_stats (w_db w') = runner_stats (w_db ?w1)"
      by (simp add: w' close_world_def Let_def)
    have frame: "users (w_db w') = users ?d" "channels (w_db w') = channels ?d"
        "user_preferences (w_db w') = user_preferences ?d" "channel_admin_actions (w_db w') = channel_admin_actions ?d"
      using frame1 by (simp_all add: w' close_world_def Let_def)
    have users: "set us = basket_users ?d (run_id rn)"
      using us(2) active_users [OF orows] by simp
    have u: "?u \<in> set us" using compared_users(2) [OF stats us(1), of ?c] s by blast
    have us_in: "set us \<subseteq> user_id ` set (users ?d)"
      using us(2) ok by (auto simp: schema_ok_def refs_ok_def Let_def)
    have c_in: "?c \<in> channel_id ` set (channels ?d)" using ch by force
    have "refs_ok (w_db w')"
      by (rule refs_closed [where d = ?d and us = "set us" and u = ?u and c = ?c, OF _ tables(1,2) _ us_in u c_in frame])
        (use ok view(4) stats' in \<open>simp_all add: schema_ok_def\<close>)
    moreover have "keys_ok (w_db w')"
    proof -
      have "map run_id (runs (w_db w')) = map run_id (runs ?d)"
        by (simp add: tables(1) closed_run_def)
      moreover have "map order_id (orders (w_db w')) = map order_id (orders ?d)"
        "map order_key (orders (w_db w')) = map order_key (orders ?d)"
        by (simp_all add: tables(2) finalized_def order_key_def)
      ultimately show ?thesis
        using ok view(3) by (simp add: schema_ok_def keys_ok_def rows_ok_def frame stats')
    qed
    moreover have "checks_ok (w_db w')"
      using ok by (simp add: schema_ok_def checks_ok_def frame)
    moreover have "texts_ok (w_db w')"
      using ok rn_in by (auto simp: schema_ok_def texts_ok_def frame tables(1,2) closed_run_def finalized_def)
    ultimately have schema': "schema_ok (w_db w')" by (simp add: schema_ok_def)
    have fresh1: "fresh_draws n w'"
    proof (rule fresh_draws_db [OF view(8)])
      have "map run_id (runs (w_db w')) = map run_id (runs ?d)" "map order_id (orders (w_db w')) = map order_id (orders ?d)"
        by (simp_all add: tables(1,2) closed_run_def finalized_def)
      then have "run_id ` set (runs (w_db w')) = run_id ` set (runs ?d)" "order_id ` set (orders (w_db w')) = order_id ` set (orders ?d)"
        by (metis set_map)+
      then show "set (ids_in_use (w_db w')) \<subseteq> set (ids_in_use (w_db ?w1))"
        by (simp add: ids_in_use_def stats' frame frame1 same)
    qed (simp_all add: w' close_world_def Let_def)
    have clock: "w_clock w' = w_clock w"
      using view(6) by (simp add: w' close_world_def Let_def)
    have time: "\<exists>k. ?t = w_clock w k \<and> w_ticks w \<le> k \<and> k < w_ticks w'"
      using view(6,7) by (auto simp: w' close_world_def Let_def intro: exI [of _ "w_ticks ?w1"])
    have name: "\<exists>us \<in> set (users ?d). user_id us = ?u \<and> sum_runner_display_name (crr_summary res) = user_display_name us"
      using runner run eq by (auto simp: Let_def)
    have "served (w_db w') = served (w_db ?w1)"
      by (simp add: served_def stats' fun_eq_iff)
    note count = this [unfolded view(1)]
    have "set (map (order_user_id \<circ> fst) ?os) = order_user_id ` fst ` set ?os" by (simp add: image_image)
    then have "set us = set (map (order_user_id \<circ> fst) ?os)"
      unfolding us(2) active_fst(1) [OF ok] by simp
    note same_users = eligible_set [OF this, of "crq_allow_immediate_repeat q" "previous_runner rn ?d"]
    have el': "?u \<in> eligible (crq_allow_immediate_repeat q) (previous_runner rn ?d) (map (order_user_id \<circ> fst) ?os)"
      using el same_users by simp
    have res: "crr_runner_user_id res = uuid_str ?u" "crr_closed_at res = ?t"
      "crr_run_id res = uuid_str (run_id rn)" "crr_channel_id res = uuid_str ?c"
      "sum_participants (crr_summary res) = map participant ?os"
      "sum_total_orders (crr_summary res) = length ?os"
      using run eq by (auto simp: Let_def)
    show ?thesis
      by (rule that [OF rn(1-3) el' _ tables(1,2) count _ schema' time clock res name fresh1 least [unfolded same_users]])
        (use u users frame in simp_all)
  qed
qed


section \<open>Properties of closing\<close>

definition fx_closing :: close_run_service where
  "fx_closing = \<lparr>is_authorized = (\<lambda>rn actor. actor = uuid_str (run_initiator_user_id rn)), collation = id\<rparr>"

definition fx_close :: close_run_request where
  "fx_close = \<lparr>crq_run_id = uuid_str 20, crq_actor_user_id = uuid_str 1, crq_allow_immediate_repeat = False\<rparr>"

lemma fx_close_get_run: "close_get_run (uuid_str 20) fx_world = (Inr (fx_run 20 OPEN None None), fx_world)"
  by (simp add: close_get_run_Inr fx_defs lookup_by_def)

lemma fx_close_returns: "\<exists>res w'. close_run fx_closing fx_close fx_world = (Inr res, w')"
proof -
  have rn: "close_get_run (crq_run_id fx_close) fx_world = (Inr (fx_run 20 OPEN None None), fx_world)"
    using fx_close_get_run by (simp add: fx_close_def)
  show ?thesis
    by (rule close_run_success [OF fx_schema_ok rn, of fx_closing])
      (auto simp: fx_closing_def fx_close_def fx_defs active_in_def Let_def)
qed

lemma fx_fresh_close: "fresh_draws (length (orders (w_db fx_world)) + 0) fx_world"
  using fx_fresh_draws by (simp add: fx_world_def fx_db_def numeral_2_eq_2)

text \<open>
  Property C14. A close that returns closes one run: the open run of the request becomes CLOSED with
  the runner and the closing time of the result, its active orders become final and keep their text,
  every other run and order is as before; the runner takes part in the run and is counted once more;
  the texts in the baskets, the users, channels, preferences and audit rows do not change, and the
  database keeps its constraints.
\<close>

theorem close_run_closes:
  assumes "schema_ok (w_db w)" and "fresh_draws (length (orders (w_db w))) w"
    and "close_run srv q w = (Inr res, w')"
  shows "\<exists>rn u. rn \<in> set (runs (w_db w)) \<and> as_uuid (Text (crq_run_id q)) = Inr (run_id rn) \<and> run_status rn = OPEN
     \<and> is_authorized srv rn (crq_actor_user_id q)
     \<and> u \<in> basket_users (w_db w) (run_id rn) \<and> crr_runner_user_id res = uuid_str u
     \<and> runs (w_db w') = map (\<lambda>x. if x = rn then closed_run rn u (crr_closed_at res) else x) (runs (w_db w))
     \<and> orders (w_db w') = map (\<lambda>o'. if active_in (run_id rn) o' then finalized (crr_closed_at res) o' else o')
          (orders (w_db w))
     \<and> served (w_db w') = (\<lambda>c v. if c = run_channel_id rn \<and> v = u then served (w_db w) c v + 1 else served (w_db w) c v)
     \<and> basket (w_db w') = basket (w_db w)
     \<and> users (w_db w') = users (w_db w) \<and> channels (w_db w') = channels (w_db w)
     \<and> user_preferences (w_db w') = user_preferences (w_db w)
     \<and> channel_admin_actions (w_db w') = channel_admin_actions (w_db w)
     \<and> schema_ok (w_db w')"
proof -
  have fresh: "fresh_draws (length (orders (w_db w)) + 0) w" using assms(2) by simp
  show ?thesis
  proof (rule close_run_view [OF assms(1) fresh assms(3)])
    fix rn u t
    assume rn: "close_get_run (crq_run_id q) w = (Inr rn, w)" "run_status rn = OPEN"
        "is_authorized srv rn (crq_actor_user_id q)"
      and u: "u \<in> basket_users (w_db w) (run_id rn)" "crr_runner_user_id res = uuid_str u" "crr_closed_at res = t"
      and rows: "runs (w_db w') = map (\<lambda>x. if x = rn then closed_run rn u t else x) (runs (w_db w))"
        "orders (w_db w') = map (\<lambda>o'. if active_in (run_id rn) o' then finalized t o' else o') (orders (w_db w))"
      and rest: "served (w_db w') = (\<lambda>c' v. if c' = run_channel_id rn \<and> v = u then served (w_db w) c' v + 1 else served (w_db w) c' v)"
        "users (w_db w') = users (w_db w) \<and> channels (w_db w') = channels (w_db w)
      \<and> user_preferences (w_db w') = user_preferences (w_db w)
      \<and> channel_admin_actions (w_db w') = channel_admin_actions (w_db w)" "schema_ok (w_db w')"
    show ?thesis
      using rn u rows rest basket_finalized [OF rows(2)]
      by (intro exI [of _ rn] exI [of _ u]) (auto simp: close_get_run_Inr dest: lookup_by_Some)
  qed
qed

theorem close_run_closes_witness:
  "\<exists>res w' u. close_run fx_closing fx_close fx_world = (Inr res, w')
     \<and> u \<in> basket_users (w_db fx_world) 20 \<and> crr_runner_user_id res = uuid_str u"
proof -
  obtain res w' where run: "close_run fx_closing fx_close fx_world = (Inr res, w')"
    using fx_close_returns by blast
  have "fresh_draws (length (orders (w_db fx_world))) fx_world" using fx_fresh_close by simp
  from close_run_closes [OF fx_schema_ok this run] show ?thesis
  proof (elim exE conjE)
    fix rn u
    assume "as_uuid (Text (crq_run_id fx_close)) = Inr (run_id rn)" "u \<in> basket_users (w_db fx_world) (run_id rn)"
      "crr_runner_user_id res = uuid_str u"
    with run show ?thesis by (auto simp: fx_close_def)
  qed
qed

text \<open>
  Property C15. Whether a close returns is decided by the database alone, and a refused close leaves the
  world as it was: an id that is no UUID, an unknown run, a run that is not open, an actor that is not
  authorized, a run without active orders, in this order. With the constraints of the database no other
  refusal is possible: the missing channel and the missing runner of the code are never met.
\<close>

theorem close_run_decision:
  assumes "schema_ok (w_db w)"
  shows "case close_refusal srv q (w_db w) of
       Some e \<Rightarrow> close_run srv q w = (Inl e, w)
     | None \<Rightarrow> (\<exists>res w'. close_run srv q w = (Inr res, w'))"
proof (cases "close_refusal srv q (w_db w)")
  case (Some e)
  then show ?thesis using close_run_refused [OF assms Some] by simp
next
  case None
  then obtain rn where "close_get_run (crq_run_id q) w = (Inr rn, w)" "run_status rn = OPEN"
    "is_authorized srv rn (crq_actor_user_id q)" "filter (active_in (run_id rn)) (orders (w_db w)) \<noteq> []"
    using close_refusal_None [OF assms] by blast
  then have "\<exists>res w'. close_run srv q w = (Inr res, w')"
    by (rule close_run_returns [OF assms])
  with None show ?thesis by simp
qed

theorem close_run_decision_witness:
  "close_run fx_closing (fx_close\<lparr>crq_run_id := uuid_str 21\<rparr>) fx_world
   = (Inl (RunCloseError (run_close_error.RunNotOpenError (''Run '' @ uuid_str 21 @ '' is not open.''))), fx_world)"
proof -
  have "close_refusal fx_closing (fx_close\<lparr>crq_run_id := uuid_str 21\<rparr>) (w_db fx_world)
    = Some (RunCloseError (run_close_error.RunNotOpenError (''Run '' @ uuid_str 21 @ '' is not open.'')))"
    by (simp add: close_refusal_def fx_close_def fx_defs lookup_by_def)
  with close_run_decision [OF fx_schema_ok, of fx_closing "fx_close\<lparr>crq_run_id := uuid_str 21\<rparr>"]
  show ?thesis by (simp split: option.splits)
qed


text \<open>The run of a close, as a look-up finds it afterwards.\<close>

lemma closed_lookup:
  assumes "distinct (map run_id rs)" and "lookup_by run_id r rs = Some rn"
  shows "lookup_by run_id r (map (\<lambda>x. if x = rn then closed_run rn u t else x) rs) = Some (closed_run rn u t)"
  using assms(2) by (subst lookup_by_map) (auto simp: closed_run_def)

lemma closed_run_refuses:
  assumes ok: "schema_ok (w_db w)" and fresh: "fresh_draws (length (orders (w_db w))) w"
    and run: "close_run srv q w = (Inr res, w')" and again: "crq_run_id q' = crq_run_id q"
    and late: "req_run_id rq = crq_run_id q"
  shows "close_run srv' q' w' = (Inl (RunCloseError (run_close_error.RunNotOpenError
            (''Run '' @ crq_run_id q @ '' is not open.''))), w')
     \<and> submit_order v rq w' = (Inl (OrderError (order_error.RunNotOpenError
            (''Run '' @ crq_run_id q @ '' is not open for orders.''))), w')
     \<and> use_last_order v (crq_run_id q) uid w' = (Inl (OrderError (order_error.RunNotOpenError
            (''Run '' @ crq_run_id q @ '' is not open for orders.''))), w')
     \<and> cancel_order (crq_run_id q) uid w' = (Inl (OrderError (order_error.RunNotOpenError
            (''Run '' @ crq_run_id q @ '' is not open for orders.''))), w')"
proof -
  have fresh': "fresh_draws (length (orders (w_db w)) + 0) w" using fresh by simp
  show ?thesis
  proof (rule close_run_view [OF ok fresh' run])
    fix rn u t
    assume rn: "close_get_run (crq_run_id q) w = (Inr rn, w)"
      and runs': "runs (w_db w') = map (\<lambda>x. if x = rn then closed_run rn u t else x) (runs (w_db w))"
    have dist: "distinct (map run_id (runs (w_db w)))" using ok by (simp add: schema_defs)
    obtain r where r: "as_uuid (Text (crq_run_id q)) = Inr r" "lookup_by run_id r (runs (w_db w)) = Some rn"
      using rn by (auto simp: close_get_run_Inr)
    have found: "lookup_by run_id r (runs (w_db w')) = Some (closed_run rn u t)"
      unfolding runs' by (rule closed_lookup [OF dist r(2)])
    have status: "run_status (closed_run rn u t) = CLOSED" by (simp add: closed_run_def)
    have get: "close_get_run (crq_run_id q) w' = (Inr (closed_run rn u t), w')"
      using r(1) found by (simp add: close_get_run_Inr)
    have closed: "get_open_run (Text (crq_run_id q)) w' = (Inl (OrderError (order_error.RunNotOpenError
            (''Run '' @ crq_run_id q @ '' is not open for orders.''))), w')"
      using r(1) found status by (simp add: get_open_run_run get_run_run del: as_uuid.simps)
    have "close_run srv' q' w' = (Inl (RunCloseError (run_close_error.RunNotOpenError
            (''Run '' @ crq_run_id q @ '' is not open.''))), w')"
      using get status again by (simp add: close_run_def op_simps)
    moreover have "submit_order v rq w' = (Inl (OrderError (order_error.RunNotOpenError
            (''Run '' @ crq_run_id q @ '' is not open for orders.''))), w')"
      using closed late by (simp add: submit_order_run)
    moreover have "use_last_order v (crq_run_id q) uid w' = (Inl (OrderError (order_error.RunNotOpenError
            (''Run '' @ crq_run_id q @ '' is not open for orders.''))), w')"
      using closed by (simp add: use_last_order_run)
    moreover have "cancel_order (crq_run_id q) uid w' = (Inl (OrderError (order_error.RunNotOpenError
            (''Run '' @ crq_run_id q @ '' is not open for orders.''))), w')"
      using closed by (simp add: cancel_order_run)
    ultimately show ?thesis by simp
  qed
qed

lemma sorted_first: "sorted (map f xs) \<Longrightarrow> sorted (map (fst \<circ> f) xs)"
  by (induction xs) (auto simp: less_eq_prod_def)

lemma basket_active:
  assumes "rows_ok order_id order_key (orders d)"
  shows "basket d (r, u) = Some txt \<longleftrightarrow> (\<exists>o' \<in> set (orders d). active_in r o' \<and> order_user_id o' = u \<and> order_text o' = txt)"
proof
  assume "basket d (r, u) = Some txt"
  then show "\<exists>o' \<in> set (orders d). active_in r o' \<and> order_user_id o' = u \<and> order_text o' = txt"
    by (auto simp: basket_def active_in_def order_key_def dest!: lookup_by_Some split: option.splits if_splits)
next
  assume "\<exists>o' \<in> set (orders d). active_in r o' \<and> order_user_id o' = u \<and> order_text o' = txt"
  then obtain o' where o': "o' \<in> set (orders d)" "active_in r o'" "order_user_id o' = u" "order_text o' = txt" by blast
  then have "lookup_by order_key (r, u) (orders d) = Some o'"
    using lookup_by_in [of order_key "orders d" o'] assms
    by (auto simp: rows_ok_def order_key_def active_in_def)
  then show "basket d (r, u) = Some txt"
    using o' by (simp add: basket_def active_in_def)
qed

text \<open>
  Property C17. The summary of a close is the basket of the run: its participants are exactly the users
  with an active order, each once, with the text of their order and the name of their user row; they
  are sorted by name, and the total is their number.
\<close>

theorem close_run_summary:
  assumes ok: "schema_ok (w_db w)" and fresh: "fresh_draws (length (orders (w_db w))) w"
    and run: "close_run srv q w = (Inr res, w')"
  shows "\<exists>r. as_uuid (Text (crq_run_id q)) = Inr r
     \<and> (\<forall>u ot. (\<exists>p \<in> set (sum_participants (crr_summary res)). part_user_id p = uuid_str u \<and> part_order_text p = ot)
           \<longleftrightarrow> basket (w_db w) (r, u) = Some ot)
     \<and> (\<forall>p \<in> set (sum_participants (crr_summary res)). \<exists>us \<in> set (users (w_db w)).
           part_user_id p = uuid_str (user_id us) \<and> part_display_name p = user_display_name us)
     \<and> distinct (map part_user_id (sum_participants (crr_summary res)))
     \<and> sorted (map (collation srv \<circ> part_display_name) (sum_participants (crr_summary res)))
     \<and> sum_total_orders (crr_summary res) = card (basket_users (w_db w) r)"
proof -
  have fresh': "fresh_draws (length (orders (w_db w)) + 0) w" using fresh by simp
  have rows: "rows_ok order_id order_key (orders (w_db w))" using ok by (simp add: schema_defs)
  show ?thesis
  proof (rule close_run_view [OF ok fresh' run])
    fix rn :: run
    let ?r = "run_id rn" and ?os = "active_orders srv (run_id rn) (w_db w)"
    assume rn: "close_get_run (crq_run_id q) w = (Inr rn, w)"
      and ps: "sum_participants (crr_summary res) = map participant ?os"
      and total: "sum_total_orders (crr_summary res) = length ?os"
    have id: "as_uuid (Text (crq_run_id q)) = Inr ?r"
      using rn by (auto simp: close_get_run_Inr dest: lookup_by_Some)
    note fst_os = active_fst(1) [OF ok, of srv ?r]
    have texts: "(\<exists>p \<in> set (map participant ?os). part_user_id p = uuid_str u \<and> part_order_text p = ot)
        \<longleftrightarrow> basket (w_db w) (?r, u) = Some ot" for u ot
    proof -
      have "(\<exists>p \<in> set (map participant ?os). part_user_id p = uuid_str u \<and> part_order_text p = ot)
          \<longleftrightarrow> (\<exists>o' \<in> fst ` set ?os. order_user_id o' = u \<and> order_text o' = ot)"
        by (auto simp: participant_def)
      then show ?thesis using basket_active [OF rows, of ?r u ot] fst_os by auto
    qed
    have joined: "snd x \<in> set (users (w_db w)) \<and> user_id (snd x) = order_user_id (fst x)" if "x \<in> set ?os" for x
      using that joined_orders_fst(2) [OF ok, of ?r] by (simp add: active_orders_def)
    then have names: "\<forall>p \<in> set (map participant ?os). \<exists>us \<in> set (users (w_db w)).
        part_user_id p = uuid_str (user_id us) \<and> part_display_name p = user_display_name us"
      by (auto simp: participant_def simp del: split_paired_All intro!: bexI [where x = "snd x" for x])
    have len: "length ?os = length (filter (active_in ?r) (orders (w_db w)))"
      using arg_cong [OF joined_orders_fst(1) [OF ok, of ?r], of length] by (simp add: active_orders_def)
    then have count: "length ?os = card (basket_users (w_db w) ?r)"
      using active_count [OF rows] by simp
    have "set (map part_user_id (map participant ?os)) = uuid_str ` basket_users (w_db w) ?r"
      unfolding active_users [OF rows, symmetric] fst_os [symmetric] by (force simp: participant_def)
    moreover have "card (uuid_str ` basket_users (w_db w) ?r) = card (basket_users (w_db w) ?r)"
      by (rule card_image) (simp add: inj_on_def)
    ultimately have "distinct (map part_user_id (map participant ?os))"
      using count by (intro card_distinct) simp
    moreover have "sorted (map (collation srv \<circ> part_display_name) (map participant ?os))"
    proof -
      have "sorted (map (participant_key (collation srv)) ?os)" by (simp add: active_orders_def)
      then have "sorted (map (fst \<circ> participant_key (collation srv)) ?os)" by (rule sorted_first)
      then show ?thesis by (simp add: comp_def participant_key_def participant_def)
    qed
    ultimately show ?thesis
      using id texts names count total ps by (intro exI [of _ ?r]) simp
  qed
qed


theorem close_run_summary_witness:
  "\<exists>res w'. close_run fx_closing fx_close fx_world = (Inr res, w')
     \<and> (\<exists>p \<in> set (sum_participants (crr_summary res)). part_user_id p = uuid_str 3 \<and> part_order_text p = ''mocha'')"
proof -
  obtain res w' where run: "close_run fx_closing fx_close fx_world = (Inr res, w')"
    using fx_close_returns by blast
  have "fresh_draws (length (orders (w_db fx_world))) fx_world" using fx_fresh_close by simp
  from close_run_summary [OF fx_schema_ok this run] show ?thesis
  proof (elim exE conjE)
    fix r
    assume "as_uuid (Text (crq_run_id fx_close)) = Inr r"
      and ps: "\<forall>u ot. (\<exists>p \<in> set (sum_participants (crr_summary res)). part_user_id p = uuid_str u \<and> part_order_text p = ot)
           \<longleftrightarrow> basket (w_db fx_world) (r, u) = Some ot"
    then have "r = 20" by (simp add: fx_close_def)
    moreover have "basket (w_db fx_world) (20, 3) = Some ''mocha''"
      by (simp add: fx_defs basket_def lookup_by_def order_key_def)
    ultimately show ?thesis using run ps by blast
  qed
qed

lemma previous_runner_latest:
  assumes dist: "distinct (map run_id rs)" and rn: "rn \<in> set rs"
    and rs': "runs d = map (\<lambda>x. if x = rn then closed_run rn u t else x) rs"
    and later: "\<forall>x \<in> set rs. \<forall>t'. run_closed_at x = Some t' \<longrightarrow> t' < t"
    and rn2: "run_channel_id rn2 = run_channel_id rn" "run_id rn2 \<noteq> run_id rn"
  shows "previous_runner rn2 d = Some u"
proof -
  have mine: "closed_run rn u t \<in> set (earlier_runs rn2 d)"
    using rn rn2 by (force simp: earlier_runs_def rs' closed_run_def)
  then have "earlier_runs rn2 d \<noteq> []" by auto
  from previous_run.pick_some [OF this] obtain x where
    x: "py_min_by latest_first (earlier_runs rn2 d) = Some x" by blast
  have "latest_first x \<le> latest_first (closed_run rn u t)"
    by (rule previous_run.pick_least [OF x mine])
  moreover have "x \<in> set (earlier_runs rn2 d)" by (rule previous_run.pick_in [OF x])
  ultimately have "x = closed_run rn u t"
    using later by (force simp: earlier_runs_def rs' latest_first_def closed_run_def)
  with x show ?thesis by (simp add: previous_runner_def closed_run_def)
qed

text \<open>
  Property C18. Consecutive runs rotate: when a run of a channel is closed and then another run of the
  same channel is closed without allowing an immediate repeat, the second runner is not the first one,
  unless the first runner is the only participant of the second run. The clock must not read, during
  the first close, a time at or before that of an earlier close.
\<close>

theorem consecutive_runs_rotate:
  assumes ok: "schema_ok (w_db w)"
    and fresh: "fresh_draws (length (orders (w_db w)) + length (orders (w_db w))) w"
    and clock: "\<forall>x \<in> set (runs (w_db w)). \<forall>t k. run_closed_at x = Some t \<longrightarrow> w_ticks w \<le> k \<longrightarrow> t < w_clock w k"
    and first: "close_run srv q w = (Inr res, w')"
    and second: "close_run srv' q' w' = (Inr res', w'')"
    and same_channel: "crr_channel_id res' = crr_channel_id res"
    and repeat: "\<not> crq_allow_immediate_repeat q'"
    and others: "\<exists>p \<in> set (sum_participants (crr_summary res')). part_user_id p \<noteq> crr_runner_user_id res"
  shows "crr_runner_user_id res' \<noteq> crr_runner_user_id res"
proof (rule close_run_view [OF ok fresh first])
  fix rn u t
  assume rn: "close_get_run (crq_run_id q) w = (Inr rn, w)"
    and runs1: "runs (w_db w') = map (\<lambda>x. if x = rn then closed_run rn u t else x) (runs (w_db w))"
    and orders1: "orders (w_db w') = map (\<lambda>o'. if active_in (run_id rn) o' then finalized t o' else o') (orders (w_db w))"
    and ok1: "schema_ok (w_db w')" and time: "\<exists>k. t = w_clock w k \<and> w_ticks w \<le> k \<and> k < w_ticks w'"
    and res: "crr_runner_user_id res = uuid_str u" "crr_channel_id res = uuid_str (run_channel_id rn)"
    and fresh1: "fresh_draws (length (orders (w_db w))) w'"
  have rn_in: "rn \<in> set (runs (w_db w))" using rn by (auto simp: close_get_run_Inr dest: lookup_by_Some)
  have dist: "distinct (map run_id (runs (w_db w)))" "distinct (map run_id (runs (w_db w')))"
    using ok ok1 by (auto simp: schema_defs)
  have "fresh_draws (length (orders (w_db w')) + 0) w'" using fresh1 orders1 by simp
  then show ?thesis
  proof (rule close_run_view [OF ok1 _ second])
    fix rn2 :: run and u2
    let ?us = "map (order_user_id \<circ> fst) (active_orders srv' (run_id rn2) (w_db w'))"
    assume rn2: "close_get_run (crq_run_id q') w' = (Inr rn2, w')" "run_status rn2 = OPEN"
      and el: "u2 \<in> eligible (crq_allow_immediate_repeat q') (previous_runner rn2 (w_db w')) ?us"
      and res2: "crr_runner_user_id res' = uuid_str u2" "crr_channel_id res' = uuid_str (run_channel_id rn2)"
        "sum_participants (crr_summary res') = map participant (active_orders srv' (run_id rn2) (w_db w'))"
    have rn2_in: "rn2 \<in> set (runs (w_db w'))" using rn2(1) by (auto simp: close_get_run_Inr dest: lookup_by_Some)
    have mine: "closed_run rn u t \<in> set (runs (w_db w'))" using rn_in by (force simp: runs1)
    have "run_id rn2 \<noteq> run_id rn"
    proof
      assume "run_id rn2 = run_id rn"
      then have "rn2 = closed_run rn u t"
        by (intro distinct_map_eq [OF dist(2) rn2_in mine]) (simp add: closed_run_def)
      with rn2(2) show False by (simp add: closed_run_def)
    qed
    moreover have "run_channel_id rn2 = run_channel_id rn" using same_channel res(2) res2(2) by simp
    moreover have "\<forall>x \<in> set (runs (w_db w)). \<forall>t'. run_closed_at x = Some t' \<longrightarrow> t' < t"
      using clock time by blast
    ultimately have "previous_runner rn2 (w_db w') = Some u"
      by (intro previous_runner_latest [OF dist(1) rn_in runs1]) auto
    then have el': "u2 \<in> eligible False (Some u) ?us" using el repeat by simp
    obtain v where v: "v \<in> set ?us" "v \<noteq> u"
      using others res(1) res2(3) by (force simp: participant_def)
    have "u \<in> set ?us \<Longrightarrow> card (set ?us) > 1"
    proof -
      assume "u \<in> set ?us"
      then have "card {u, v} \<le> card (set ?us)" using v(1) by (intro card_mono) auto
      then show ?thesis using v(2) by simp
    qed
    then have "u2 \<noteq> u" using el' by (auto simp: eligible_def split: if_splits)
    then show ?thesis using res(1) res2(1) by simp
  qed
qed


definition fx_two_runs :: world where
  "fx_two_runs = fx_world\<lparr>w_db := fx_db\<lparr>orders := [fx_order 30 20 2 ''tea'', fx_order 31 20 3 ''mocha'',
     fx_order 32 22 3 ''latte'', fx_order 33 22 2 ''tea'']\<rparr>\<rparr>"

lemma fx_two_runs_ok: "schema_ok (w_db fx_two_runs)"
  by (simp add: fx_two_runs_def fx_defs schema_defs rows_ok_def order_key_def pref_key_def stat_key_def
      channel_checks_def Let_def)

lemma fx_two_runs_fresh: "fresh_draws (length (orders (w_db fx_two_runs)) + length (orders (w_db fx_two_runs))) fx_two_runs"
  by (simp add: fx_two_runs_def fx_defs fresh_draws_def ids_in_use_def upt_rec Let_def)

theorem consecutive_runs_rotate_witness:
  "\<exists>res w' res' w''. close_run fx_closing fx_close fx_two_runs = (Inr res, w')
     \<and> close_run fx_closing (fx_close\<lparr>crq_run_id := uuid_str 22\<rparr>) w' = (Inr res', w'')
     \<and> crr_runner_user_id res' \<noteq> crr_runner_user_id res"
proof -
  let ?q2 = "fx_close\<lparr>crq_run_id := uuid_str 22\<rparr>" and ?w = fx_two_runs
  let ?rn = "fx_run 20 OPEN None None" and ?rn2 = "fx_run 22 OPEN None None"
  have rn: "close_get_run (crq_run_id fx_close) ?w = (Inr ?rn, ?w)"
    by (simp add: close_get_run_Inr fx_close_def fx_two_runs_def fx_defs lookup_by_def)
  have "filter (active_in (run_id ?rn)) (orders (w_db ?w)) \<noteq> []"
    by (simp add: fx_two_runs_def fx_order_def fx_run_def active_in_def)
  then obtain res w' where first: "close_run fx_closing fx_close ?w = (Inr res, w')"
    using close_run_returns [OF fx_two_runs_ok rn, of fx_closing]
    by (auto simp: fx_closing_def fx_close_def fx_run_def)
  show ?thesis
  proof (rule close_run_view [OF fx_two_runs_ok fx_two_runs_fresh first])
    fix rn' u t
    assume rn': "close_get_run (crq_run_id fx_close) ?w = (Inr rn', ?w)"
      and runs1: "runs (w_db w') = map (\<lambda>x. if x = rn' then closed_run rn' u t else x) (runs (w_db ?w))"
      and orders1: "orders (w_db w') = map (\<lambda>o'. if active_in (run_id rn') o' then finalized t o' else o') (orders (w_db ?w))"
      and ok1: "schema_ok (w_db w')" and res: "crr_runner_user_id res = uuid_str u"
        "crr_channel_id res = uuid_str (run_channel_id rn')"
      and fresh1: "fresh_draws (length (orders (w_db ?w))) w'"
    have [simp]: "rn' = ?rn" using rn rn' by simp
    have rn2: "close_get_run (crq_run_id ?q2) w' = (Inr ?rn2, w')"
      by (simp add: close_get_run_Inr runs1 fx_two_runs_def fx_db_def fx_run_def closed_run_def lookup_by_def)
    have os2: "filter (active_in (run_id ?rn2)) (orders (w_db w')) = [fx_order 32 22 3 ''latte'', fx_order 33 22 2 ''tea'']"
      by (simp add: orders1 fx_two_runs_def fx_order_def fx_run_def active_in_def finalized_def)
    then obtain res' w'' where second: "close_run fx_closing ?q2 w' = (Inr res', w'')"
      using close_run_returns [OF ok1 rn2, of fx_closing]
      by (auto simp: fx_closing_def fx_close_def fx_run_def)
    have "fresh_draws (length (orders (w_db w')) + 0) w'" using fresh1 orders1 by simp
    then show ?thesis
    proof (rule close_run_view [OF ok1 _ second])
      fix rn2' :: run
      let ?os = "active_orders fx_closing (run_id rn2') (w_db w')"
      assume "close_get_run (crq_run_id ?q2) w' = (Inr rn2', w')"
        and res': "crr_channel_id res' = uuid_str (run_channel_id rn2')"
          "sum_participants (crr_summary res') = map participant ?os"
      then have [simp]: "rn2' = ?rn2" using rn2 by simp
      have "fst ` set ?os = set (filter (active_in (run_id ?rn2)) (orders (w_db w')))"
        using active_fst(1) [OF ok1] by simp
      moreover have "part_user_id ` set (map participant ?os) = (uuid_str \<circ> order_user_id) ` fst ` set ?os"
        by (simp add: image_image participant_def)
      ultimately have "part_user_id ` set (map participant ?os) = {uuid_str 3, uuid_str 2}"
        unfolding os2 by (simp add: fx_order_def)
      then have "uuid_str 2 \<in> part_user_id ` set (map participant ?os)" "uuid_str 3 \<in> part_user_id ` set (map participant ?os)"
        by simp_all
      then obtain p2 p3 where p: "p2 \<in> set (map participant ?os)" "part_user_id p2 = uuid_str 2"
          "p3 \<in> set (map participant ?os)" "part_user_id p3 = uuid_str 3"
        by (elim imageE) auto
      have others: "\<exists>p \<in> set (sum_participants (crr_summary res')). part_user_id p \<noteq> crr_runner_user_id res"
      proof (cases "crr_runner_user_id res = uuid_str 2")
        case True
        then show ?thesis unfolding res'(2) using p(3,4) by (intro bexI [of _ p3]) simp_all
      next
        case False
        then show ?thesis unfolding res'(2) using p(1,2) by (intro bexI [of _ p2]) simp_all
      qed
      have "crr_runner_user_id res' \<noteq> crr_runner_user_id res"
        by (rule consecutive_runs_rotate [OF fx_two_runs_ok fx_two_runs_fresh _ first second _ _ others])
          (auto simp: fx_two_runs_def fx_defs fx_close_def res'(1) res(2))
      with first second show ?thesis by blast
    qed
  qed
qed

end
