(* ===== verification/Overlap.thy ===== *)
theory Overlap
  imports CloseRun
begin

text \<open>
  A close and the calls that come after it or are under way while it commits. A call that starts later is
  refused. A call that has made its checks already goes on with the run it has read: nothing locks the row. What is left
  of it is run here on the world the close has left.
\<close>

section \<open>A submission under way\<close>

text \<open>A submission whose checks were made before the close writes after it: what is left of it looks at the identifiers only.\<close>

lemma persist_order_ids:
  assumes "run_id rn' = run_id rn" and "run_channel_id rn' = run_channel_id rn"
  shows "persist_order rn' us t c p = persist_order rn us t c p"
  by (simp only: persist_order_def assms)

lemma late_order_stored:
  assumes ok: "schema_ok (w_db w)" and fresh: "fresh_draws (length (orders (w_db w))) w"
    and run: "close_run srv q w = (Inr res, w')"
    and rn: "get_open_run (Text (crq_run_id q)) w = (Inr rn, w)" and us: "get_user (Text uid) w = (Inr us, w)"
    and fresh': "fresh_draws 2 w'"
  shows "\<exists>res' w2. persist_order rn us t c p w' = (Inr res', w2)
     \<and> basket (w_db w2) = (basket (w_db w'))((run_id rn, user_id us) \<mapsto> t)
     \<and> (\<exists>x. lookup_by run_id (run_id rn) (runs (w_db w2)) = Some x \<and> run_status x = CLOSED)"
proof -
  have fresh0: "fresh_draws (length (orders (w_db w)) + 0) w" using fresh by simp
  show ?thesis
  proof (rule close_run_view [OF ok fresh0 run])
    fix rn' u t'
    assume rn': "close_get_run (crq_run_id q) w = (Inr rn', w)"
      and runs': "runs (w_db w') = map (\<lambda>x. if x = rn' then closed_run rn' u t' else x) (runs (w_db w))"
      and same: "users (w_db w') = users (w_db w) \<and> channels (w_db w') = channels (w_db w)
        \<and> user_preferences (w_db w') = user_preferences (w_db w)
        \<and> channel_admin_actions (w_db w') = channel_admin_actions (w_db w)"
      and ok': "schema_ok (w_db w')"
    have dist: "distinct (map run_id (runs (w_db w)))" using ok by (simp add: schema_defs)
    have "rn' = rn"
      using rn rn' by (auto simp: close_get_run_Inr get_open_run_Inr)
    then have found: "lookup_by run_id (run_id rn) (runs (w_db w')) = Some (closed_run rn u t')"
      using open_run_in [OF rn] closed_lookup [OF dist] unfolding runs' by blast
    then have mem: "closed_run rn u t' \<in> set (runs (w_db w'))" by (auto dest: lookup_by_Some)
    have us': "us \<in> set (users (w_db w'))" using user_in [OF us] same by simp
    have ids: "run_id (closed_run rn u t') = run_id rn" "run_channel_id (closed_run rn u t') = run_channel_id rn"
      by (simp_all add: closed_run_def)
    obtain res' w2 where w2: "persist_order (closed_run rn u t') us t c p w' = (Inr res', w2)"
      using persist_order_returns by blast
    note facts = persist_order_facts [OF ok' fresh' mem us' w2]
    have "run_status (closed_run rn u t') = CLOSED" by (simp add: closed_run_def)
    then show ?thesis
      using w2 facts(1,4) found unfolding persist_order_ids [OF ids] ids
      by (intro exI [of _ res'] exI [of _ w2]) simp
  qed
qed

section \<open>What does not look at the runs\<close>

text \<open>Operations that neither read nor write the table of runs commute with any other content of it.\<close>

definition with_runs :: "run list \<Rightarrow> world \<Rightarrow> world" where
  "with_runs R w = w\<lparr>w_db := (w_db w)\<lparr>runs := R\<rparr>\<rparr>"

definition ignores_runs :: "(world, exn, 'a) op \<Rightarrow> bool" where
  "ignores_runs f \<longleftrightarrow> (\<forall>R w. f (with_runs R w) = apsnd (with_runs R) (f w))"

named_theorems ignoring "operations that ignore the table of runs"

lemma ignores_bind [ignoring]: "ignores_runs f \<Longrightarrow> (\<And>x. ignores_runs (g x)) \<Longrightarrow> ignores_runs (bindE f g)"
  by (auto simp: ignores_runs_def bindE_def split: prod.splits sum.splits)

lemma ignores_simple [ignoring]:
  "ignores_runs (returnE x)" "ignores_runs (raiseE e)" "ignores_runs (liftE r)" "ignores_runs now" "ignores_runs new_uuid"
  "ignores_runs (the_uuid i)"
  by (simp_all add: ignores_runs_def with_runs_def op_simps now_def new_uuid_def the_uuid_def)

lemma ignores_query [ignoring]: "(\<And>d R. g (d\<lparr>runs := R\<rparr>) = g d) \<Longrightarrow> ignores_runs (query g)"
  by (simp add: ignores_runs_def with_runs_def query_def op_simps)

lemma ignores_change [ignoring]: "(\<And>d R. g (d\<lparr>runs := R\<rparr>) = (g d)\<lparr>runs := R\<rparr>) \<Longrightarrow> ignores_runs (change g)"
  by (simp add: ignores_runs_def with_runs_def change_def op_simps)

lemma ignores_add_missing [ignoring]: "ignores_runs (add_missing c ps st)"
  by (induction c ps st rule: add_missing.induct) (auto simp: Let_def intro!: ignoring)

lemma ignores_assign_runner: "ignores_runs (assign_runner c us l allow)"
  unfolding assign_runner_def load_stats_def Let_def
  by (auto intro!: ignoring split: option.splits)

lemma ignored_run:
  assumes "ignores_runs f" and "f w = (r, w1)"
  shows "f (with_runs R w) = (r, with_runs R w1)" and "runs (w_db w1) = runs (w_db w)"
proof -
  show "f (with_runs R w) = (r, with_runs R w1)" using assms by (simp add: ignores_runs_def)
  have "with_runs (runs (w_db w)) w = w" by (simp add: with_runs_def)
  then have "f w = apsnd (with_runs (runs (w_db w))) (f w)" using assms(1) unfolding ignores_runs_def by metis
  then have "w1 = with_runs (runs (w_db w)) w1" using assms(2) by simp
  then show "runs (w_db w1) = runs (w_db w)" by (metis with_runs_def world.select_convs(1) world.surjective world.update_convs(1) db.select_convs(3) db.surjective db.update_convs(3))
qed

section \<open>A close under way\<close>

lemma close_after_checks_run: "close_after_checks srv q rn w =
    (case lookup_by channel_id (run_channel_id rn) (channels (w_db w)) of
       None \<Rightarrow> (Inl (RunCloseError (run_close_error.RunNotFoundError
                 (''Channel '' @ uuid_str (run_channel_id rn) @ '' missing for run close.''))), w)
     | Some ch \<Rightarrow>
        let os = active_orders srv (run_id rn) (w_db w) in
        if os = [] then (Inl (RunCloseError (RunnerSelectionError ''Cannot close run without active participant orders.'')), w)
        else (case assign_runner (Text (uuid_str (channel_id ch))) (map (\<lambda>x. Text (uuid_str (order_user_id (fst x)))) os)
                (map_option uuid_str (previous_runner rn (w_db w))) (crq_allow_immediate_repeat q) w of
            (Inl e, w1) \<Rightarrow> (Inl e, w1)
          | (Inr dec, w1) \<Rightarrow> (case as_uuid (Text (dec_runner_user_id dec)) of
                Inl e \<Rightarrow> (Inl e, w1)
              | Inr ru \<Rightarrow> (case lookup_by user_id ru (users (w_db w1)) of
                    None \<Rightarrow> (Inl (RunCloseError (RunnerSelectionError
                       (''Runner '' @ dec_runner_user_id dec @ '' missing from persistence during close.''))), w1)
                  | Some runner \<Rightarrow> let t = w_clock w1 (w_ticks w1) in
                      (Inr \<lparr>crr_run_id = uuid_str (run_id rn), crr_channel_id = uuid_str (channel_id ch),
                         crr_runner_user_id = dec_runner_user_id dec, crr_closed_at = t,
                         crr_summary = \<lparr>sum_run_id = uuid_str (run_id rn), sum_channel_id = uuid_str (channel_id ch),
                           sum_channel_name = channel_name ch, sum_runner_user_id = dec_runner_user_id dec,
                           sum_runner_display_name = user_display_name runner,
                           sum_pickup_time = run_pickup_time rn, sum_pickup_note = run_pickup_note rn,
                           sum_participants = map participant os, sum_total_orders = length os,
                           sum_reminder_offset_minutes = reminder_offset_minutes ch,
                           sum_reminders_enabled = reminders_enabled ch, sum_last_call_enabled = last_call_enabled ch,
                           sum_closed_at = t\<rparr>,
                         crr_fairness_note = dec_rationale dec\<rparr>, close_world rn ru os w1)))))"
  by (simp add: close_after_checks_def close_get_channel_def bindE_def op_simps active_orders_def [symmetric] the_uuid_def
      finalize_run_def snapshot_orders_run close_world_def closed_run_def Let_def split: option.splits sum.splits prod.splits)

text \<open>A stale table of runs does not matter to the rest of a close when the run itself is the only difference.\<close>

lemma close_any_runs:
  assumes run: "close_after_checks srv q rn w = (Inr res, w')"
    and earlier: "earlier_runs rn ((w_db w)\<lparr>runs := R\<rparr>) = earlier_runs rn (w_db w)"
    and same: "\<And>x. run_id x = run_id rn \<Longrightarrow> save_row run_id x R = save_row run_id x (runs (w_db w))"
  shows "close_after_checks srv q rn (with_runs R w) = (Inr res, w')"
proof -
  have views: "active_orders srv r (w_db (with_runs R w)) = active_orders srv r (w_db w)"
    "previous_runner rn (w_db (with_runs R w)) = previous_runner rn (w_db w)" "channels (w_db (with_runs R w)) = channels (w_db w)" for r
    using earlier by (simp_all add: with_runs_def active_orders_def joined_orders_def previous_runner_def)
  have transfer: "assign_runner c us l allow (with_runs R w) = (r, with_runs R w1) \<and> runs (w_db w1) = runs (w_db w)"
    if "assign_runner c us l allow w = (r, w1)" for c us l allow r w1
    using ignored_run [OF ignores_assign_runner that] by blast
  have last: "close_world rn ru os (with_runs R w1) = close_world rn ru os w1" if "runs (w_db w1) = runs (w_db w)" for ru os w1
    using same [of "closed_run rn ru (w_clock w1 (w_ticks w1))"] that
    by (simp add: close_world_def with_runs_def closed_run_def Let_def)
  show ?thesis
    using run transfer last unfolding close_after_checks_run views Let_def
    by (auto split: option.splits if_splits prod.splits sum.splits) (auto simp: with_runs_def)
qed

definition closed_in :: "db \<Rightarrow> uuid \<Rightarrow> nat" where
  "closed_in d c = length (filter (\<lambda>x. run_channel_id x = c \<and> run_status x = CLOSED) (runs d))"

lemma closed_in_map:
  assumes "distinct (map run_id rs)" and "rn \<in> set rs" and "run_status rn = OPEN" and "runs d = rs"
    and "runs d' = map (\<lambda>x. if x = rn then closed_run rn u t else x) rs"
  shows "closed_in d' (run_channel_id rn) = Suc (closed_in d (run_channel_id rn))"
proof -
  have "length (filter P (map (\<lambda>x. if x = rn then closed_run rn u t else x) xs)) = Suc (length (filter P xs))"
    if "distinct xs" "rn \<in> set xs" "\<not> P rn" "P (closed_run rn u t)" for P xs
    using that
  proof (induction xs)
    case (Cons y ys)
    have "map (\<lambda>x. if x = rn then closed_run rn u t else x) ys = ys" if "rn \<notin> set ys"
      using that by (auto intro!: map_idI)
    with Cons show ?case by (cases "y = rn") auto
  qed simp
  moreover have "distinct rs" using assms(1) by (simp add: distinct_map)
  ultimately show ?thesis
    using assms(2-5) by (simp add: closed_in_def closed_run_def)
qed

lemma served_total:
  assumes "served d' = (\<lambda>c' v. if c' = c \<and> v = u then served d c' v + 1 else served d c' v)"
  shows "(\<Sum>v \<in> UNIV. served d' c v) = (\<Sum>v \<in> UNIV. served d c v) + 1"
proof -
  have "served d' c v = served d c v + (if v = u then 1 else 0)" for v by (simp add: assms)
  then show ?thesis by (simp add: sum.distrib sum.delta)
qed

lemma late_close:
  assumes ok: "schema_ok (w_db w)" and fresh: "fresh_draws (length (orders (w_db w)) + length (orders (w_db w))) w"
    and run: "close_run srv q w = (Inr res, w1)" and again: "crq_run_id q' = crq_run_id q"
    and rn: "close_get_run (crq_run_id q') w = (Inr rn, w)" and auth: "is_authorized srv' rn (crq_actor_user_id q')"
  shows "\<exists>res' w2. close_after_checks srv' q' rn w1 = (Inr res', w2)
     \<and> (\<Sum>v \<in> UNIV. served (w_db w2) (run_channel_id rn) v) = (\<Sum>v \<in> UNIV. served (w_db w) (run_channel_id rn) v) + 2
     \<and> closed_in (w_db w2) (run_channel_id rn) = Suc (closed_in (w_db w) (run_channel_id rn))"
proof (rule close_run_view [OF ok fresh run])
  fix rn0 u t
  assume rn0: "close_get_run (crq_run_id q) w = (Inr rn0, w)" "run_status rn0 = OPEN"
    and u: "u \<in> basket_users (w_db w) (run_id rn0)"
    and rs: "runs (w_db w1) = map (\<lambda>x. if x = rn0 then closed_run rn0 u t else x) (runs (w_db w))"
    and os: "orders (w_db w1) = map (\<lambda>o'. if active_in (run_id rn0) o' then finalized t o' else o') (orders (w_db w))"
    and served1: "served (w_db w1) = (\<lambda>c' v. if c' = run_channel_id rn0 \<and> v = u then served (w_db w) c' v + 1 else served (w_db w) c' v)"
    and ok1: "schema_ok (w_db w1)" and same: "users (w_db w1) = users (w_db w) \<and> channels (w_db w1) = channels (w_db w)
      \<and> user_preferences (w_db w1) = user_preferences (w_db w)
      \<and> channel_admin_actions (w_db w1) = channel_admin_actions (w_db w)"
    and fresh1: "fresh_draws (length (orders (w_db w))) w1"
  have eq: "rn0 = rn" using rn rn0(1) again by simp
  note rs = rs [unfolded eq] and os = os [unfolded eq] and served1 = served1 [unfolded eq] and opened = rn0(2) [unfolded eq] and u = u [unfolded eq]
  have row: "lookup_by run_id (run_id rn) (runs (w_db w)) = Some rn" using rn by (auto simp: close_get_run_Inr dest: lookup_by_Some)
  then have mem: "rn \<in> set (runs (w_db w))" by (auto dest: lookup_by_Some)
  have dist: "distinct (map run_id (runs (w_db w)))" using ok by (simp add: schema_defs)
  have ids: "map run_id (runs (w_db w1)) = map run_id (runs (w_db w))" by (simp add: rs closed_run_def)
  have only: "x = rn" if "x \<in> set (runs (w_db w))" "run_id x = run_id rn" for x
    using that mem dist by (blast intro: distinct_map_eq)
  define v where "v = with_runs (runs (w_db w)) w1"
  have stale: "w1 = with_runs (runs (w_db w1)) v" by (simp add: v_def with_runs_def)
  have dv: "w_db v = (w_db w1)\<lparr>runs := runs (w_db w)\<rparr>" by (simp add: v_def with_runs_def)
  have id_set: "run_id ` set (runs (w_db w1)) = run_id ` set (runs (w_db w))"
    using ids by (metis set_map)
  have okv: "schema_ok (w_db v)"
    using ok ok1 same id_set ids unfolding schema_ok_def keys_ok_def refs_ok_def checks_ok_def texts_ok_def dv
    by (simp add: Let_def)
  have active: "filter (active_in (run_id rn)) (orders (w_db v)) \<noteq> []"
  proof -
    have "basket (w_db v) = basket (w_db w)" using basket_finalized [OF os] by (simp add: dv basket_def fun_eq_iff)
    then show ?thesis using u active_empty [OF okv, of "run_id rn"] by (auto simp: basket_users_def)
  qed
  have getv: "close_get_run (crq_run_id q') v = (Inr rn, v)" using rn by (simp add: close_get_run_Inr dv)
  obtain res' w2 where closed: "close_run srv' q' v = (Inr res', w2)"
    using close_run_returns [OF okv getv opened auth active] by blast
  then have rest: "close_after_checks srv' q' rn v = (Inr res', w2)"
    by (simp add: close_run_def op_simps getv opened auth)
  have "close_after_checks srv' q' rn (with_runs (runs (w_db w1)) v) = (Inr res', w2)"
  proof (rule close_any_runs [OF rest])
    have "filter P (map (\<lambda>x. if x = rn then closed_run rn u t else x) xs) = filter P xs"
      if "\<not> P rn" "\<not> P (closed_run rn u t)" for P xs
      using that by (induction xs) auto
    then show "earlier_runs rn ((w_db v)\<lparr>runs := runs (w_db w1)\<rparr>) = earlier_runs rn (w_db v)"
      by (simp add: earlier_runs_def dv rs closed_run_def)
    show "save_row run_id x (runs (w_db w1)) = save_row run_id x (runs (w_db v))" if "run_id x = run_id rn" for x
      using only that by (auto simp: save_row_def dv rs closed_run_def)
  qed
  then have late: "close_after_checks srv' q' rn w1 = (Inr res', w2)" by (simp only: stale [symmetric])
  have len: "length (orders (w_db v)) = length (orders (w_db w))" by (simp add: dv os)
  have freshv: "fresh_draws (length (orders (w_db v)) + 0) v"
    unfolding len add_0_right
    by (rule fresh_draws_db [OF fresh1]) (simp_all add: ids_in_use_def id_set dv, simp_all add: v_def with_runs_def)
  show ?thesis
  proof (rule close_run_view [OF okv freshv closed])
    fix rn' u' t'
    assume rn': "close_get_run (crq_run_id q') v = (Inr rn', v)"
      and rs2: "runs (w_db w2) = map (\<lambda>x. if x = rn' then closed_run rn' u' t' else x) (runs (w_db v))"
      and served2: "served (w_db w2) = (\<lambda>c' x. if c' = run_channel_id rn' \<and> x = u' then served (w_db v) c' x + 1 else served (w_db v) c' x)"
    have eq': "rn' = rn" using rn' getv by simp
    have "served (w_db v) = served (w_db w1)" by (simp add: dv served_def fun_eq_iff)
    then have "(\<Sum>x \<in> UNIV. served (w_db w2) (run_channel_id rn) x) = (\<Sum>x \<in> UNIV. served (w_db w) (run_channel_id rn) x) + 2"
      using served_total [OF served2 [unfolded eq']] served_total [OF served1] by simp
    moreover have "runs (w_db v) = runs (w_db w)" by (simp add: dv)
    then have "closed_in (w_db w2) (run_channel_id rn) = Suc (closed_in (w_db w) (run_channel_id rn))"
      using closed_in_map [OF dist mem opened refl, of "w_db w2" u' t'] rs2 eq' by simp
    ultimately show ?thesis using late by blast
  qed
qed

text \<open>
  Property C16. A run is closed once, and a closed run takes no new submissions: after a close that returned,
  another close of the same run (by anybody) and any submission, reuse or cancellation of an order in it raise
  the not-open error and change nothing. Checking and writing are two steps, though, and nothing locks
  the run between them: a submission that had made its checks when the close committed still stores its
  order, and the basket of the closed run changes; and another close that had made its checks closes the run a second
  time, so that one more closed run makes two runs in the statistics.
\<close>

theorem closed_run_is_final:
  assumes "schema_ok (w_db w)" and "fresh_draws (length (orders (w_db w))) w"
    and "close_run srv q w = (Inr res, w')" and "crq_run_id q' = crq_run_id q"
    and "req_run_id rq = crq_run_id q"
  shows "close_run srv' q' w' = (Inl (RunCloseError (run_close_error.RunNotOpenError
            (''Run '' @ crq_run_id q @ '' is not open.''))), w')
     \<and> submit_order v rq w' = (Inl (OrderError (order_error.RunNotOpenError
            (''Run '' @ crq_run_id q @ '' is not open for orders.''))), w')
     \<and> use_last_order v (crq_run_id q) uid w' = (Inl (OrderError (order_error.RunNotOpenError
            (''Run '' @ crq_run_id q @ '' is not open for orders.''))), w')
     \<and> cancel_order (crq_run_id q) uid w' = (Inl (OrderError (order_error.RunNotOpenError
            (''Run '' @ crq_run_id q @ '' is not open for orders.''))), w')
     \<and> (\<forall>rn us t. get_open_run (Text (req_run_id rq)) w = (Inr rn, w) \<longrightarrow> get_user (Text (req_user_id rq)) w = (Inr us, w) \<longrightarrow>
          validate v (req_order_text rq) = Inr t \<longrightarrow> fresh_draws 2 w' \<longrightarrow>
          (\<exists>res' w2. persist_order rn us t (req_confirm rq) (req_provenance rq) w' = (Inr res', w2)
             \<and> basket (w_db w2) = (basket (w_db w'))((run_id rn, user_id us) \<mapsto> t)
             \<and> (\<exists>x. lookup_by run_id (run_id rn) (runs (w_db w2)) = Some x \<and> run_status x = CLOSED)))
     \<and> (\<forall>rn. close_get_run (crq_run_id q') w = (Inr rn, w) \<longrightarrow> is_authorized srv' rn (crq_actor_user_id q') \<longrightarrow>
          fresh_draws (length (orders (w_db w)) + length (orders (w_db w))) w \<longrightarrow>
          (\<exists>res' w2. close_after_checks srv' q' rn w' = (Inr res', w2)
             \<and> (\<Sum>x \<in> UNIV. served (w_db w2) (run_channel_id rn) x) = (\<Sum>x \<in> UNIV. served (w_db w) (run_channel_id rn) x) + 2
             \<and> closed_in (w_db w2) (run_channel_id rn) = Suc (closed_in (w_db w) (run_channel_id rn))))"
  using closed_run_refuses [OF assms] late_order_stored [OF assms(1-3)] late_close [OF assms(1) _ assms(3,4)]
  unfolding assms(5) by blast

theorem closed_run_is_final_witness:
  "\<exists>res w'. close_run fx_closing fx_close fx_world = (Inr res, w')
     \<and> submit_order default_validator fx_request w' = (Inl (OrderError (order_error.RunNotOpenError
            (''Run '' @ uuid_str 20 @ '' is not open for orders.''))), w')
     \<and> (\<exists>res' w2. persist_order (fx_run 20 OPEN None None) (fx_user 1 ''Ann'') ''latte'' True MANUAL w' = (Inr res', w2)
          \<and> basket (w_db w2) (20, 1) = Some ''latte'')
     \<and> (\<exists>res' w2. close_after_checks fx_closing fx_close (fx_run 20 OPEN None None) w' = (Inr res', w2)
          \<and> closed_in (w_db w2) 10 = 2 \<and> (\<Sum>x \<in> UNIV. served (w_db w2) 10 x) = (\<Sum>x \<in> UNIV. served (w_db fx_world) 10 x) + 2)"
proof -
  obtain res w' where run: "close_run fx_closing fx_close fx_world = (Inr res, w')"
    using fx_close_returns by blast
  have fresh: "fresh_draws (length (orders (w_db fx_world))) fx_world" using fx_fresh_close by simp
  have fresh4: "fresh_draws (length (orders (w_db fx_world)) + 2) fx_world"
    by (simp add: fx_defs fresh_draws_def ids_in_use_def upt_rec Let_def)
  then have fresh': "fresh_draws 2 w'"
    by (rule close_run_view [OF fx_schema_ok _ run])
  have two: "length (orders (w_db fx_world)) = 2" by (simp add: fx_defs)
  note facts = closed_run_is_final [OF fx_schema_ok fresh run refl, of fx_request fx_closing default_validator "[]"]
  have checks: "get_open_run (Text (req_run_id fx_request)) fx_world = (Inr (fx_run 20 OPEN None None), fx_world)"
    "get_user (Text (req_user_id fx_request)) fx_world = (Inr (fx_user 1 ''Ann''), fx_world)"
    "validate default_validator (req_order_text fx_request) = Inr ''latte''"
    by (simp_all add: fx_order_simps)
  have same: "req_run_id fx_request = crq_run_id fx_close" by (simp add: fx_close_def fx_request_def)
  have "\<exists>res' w2. persist_order (fx_run 20 OPEN None None) (fx_user 1 ''Ann'') ''latte'' True MANUAL w' = (Inr res', w2)
       \<and> basket (w_db w2) = (basket (w_db w'))((20, 1) \<mapsto> ''latte'')"
    using facts [OF same] checks fresh' by (auto simp: fx_request_def fx_run_def fx_user_def)
  then have "\<exists>res' w2. persist_order (fx_run 20 OPEN None None) (fx_user 1 ''Ann'') ''latte'' True MANUAL w' = (Inr res', w2)
       \<and> basket (w_db w2) (20, 1) = Some ''latte''"
    by (metis fun_upd_same)
  moreover have "submit_order default_validator fx_request w' = (Inl (OrderError (order_error.RunNotOpenError
            (''Run '' @ uuid_str 20 @ '' is not open for orders.''))), w')"
    using facts [OF same] by (simp add: fx_close_def)
  moreover have "\<exists>res' w2. close_after_checks fx_closing fx_close (fx_run 20 OPEN None None) w' = (Inr res', w2)
          \<and> closed_in (w_db w2) 10 = 2 \<and> (\<Sum>x \<in> UNIV. served (w_db w2) 10 x) = (\<Sum>x \<in> UNIV. served (w_db fx_world) 10 x) + 2"
  proof -
    have "close_get_run (crq_run_id fx_close) fx_world = (Inr (fx_run 20 OPEN None None), fx_world)"
      using fx_close_get_run by (simp add: fx_close_def)
    moreover have "is_authorized fx_closing (fx_run 20 OPEN None None) (crq_actor_user_id fx_close)"
      by (simp add: fx_closing_def fx_close_def fx_run_def)
    moreover have "run_channel_id (fx_run 20 OPEN None None) = 10" "closed_in (w_db fx_world) 10 = 1"
      by (simp_all add: closed_in_def fx_defs)
    ultimately show ?thesis
      using facts [OF same, THEN conjunct2, THEN conjunct2, THEN conjunct2, THEN conjunct2, THEN conjunct2] fresh4
      unfolding two by (metis One_nat_def Suc_1)
  qed
  ultimately show ?thesis using run by blast
qed

end
