(* ===== verification/Sharing.thy ===== *)
theory Sharing
  imports CloseRun
begin

text \<open>
  Several runs of a channel closed one after the other by the closing service: the work is shared evenly among the
  participants, whatever the requests say about immediate repeats.
\<close>

section \<open>Closing several runs\<close>

fun close_runs :: "close_run_service \<Rightarrow> close_run_request list \<Rightarrow> (world, exn, close_run_result list) op" where
  "close_runs srv [] = returnE []"
| "close_runs srv (q # qs) = bindE (close_run srv q) (\<lambda>res. bindE (close_runs srv qs) (\<lambda>rest. returnE (res # rest)))"

text \<open>The request is for an open run of the channel, by somebody who may close it, and the users of \<open>A\<close> have ordered in it.\<close>

definition can_close :: "close_run_service \<Rightarrow> uuid \<Rightarrow> uuid set \<Rightarrow> db \<Rightarrow> close_run_request \<Rightarrow> bool" where
  "can_close srv c A d q \<longleftrightarrow> (\<exists>rn \<in> set (runs d). as_uuid (Text (crq_run_id q)) = Inr (run_id rn) \<and> run_status rn = OPEN
     \<and> run_channel_id rn = c \<and> is_authorized srv rn (crq_actor_user_id q) \<and> basket_users d (run_id rn) = A)"

text \<open>The clock runs forward from here, and no run was closed at a time that it will show.\<close>

definition clock_ahead :: "world \<Rightarrow> bool" where
  "clock_ahead w \<longleftrightarrow> (\<forall>j k. w_ticks w \<le> j \<longrightarrow> j < k \<longrightarrow> w_clock w j < w_clock w k)
     \<and> (\<forall>x \<in> set (runs (w_db w)). \<forall>t k. run_closed_at x = Some t \<longrightarrow> w_ticks w \<le> k \<longrightarrow> t < w_clock w k)"

text \<open>
  What every close keeps: the counts differ by at most one, and whoever ran last has the highest, so that leaving them out
  leaves somebody with the lowest.
\<close>

definition even_counts :: "uuid \<Rightarrow> uuid set \<Rightarrow> db \<Rightarrow> bool" where
  "even_counts c A d \<longleftrightarrow> (\<forall>x \<in> A. \<forall>y \<in> A. served d c x \<le> served d c y + 1)
     \<and> (\<forall>rn \<in> set (runs d). run_status rn = OPEN \<longrightarrow> run_channel_id rn = c \<longrightarrow>
          (\<forall>l \<in> A. previous_runner rn d = Some l \<longrightarrow> (\<forall>v \<in> A. served d c v \<le> served d c l)))"

lemma active_participants:
  assumes "schema_ok d"
  shows "set (map (order_user_id \<circ> fst) (active_orders srv r d)) = basket_users d r"
proof -
  have "rows_ok order_id order_key (orders d)" using assms by (simp add: schema_defs)
  moreover have "set (map (order_user_id \<circ> fst) (active_orders srv r d)) = order_user_id ` fst ` set (active_orders srv r d)"
    by (simp add: image_image)
  ultimately show ?thesis using active_users [of d r] active_fst(1) [OF assms, of srv r] by simp
qed

lemma one_close:
  assumes ok: "schema_ok (w_db w)" and fresh: "fresh_draws (length (orders (w_db w)) + n) w" and clock: "clock_ahead w"
    and q: "can_close srv c A (w_db w) q" and u: "A \<noteq> {}" and even: "even_counts c A (w_db w)"
  obtains res w' where "close_run srv q w = (Inr res, w')" and "schema_ok (w_db w')" and "fresh_draws n w'"
    and "length (orders (w_db w')) = length (orders (w_db w))" and "clock_ahead w'" and "even_counts c A (w_db w')"
    and "sum (served (w_db w') c) A = sum (served (w_db w) c) A + 1"
    and "\<forall>q'. as_uuid (Text (crq_run_id q')) \<noteq> as_uuid (Text (crq_run_id q)) \<longrightarrow> can_close srv c A (w_db w) q'
           \<longrightarrow> can_close srv c A (w_db w') q'"
proof -
  let ?d = "w_db w"
  obtain rn where rn_in: "rn \<in> set (runs ?d)" and rn: "as_uuid (Text (crq_run_id q)) = Inr (run_id rn)" "run_status rn = OPEN"
    "run_channel_id rn = c" "is_authorized srv rn (crq_actor_user_id q)" "basket_users ?d (run_id rn) = A"
    using q by (auto simp: can_close_def)
  have dist: "distinct (map run_id (runs ?d))" using ok by (simp add: schema_defs)
  have get: "close_get_run (crq_run_id q) w = (Inr rn, w)"
    using rn(1) lookup_by_in [OF dist rn_in] by (simp add: close_get_run_Inr)
  have "filter (active_in (run_id rn)) (orders ?d) \<noteq> []" using active_empty [OF ok, of "run_id rn"] u rn(5) by simp
  from close_run_returns [OF ok get rn(2,4) this] obtain res w' where run: "close_run srv q w = (Inr res, w')" by blast
  show ?thesis
  proof (rule close_run_view [OF ok fresh run])
    fix rn0 :: run and r t
    let ?us = "map (order_user_id \<circ> fst) (active_orders srv (run_id rn0) ?d)"
    assume get0: "close_get_run (crq_run_id q) w = (Inr rn0, w)"
      and el: "r \<in> eligible (crq_allow_immediate_repeat q) (previous_runner rn0 ?d) ?us"
      and r: "r \<in> basket_users ?d (run_id rn0)"
      and rs: "runs (w_db w') = map (\<lambda>x. if x = rn0 then closed_run rn0 r t else x) (runs ?d)"
      and os: "orders (w_db w') = map (\<lambda>o'. if active_in (run_id rn0) o' then finalized t o' else o') (orders ?d)"
      and served: "served (w_db w') = (\<lambda>c' v. if c' = run_channel_id rn0 \<and> v = r then served ?d c' v + 1 else served ?d c' v)"
      and ok': "schema_ok (w_db w')" and time: "\<exists>k. t = w_clock w k \<and> w_ticks w \<le> k \<and> k < w_ticks w'"
      and same: "w_clock w' = w_clock w" and fresh': "fresh_draws n w'"
      and least: "\<forall>v \<in> eligible (crq_allow_immediate_repeat q) (previous_runner rn0 ?d) ?us.
        served ?d (run_channel_id rn0) r \<le> served ?d (run_channel_id rn0) v"
    have [simp]: "rn0 = rn" using get get0 by simp
    have us: "set ?us = A" using active_participants [OF ok] rn(5) by simp
    have r: "r \<in> A" using r rn(5) by simp
    have served': "served (w_db w') c = (\<lambda>v. if v = r then served ?d c v + 1 else served ?d c v)"
      using served rn(3) by (auto simp: fun_eq_iff)
    obtain k where k: "t = w_clock w k" "w_ticks w \<le> k" "k < w_ticks w'" using time by blast
    have low: "served ?d c r \<le> served ?d c v" if v: "v \<in> A" for v
    proof (cases "v \<in> eligible (crq_allow_immediate_repeat q) (previous_runner rn ?d) ?us")
      case True
      then show ?thesis using least rn(3) by simp
    next
      case False
      then have "previous_runner rn ?d = Some v"
        using v us by (auto simp: eligible_def split: option.splits if_splits)
      then show ?thesis using even rn_in rn(2,3) v r by (auto simp: even_counts_def)
    qed
    have later: "\<forall>x \<in> set (runs ?d). \<forall>t'. run_closed_at x = Some t' \<longrightarrow> t' < t"
      using clock k by (auto simp: clock_ahead_def)
    have prev: "previous_runner x (w_db w') = Some r" if "x \<in> set (runs (w_db w'))" "run_status x = OPEN" "run_channel_id x = c" for x
    proof (rule previous_runner_latest [OF dist rn_in _ later])
      show "runs (w_db w') = map (\<lambda>x. if x = rn then closed_run rn r t else x) (runs ?d)" using rs by simp
      show "run_channel_id x = run_channel_id rn" using that(3) rn(3) by simp
      note x = that(1)
      obtain y where y: "y \<in> set (runs ?d)" "x = (if y = rn then closed_run rn r t else y)"
        using x by (auto simp: rs)
      then have "y \<noteq> rn" using that(2) by (auto simp: closed_run_def)
      with y have "x \<noteq> rn \<and> x \<in> set (runs ?d)" by simp
      then show "run_id x \<noteq> run_id rn" using distinct_map_eq [OF dist _ rn_in] by blast
    qed
    have bal: "served ?d c x \<le> served ?d c y + 1" if "x \<in> A" "y \<in> A" for x y
      using even that by (simp add: even_counts_def)
    have even': "even_counts c A (w_db w')"
      unfolding even_counts_def
    proof (intro conjI ballI impI)
      show "served (w_db w') c x \<le> served (w_db w') c y + 1" if "x \<in> A" "y \<in> A" for x y
        using bal [OF that] low [OF that(2)] by (auto simp: served')
      show "served (w_db w') c v \<le> served (w_db w') c l"
        if "x \<in> set (runs (w_db w'))" "run_status x = OPEN" "run_channel_id x = c" "previous_runner x (w_db w') = Some l" "v \<in> A" for x l v
        using prev [OF that(1-3)] that(4) bal [OF that(5) r] by (auto simp: served')
    qed
    have fin: "finite A" using rn(5) finite_basket_users by metis
    have "sum (served (w_db w') c) A = sum (served ?d c) A + (\<Sum>v\<in>A. if v = r then 1 else 0)"
      unfolding served' sum.distrib [symmetric] by (rule sum.cong) auto
    then have total: "sum (served (w_db w') c) A = sum (served ?d c) A + 1" using fin r by simp
    have clock': "clock_ahead w'"
      unfolding clock_ahead_def
    proof (intro conjI ballI allI impI)
      show "w_clock w' i < w_clock w' j" if "w_ticks w' \<le> i" "i < j" for i j
        using clock that k(2,3) by (simp add: clock_ahead_def same)
      fix x t' j assume x: "x \<in> set (runs (w_db w'))" "run_closed_at x = Some t'" "w_ticks w' \<le> j"
      then consider "x = closed_run rn r t" | "x \<in> set (runs ?d)" by (auto simp: rs split: if_splits)
      then show "t' < w_clock w' j"
      proof cases
        case 1
        then have "t' = w_clock w k" using x(2) k(1) by (simp add: closed_run_def)
        moreover have "k < j" using x(3) k(3) by simp
        ultimately show ?thesis using k(2) clock unfolding clock_ahead_def same by blast
      next
        case 2
        moreover have "w_ticks w \<le> j" using x(3) k(2,3) by simp
        ultimately show ?thesis using x(2) clock unfolding clock_ahead_def same by blast
      qed
    qed
    have "can_close srv c A (w_db w') q'"
      if other: "as_uuid (Text (crq_run_id q')) \<noteq> as_uuid (Text (crq_run_id q))" and q': "can_close srv c A ?d q'" for q'
    proof -
      obtain x where x: "x \<in> set (runs ?d)" "as_uuid (Text (crq_run_id q')) = Inr (run_id x)" "run_status x = OPEN"
        "run_channel_id x = c" "is_authorized srv x (crq_actor_user_id q')" "basket_users ?d (run_id x) = A"
        using q' by (auto simp: can_close_def)
      then have "x \<noteq> rn" using other rn(1) by auto
      then have "x \<in> set (runs (w_db w'))" using x(1) by (force simp: rs)
      moreover have "basket_users (w_db w') (run_id x) = A"
        using x(6) basket_finalized [OF os] by (simp add: basket_users_def)
      ultimately show ?thesis using x(2-5) by (auto simp: can_close_def)
    qed
    then show ?thesis
      by (intro that [OF run ok' fresh' _ clock' even' total]) (simp_all add: os)
  qed
qed

lemma close_runs_even:
  assumes "schema_ok (w_db w)" and "fresh_draws (length qs * length (orders (w_db w))) w" and "clock_ahead w"
    and "\<forall>q \<in> set qs. can_close srv c A (w_db w) q" and "distinct (map (\<lambda>q. as_uuid (Text (crq_run_id q))) qs)"
    and "A \<noteq> {}" and "even_counts c A (w_db w)"
  shows "\<exists>rs w'. close_runs srv qs w = (Inr rs, w') \<and> even_counts c A (w_db w')
    \<and> sum (served (w_db w') c) A = sum (served (w_db w) c) A + int (length qs)"
  using assms
proof (induction qs arbitrary: w)
  case Nil
  then show ?case by (simp add: op_simps)
next
  case (Cons q qs)
  have fresh: "fresh_draws (length (orders (w_db w)) + length qs * length (orders (w_db w))) w" using Cons.prems(2) by simp
  have q: "can_close srv c A (w_db w) q" using Cons.prems(4) by simp
  show ?case
  proof (rule one_close [OF Cons.prems(1) fresh Cons.prems(3) q Cons.prems(6,7)])
    fix res w1
    assume run: "close_run srv q w = (Inr res, w1)" and w1: "schema_ok (w_db w1)" "fresh_draws (length qs * length (orders (w_db w))) w1"
      and len: "length (orders (w_db w1)) = length (orders (w_db w))" and more: "clock_ahead w1" "even_counts c A (w_db w1)"
      and total: "sum (served (w_db w1) c) A = sum (served (w_db w) c) A + 1"
      and keep: "\<forall>q'. as_uuid (Text (crq_run_id q')) \<noteq> as_uuid (Text (crq_run_id q)) \<longrightarrow> can_close srv c A (w_db w) q'
           \<longrightarrow> can_close srv c A (w_db w1) q'"
    have "\<forall>q' \<in> set qs. can_close srv c A (w_db w1) q'"
      using keep Cons.prems(4,5) by (auto simp: image_iff)
    moreover have "distinct (map (\<lambda>q. as_uuid (Text (crq_run_id q))) qs)" using Cons.prems(5) by simp
    ultimately obtain rs w' where "close_runs srv qs w1 = (Inr rs, w')" "even_counts c A (w_db w')"
      "sum (served (w_db w') c) A = sum (served (w_db w1) c) A + int (length qs)"
      using Cons.IH [OF w1(1) _ more(1) _ _ Cons.prems(6) more(2)] w1(2) len by auto
    then show ?case using run total by (simp add: op_simps)
  qed
qed

section \<open>The shares\<close>

text \<open>Integers that differ by at most one are the quotient of their sum, or one more.\<close>

lemma balanced_shares:
  fixes f :: "'a \<Rightarrow> int"
  assumes fin: "finite A" and v: "v \<in> A" and bal: "\<forall>x \<in> A. \<forall>y \<in> A. f x \<le> f y + 1"
  shows "f v = sum f A div int (card A) \<or> f v = sum f A div int (card A) + 1"
proof -
  obtain a where a: "a \<in> A" "\<forall>x \<in> A. f a \<le> f x"
    using fin v by (metis arg_min_if_finite(1) arg_min_least empty_iff)
  then have range: "f a \<le> f x" "f x \<le> f a + 1" if "x \<in> A" for x using bal that by auto
  have pos: "0 < card A" using fin v by (auto simp: card_gt_0_iff)
  have "sum (\<lambda>_. f a) A \<le> sum f A" by (rule sum_mono) (use range in auto)
  then have low: "int (card A) * f a \<le> sum f A" by simp
  have "sum f A < sum (\<lambda>_. f a + 1) A"
    by (rule sum_strict_mono_ex1 [OF fin]) (use a(1) range in auto)
  then have high: "sum f A < int (card A) * (f a + 1)" by simp
  have "sum f A div int (card A) = f a"
    using low high pos by (intro int_div_pos_eq [of _ _ _ "sum f A - int (card A) * f a"]) (auto simp: algebra_simps)
  then show ?thesis using range [OF v] by linarith
qed

text \<open>
  Property C12. The work is shared evenly. Take any number of open runs of a channel in which the same \<open>k\<close> users have ordered
  and requests that close them one after the other, each by somebody who may, with immediate repeats allowed or not as each
  request says. If the users had run equally often for the channel, all the closes succeed, and after \<open>n\<close> of
  them each user has run \<open>n div k\<close> times more or once more than that. The clock must run forward.
\<close>

theorem closes_share_evenly:
  assumes "schema_ok (w_db w)" and "fresh_draws (length qs * length (orders (w_db w))) w" and "clock_ahead w"
    and "\<forall>q \<in> set qs. can_close srv c A (w_db w) q" and "distinct (map (\<lambda>q. as_uuid (Text (crq_run_id q))) qs)"
    and equal: "\<forall>v \<in> A. served (w_db w) c v = m" and u: "u \<in> A" and fin: "finite A"
  shows "\<exists>rs w'. close_runs srv qs w = (Inr rs, w')
    \<and> (served (w_db w') c u = m + int (length qs div card A) \<or> served (w_db w') c u = m + int (length qs div card A) + 1)"
proof -
  have "even_counts c A (w_db w)" using equal by (simp add: even_counts_def)
  moreover have "A \<noteq> {}" using u by blast
  ultimately obtain rs w' where run: "close_runs srv qs w = (Inr rs, w')" and even: "even_counts c A (w_db w')"
    and total: "sum (served (w_db w') c) A = sum (served (w_db w) c) A + int (length qs)"
    using close_runs_even [OF assms(1-5)] by blast
  have nonzero: "int (card A) \<noteq> 0" using fin u by auto
  have "sum (served (w_db w) c) A = int (card A) * m" using equal by simp
  then have "sum (served (w_db w') c) A div int (card A) = m + int (length qs div card A)"
    using total div_mult_self2 [OF nonzero, of "int (length qs)" m] by (simp only: of_nat_div add.commute)
  with balanced_shares [OF fin u, of "served (w_db w') c"] even run show ?thesis
    by (auto simp: even_counts_def)
qed

definition fx_shared :: world where
  "fx_shared = fx_world\<lparr>w_db := fx_db\<lparr>runner_stats := [],
     orders := [fx_order 30 20 2 ''tea'', fx_order 31 20 3 ''mocha'', fx_order 32 22 2 ''tea'', fx_order 33 22 3 ''mocha'']\<rparr>\<rparr>"

lemma fx_shared_ok: "schema_ok (w_db fx_shared)"
  by (simp add: fx_shared_def fx_defs schema_defs rows_ok_def order_key_def pref_key_def stat_key_def
      channel_checks_def Let_def)

lemma fx_shared_basket: "basket_users (w_db fx_shared) 20 = {2, 3}" "basket_users (w_db fx_shared) 22 = {2, 3}"
  by (auto simp: basket_users_def basket_def fx_shared_def fx_defs lookup_by_def order_key_def split: if_splits)

theorem closes_share_evenly_witness:
  "\<exists>rs w'. close_runs fx_closing [fx_close, fx_close\<lparr>crq_run_id := uuid_str 22\<rparr>] fx_shared = (Inr rs, w')
     \<and> 1 \<le> served (w_db w') 10 3"
proof -
  let ?qs = "[fx_close, fx_close\<lparr>crq_run_id := uuid_str 22\<rparr>]"
  have "fresh_draws (length ?qs * length (orders (w_db fx_shared))) fx_shared"
    by (simp add: fx_shared_def fx_defs fresh_draws_def ids_in_use_def upt_rec Let_def)
  moreover have "clock_ahead fx_shared" by (auto simp: clock_ahead_def fx_shared_def fx_defs)
  moreover have "\<forall>q \<in> set ?qs. can_close fx_closing 10 {2, 3} (w_db fx_shared) q"
  proof -
    have "can_close fx_closing 10 {2, 3} (w_db fx_shared) fx_close"
      "can_close fx_closing 10 {2, 3} (w_db fx_shared) (fx_close\<lparr>crq_run_id := uuid_str 22\<rparr>)"
      unfolding can_close_def
      by (rule bexI [of _ "fx_run 20 OPEN None None"], simp_all add: fx_close_def fx_closing_def fx_shared_basket [simplified] fx_run_def,
          simp add: fx_shared_def fx_db_def fx_run_def)
        (rule bexI [of _ "fx_run 22 OPEN None None"], simp_all add: fx_close_def fx_closing_def fx_shared_basket [simplified] fx_run_def,
          simp add: fx_shared_def fx_db_def fx_run_def)
    then show ?thesis by simp
  qed
  moreover have "distinct (map (\<lambda>q. as_uuid (Text (crq_run_id q))) ?qs)" by (simp add: fx_close_def)
  moreover have "\<forall>v \<in> {2, 3}. served (w_db fx_shared) 10 v = 0" by (simp add: served_def fx_shared_def lookup_by_def)
  ultimately obtain rs w' where "close_runs fx_closing ?qs fx_shared = (Inr rs, w')"
    "served (w_db w') 10 3 = 0 + int (length ?qs div card {2, 3 :: uuid})
      \<or> served (w_db w') 10 3 = 0 + int (length ?qs div card {2, 3 :: uuid}) + 1"
    using closes_share_evenly [OF fx_shared_ok, of ?qs fx_closing 10 "{2, 3}" 0 3] by blast
  then show ?thesis by auto
qed

end
