(* ===== verification/Admin.thy ===== *)
theory Admin
  imports PyText Preferences Fairness
begin

text \<open>
  The admin commands of a channel: \<open>SlackAdminAuthorizer\<close> (\<open>api/admin/authorizer.py\<close>),
  \<open>AdminAuditLogger\<close> (\<open>core/audit/logger.py\<close>) and \<open>AdminService\<close> (\<open>api/admin/service.py\<close>).

  The audit logger is an argument of the service's constructor, as in the code: \<open>None\<close> stands for the repository's own
  \<open>log_action\<close>. The database takes an audit row only when it meets the constraints of its table (\<open>audit_row_ok\<close>);
  the row of \<open>log_action\<close> has no \<open>created_at\<close>, which is NOT NULL, so it is always refused. What was changed before
  is left to the transaction around the call.
\<close>

section \<open>Data\<close>

record admin_actor =
  adm_user_id :: string
  adm_slack_user_id :: string
  adm_slack_roles :: "string list"

record channel_config_patch =
  patch_reminder_offset_minutes :: "int option"
  patch_fairness_window_runs :: "int option"
  patch_data_retention_days :: "int option"
  patch_reminders_enabled :: "bool option"
  patch_last_call_enabled :: "bool option"
  patch_last_call_lead_minutes :: "int option"

datatype channel_admin_action_type = ENABLE | DISABLE | UPDATE_CONFIG | DATA_RESET

fun action_type_value :: "channel_admin_action_type \<Rightarrow> string" where
  "action_type_value ENABLE = ''enable''"
| "action_type_value DISABLE = ''disable''"
| "action_type_value UPDATE_CONFIG = ''update_config''"
| "action_type_value DATA_RESET = ''data_reset''"

record channel_config_update_result =
  ccu_channel_id :: string
  ccu_applied_fields :: "string list"

record channel_state_change_result =
  csc_channel_id :: string
  csc_enabled :: bool
  csc_action_type :: channel_admin_action_type

record data_reset_result =
  drr_channel_id :: string
  drr_orders_deleted :: nat
  drr_runs_deleted :: nat
  drr_preferences_deleted :: nat
  drr_runner_stats_deleted :: nat

section \<open>SlackAdminAuthorizer\<close>

record slack_admin_authorizer =
  allowed_user_ids :: "string list"
  role_allowlist :: "string list"

text \<open>The constructor; \<open>None\<close> and an empty list are both falsy, so both fall back to the default.\<close>

definition or_default :: "string list option \<Rightarrow> string list \<Rightarrow> string list" where
  "or_default xs d = (case xs of None \<Rightarrow> d | Some ys \<Rightarrow> if ys = [] then d else ys)"

definition make_authorizer :: "string list option \<Rightarrow> string list option \<Rightarrow> slack_admin_authorizer" where
  "make_authorizer users_arg roles_arg =
     \<lparr>allowed_user_ids = map py_strip (filter (\<lambda>u. u \<noteq> [] \<and> py_strip u \<noteq> []) (or_default users_arg [])),
      role_allowlist = map py_lower (or_default roles_arg [''admin'', ''owner''])\<rparr>"

definition authorizer_from_env :: "string option \<Rightarrow> slack_admin_authorizer" where
  "authorizer_from_env env =
     (let csv = (case env of None \<Rightarrow> [] | Some s \<Rightarrow> s);
          allowed = map py_strip (filter (\<lambda>v. py_strip v \<noteq> []) (split_on (CHR '','') csv))
      in make_authorizer (Some allowed) None)"

definition admin_is_authorized :: "slack_admin_authorizer \<Rightarrow> admin_actor \<Rightarrow> bool" where
  "admin_is_authorized a actor \<longleftrightarrow>
     (if adm_slack_user_id actor \<in> set (allowed_user_ids a) then True
      else (\<exists>role \<in> set (adm_slack_roles actor). py_lower role \<in> set (role_allowlist a)))"

definition assert_authorized :: "slack_admin_authorizer \<Rightarrow> admin_actor \<Rightarrow> (world, exn, unit) op" where
  "assert_authorized a actor =
     (if admin_is_authorized a actor then returnE ()
      else raiseE (AdminError (AdminAuthorizationError (adm_slack_user_id actor)
        ''User lacks required Slack admin role or allow-list membership.'')))"

section \<open>AdminAuditLogger\<close>

text \<open>
  The INSERT at the flush. The administrator's identifier is the text of the actor, for a UUID column: the driver
  refuses a text that is no UUID (\<open>DataError\<close>); a row that violates a constraint of its table raises
  \<open>IntegrityError\<close>. The server fills in the identifier of the row, which nothing here reads.
\<close>

definition audit_row_ok :: "db \<Rightarrow> channel_admin_action \<Rightarrow> bool" where
  "audit_row_ok d a \<longleftrightarrow> act_channel_id a \<in> channel_id ` set (channels d)
     \<and> (\<exists>u \<in> user_id ` set (users d). parse_uuid (act_admin_user_id a) = Some u)
     \<and> act_action_type a \<in> set action_types \<and> act_created_at a \<noteq> None"

definition insert_audit_row :: "channel_admin_action \<Rightarrow> (world, exn, channel_admin_action) op" where
  "insert_audit_row a =
     bindE (query (\<lambda>d. audit_row_ok d a)) (\<lambda>ok.
     if parse_uuid (act_admin_user_id a) = None then raiseE (ExternalError ''DataError'')
     else if \<not> ok then raiseE IntegrityError
     else bindE (change (\<lambda>d. d\<lparr>channel_admin_actions := channel_admin_actions d @ [a]\<rparr>)) (\<lambda>_. returnE a))"

type_synonym audit_logger = "uuid \<Rightarrow> string \<Rightarrow> channel_admin_action_type \<Rightarrow> json \<Rightarrow> (world, exn, channel_admin_action) op"

definition log_action :: audit_logger where
  "log_action c admin ty details =
     (let entry = \<lparr>act_id = None, act_channel_id = c, act_admin_user_id = admin,
                   act_action_type = action_type_value ty, act_action_details = details,
                   act_created_at = None\<rparr>
      in insert_audit_row entry)"

section \<open>AdminService\<close>

record admin_service =
  admin_authorizer :: slack_admin_authorizer
  admin_audit :: audit_logger

text \<open>The constructor: \<open>self._audit = audit_logger or AdminAuditLogger(session)\<close>.\<close>

definition make_admin_service :: "slack_admin_authorizer \<Rightarrow> audit_logger option \<Rightarrow> admin_service" where
  "make_admin_service auth logger =
     \<lparr>admin_authorizer = auth, admin_audit = (case logger of None \<Rightarrow> log_action | Some given \<Rightarrow> given)\<rparr>"

definition admin_get_channel :: "string \<Rightarrow> (world, exn, channel) op" where
  "admin_get_channel slack =
     bindE (query (\<lambda>d. lookup_by slack_channel_id slack (channels d))) (\<lambda>found.
     case found of
       None \<Rightarrow> raiseE (AdminError (ChannelNotFoundError slack))
     | Some ch \<Rightarrow> returnE ch)"

definition store_channel :: "channel \<Rightarrow> (world, exn, unit) op" where
  "store_channel ch = change (\<lambda>d. d\<lparr>channels := save_row channel_id ch (channels d)\<rparr>)"

definition ensure_range :: "string \<Rightarrow> int \<Rightarrow> int \<Rightarrow> int \<Rightarrow> exn + unit" where
  "ensure_range field v lo hi =
     (if \<not> (lo \<le> v \<and> v \<le> hi)
      then Inl (AdminError (ChannelConfigValidationError field
             (''Value '' @ int_str v @ '' must be between '' @ int_str lo @ '' and '' @ int_str hi @ ''.'')))
      else Inr ())"

type_synonym updates = "(string \<times> json) list"

text \<open>One \<open>if patch.field is not None\<close> block, with and without a range.\<close>

definition put_int :: "string \<Rightarrow> int option \<Rightarrow> int \<Rightarrow> int \<Rightarrow> updates \<Rightarrow> exn + updates" where
  "put_int field v lo hi ups =
     (case v of None \<Rightarrow> Inr ups
      | Some n \<Rightarrow> (case ensure_range field n lo hi of Inl e \<Rightarrow> Inl e | Inr _ \<Rightarrow> Inr (AList.update field (JInt n) ups)))"

definition put_bool :: "string \<Rightarrow> bool option \<Rightarrow> updates \<Rightarrow> updates" where
  "put_bool field v ups = (case v of None \<Rightarrow> ups | Some b \<Rightarrow> AList.update field (JBool b) ups)"

definition build_config_updates :: "channel \<Rightarrow> channel_config_patch \<Rightarrow> exn + updates" where
  "build_config_updates ch p =
     (case put_int ''reminder_offset_minutes'' (patch_reminder_offset_minutes p) 1 60 [] of Inl e \<Rightarrow> Inl e | Inr u1 \<Rightarrow>
     (case put_int ''fairness_window_runs'' (patch_fairness_window_runs p) 1 50 u1 of Inl e \<Rightarrow> Inl e | Inr u2 \<Rightarrow>
     (case put_int ''data_retention_days'' (patch_data_retention_days p) 30 365 u2 of Inl e \<Rightarrow> Inl e | Inr u3 \<Rightarrow>
     (let u4 = put_bool ''reminders_enabled'' (patch_reminders_enabled p) u3;
          u5 = put_bool ''last_call_enabled'' (patch_last_call_enabled p) u4
      in (case put_int ''last_call_lead_minutes'' (patch_last_call_lead_minutes p) 1 30 u5 of Inl e \<Rightarrow> Inl e | Inr u6 \<Rightarrow>
          if patch_last_call_enabled p = Some True \<and> patch_last_call_lead_minutes p = None
             \<and> last_call_lead_minutes ch = None
          then Inl (AdminError (ChannelConfigValidationError ''last_call_lead_minutes''
                 ''Lead time must be provided when enabling last call reminders.''))
          else Inr u6)))))"

text \<open>\<open>setattr(channel, field, value)\<close> for the fields above.\<close>

fun set_field :: "string \<times> json \<Rightarrow> channel \<Rightarrow> channel" where
  "set_field (field, JInt n) ch =
     (if field = ''reminder_offset_minutes'' then ch\<lparr>reminder_offset_minutes := n\<rparr>
      else if field = ''fairness_window_runs'' then ch\<lparr>fairness_window_runs := n\<rparr>
      else if field = ''data_retention_days'' then ch\<lparr>data_retention_days := n\<rparr>
      else if field = ''last_call_lead_minutes'' then ch\<lparr>last_call_lead_minutes := Some n\<rparr>
      else ch)"
| "set_field (field, JBool b) ch =
     (if field = ''reminders_enabled'' then ch\<lparr>reminders_enabled := b\<rparr>
      else if field = ''last_call_enabled'' then ch\<lparr>last_call_enabled := b\<rparr>
      else ch)"
| "set_field (field, _) ch = ch"

definition update_channel_config ::
  "admin_service \<Rightarrow> string \<Rightarrow> admin_actor \<Rightarrow> channel_config_patch \<Rightarrow> (world, exn, channel_config_update_result) op" where
  "update_channel_config srv slack actor p =
     bindE (admin_get_channel slack) (\<lambda>ch.
     bindE (assert_authorized (admin_authorizer srv) actor) (\<lambda>_.
     bindE (liftE (build_config_updates ch p)) (\<lambda>ups.
     if ups = [] then returnE \<lparr>ccu_channel_id = uuid_str (channel_id ch), ccu_applied_fields = []\<rparr>
     else
       bindE now (\<lambda>t.
       bindE (store_channel ((fold set_field ups ch)\<lparr>channel_updated_at := t\<rparr>)) (\<lambda>_.
       bindE (admin_audit srv (channel_id ch) (adm_user_id actor) UPDATE_CONFIG
                (JObj [(''updated_fields'', JObj ups)])) (\<lambda>_.
       returnE \<lparr>ccu_channel_id = uuid_str (channel_id ch), ccu_applied_fields = map fst ups\<rparr>))))))"

definition set_channel_enabled ::
  "admin_service \<Rightarrow> string \<Rightarrow> admin_actor \<Rightarrow> bool \<Rightarrow> string option \<Rightarrow> (world, exn, channel_state_change_result) op" where
  "set_channel_enabled srv slack actor enabled reason =
     bindE (admin_get_channel slack) (\<lambda>ch.
     bindE (assert_authorized (admin_authorizer srv) actor) (\<lambda>_.
     bindE now (\<lambda>t.
     let previous_state = channel_enabled ch; ty = (if enabled then ENABLE else DISABLE) in
     bindE (store_channel (ch\<lparr>channel_enabled := enabled, channel_updated_at := t\<rparr>)) (\<lambda>_.
     bindE (admin_audit srv (channel_id ch) (adm_user_id actor) ty
              (JObj [(''reason'', JStr (case reason of None \<Rightarrow> ''unspecified''
                        | Some s \<Rightarrow> if s = [] then ''unspecified'' else s)),
                     (''previous_state'', JBool previous_state),
                     (''changed'', JBool (previous_state \<noteq> enabled))])) (\<lambda>_.
     returnE \<lparr>csc_channel_id = uuid_str (channel_id ch), csc_enabled = enabled, csc_action_type = ty\<rparr>)))))"

text \<open>The four DELETE statements, in their order; each returns the number of rows it removed.\<close>

definition delete_orders :: "uuid \<Rightarrow> db \<Rightarrow> nat \<times> db" where
  "delete_orders c d =
     (let ids = map run_id (filter (\<lambda>r. run_channel_id r = c) (runs d));
          gone = (\<lambda>o'. order_run_id o' \<in> set ids)
      in (length (filter gone (orders d)), d\<lparr>orders := filter (\<lambda>o'. \<not> gone o') (orders d)\<rparr>))"

definition delete_runs :: "uuid \<Rightarrow> db \<Rightarrow> nat \<times> db" where
  "delete_runs c d = (length (filter (\<lambda>r. run_channel_id r = c) (runs d)),
     d\<lparr>runs := filter (\<lambda>r. run_channel_id r \<noteq> c) (runs d)\<rparr>)"

definition delete_preferences :: "uuid \<Rightarrow> db \<Rightarrow> nat \<times> db" where
  "delete_preferences c d = (length (filter (\<lambda>p. pref_channel_id p = c) (user_preferences d)),
     d\<lparr>user_preferences := filter (\<lambda>p. pref_channel_id p \<noteq> c) (user_preferences d)\<rparr>)"

definition delete_runner_stats :: "uuid \<Rightarrow> db \<Rightarrow> nat \<times> db" where
  "delete_runner_stats c d = (length (filter (\<lambda>s. stat_channel_id s = c) (runner_stats d)),
     d\<lparr>runner_stats := filter (\<lambda>s. stat_channel_id s \<noteq> c) (runner_stats d)\<rparr>)"

definition execute_delete :: "(db \<Rightarrow> nat \<times> db) \<Rightarrow> (world, exn, nat) op" where
  "execute_delete del = bindE (query del) (\<lambda>(n, d). bindE (change (\<lambda>_. d)) (\<lambda>_. returnE n))"

record purge_counts =
  pc_orders_deleted :: nat
  pc_runs_deleted :: nat
  pc_preferences_deleted :: nat
  pc_runner_stats_deleted :: nat

definition purge_channel_data :: "uuid \<Rightarrow> (world, exn, purge_counts) op" where
  "purge_channel_data c =
     bindE (execute_delete (delete_orders c)) (\<lambda>n1.
     bindE (execute_delete (delete_runs c)) (\<lambda>n2.
     bindE (execute_delete (delete_preferences c)) (\<lambda>n3.
     bindE (execute_delete (delete_runner_stats c)) (\<lambda>n4.
     returnE \<lparr>pc_orders_deleted = n1, pc_runs_deleted = n2, pc_preferences_deleted = n3,
       pc_runner_stats_deleted = n4\<rparr>))))"

definition counts_json :: "purge_counts \<Rightarrow> json" where
  "counts_json n = JObj [(''orders_deleted'', JInt (int (pc_orders_deleted n))),
     (''runs_deleted'', JInt (int (pc_runs_deleted n))),
     (''preferences_deleted'', JInt (int (pc_preferences_deleted n))),
     (''runner_stats_deleted'', JInt (int (pc_runner_stats_deleted n)))]"

definition reset_channel_data ::
  "admin_service \<Rightarrow> string \<Rightarrow> admin_actor \<Rightarrow> (world, exn, data_reset_result) op" where
  "reset_channel_data srv slack actor =
     bindE (admin_get_channel slack) (\<lambda>ch.
     bindE (assert_authorized (admin_authorizer srv) actor) (\<lambda>_.
     bindE (purge_channel_data (channel_id ch)) (\<lambda>n.
     bindE now (\<lambda>t.
     bindE (store_channel (ch\<lparr>last_reset_at := Some t, channel_updated_at := t\<rparr>)) (\<lambda>_.
     bindE (admin_audit srv (channel_id ch) (adm_user_id actor) DATA_RESET (counts_json n)) (\<lambda>_.
     returnE \<lparr>drr_channel_id = uuid_str (channel_id ch), drr_orders_deleted = pc_orders_deleted n,
       drr_runs_deleted = pc_runs_deleted n, drr_preferences_deleted = pc_preferences_deleted n,
       drr_runner_stats_deleted = pc_runner_stats_deleted n\<rparr>))))))"

section \<open>Configuration patches\<close>

text \<open>What a patch asks for, field by field, and when it may be applied.\<close>

definition patched :: "channel_config_patch \<Rightarrow> channel \<Rightarrow> channel" where
  "patched p ch = ch\<lparr>
     reminder_offset_minutes := case_option (reminder_offset_minutes ch) id (patch_reminder_offset_minutes p),
     fairness_window_runs := case_option (fairness_window_runs ch) id (patch_fairness_window_runs p),
     data_retention_days := case_option (data_retention_days ch) id (patch_data_retention_days p),
     reminders_enabled := case_option (reminders_enabled ch) id (patch_reminders_enabled p),
     last_call_enabled := case_option (last_call_enabled ch) id (patch_last_call_enabled p),
     last_call_lead_minutes := case_option (last_call_lead_minutes ch) Some (patch_last_call_lead_minutes p)\<rparr>"

definition in_range :: "int option \<Rightarrow> int \<Rightarrow> int \<Rightarrow> bool" where
  "in_range v lo hi \<longleftrightarrow> (case v of None \<Rightarrow> True | Some n \<Rightarrow> lo \<le> n \<and> n \<le> hi)"

definition patch_valid :: "channel_config_patch \<Rightarrow> channel \<Rightarrow> bool" where
  "patch_valid p ch \<longleftrightarrow> in_range (patch_reminder_offset_minutes p) 1 60
     \<and> in_range (patch_fairness_window_runs p) 1 50 \<and> in_range (patch_data_retention_days p) 30 365
     \<and> in_range (patch_last_call_lead_minutes p) 1 30
     \<and> \<not> (patch_last_call_enabled p = Some True \<and> last_call_lead_minutes (patched p ch) = None)"

definition patch_fields :: "channel_config_patch \<Rightarrow> string list" where
  "patch_fields p = map fst (filter snd
     [(''reminder_offset_minutes'', patch_reminder_offset_minutes p \<noteq> None),
      (''fairness_window_runs'', patch_fairness_window_runs p \<noteq> None),
      (''data_retention_days'', patch_data_retention_days p \<noteq> None),
      (''reminders_enabled'', patch_reminders_enabled p \<noteq> None),
      (''last_call_enabled'', patch_last_call_enabled p \<noteq> None),
      (''last_call_lead_minutes'', patch_last_call_lead_minutes p \<noteq> None)])"

text \<open>The updates as the list of the blocks that apply, given that no field occurs twice.\<close>

definition put :: "string \<Rightarrow> ('a \<Rightarrow> json) \<Rightarrow> 'a option \<Rightarrow> updates" where
  "put field f v = (case v of None \<Rightarrow> [] | Some x \<Rightarrow> [(field, f x)])"

lemma put_int_Inr: "field \<notin> fst ` set ups \<Longrightarrow>
    put_int field v lo hi ups = Inr ups' \<longleftrightarrow> in_range v lo hi \<and> ups' = ups @ put field JInt v"
  by (auto simp: put_int_def put_def in_range_def ensure_range_def update_new split: option.splits)

lemma put_int_Inl: "put_int field v lo hi ups = Inl e \<Longrightarrow>
    \<not> in_range v lo hi \<and> (\<exists>m. e = AdminError (ChannelConfigValidationError field m))"
  by (auto simp: put_int_def in_range_def ensure_range_def split: option.splits if_splits)

lemma put_bool_put: "field \<notin> fst ` set ups \<Longrightarrow> put_bool field v ups = ups @ put field JBool v"
  by (auto simp: put_bool_def put_def update_new split: option.splits)

lemma put_fields: "fst ` set (put field f v) \<subseteq> {field}"
  by (auto simp: put_def split: option.splits)

lemma put_fst: "map fst (put field f v) = (if v = None then [] else [field])"
  by (auto simp: put_def split: option.splits)

definition patch_updates :: "channel_config_patch \<Rightarrow> updates" where
  "patch_updates p = put ''reminder_offset_minutes'' JInt (patch_reminder_offset_minutes p)
     @ put ''fairness_window_runs'' JInt (patch_fairness_window_runs p)
     @ put ''data_retention_days'' JInt (patch_data_retention_days p)
     @ put ''reminders_enabled'' JBool (patch_reminders_enabled p)
     @ put ''last_call_enabled'' JBool (patch_last_call_enabled p)
     @ put ''last_call_lead_minutes'' JInt (patch_last_call_lead_minutes p)"

lemma patch_updates_fields: "map fst (patch_updates p) = patch_fields p"
  by (simp add: patch_updates_def patch_fields_def put_fst)

lemma fold_put: "fold set_field (put field f v) ch = (case v of None \<Rightarrow> ch | Some x \<Rightarrow> set_field (field, f x) ch)"
  by (simp add: put_def split: option.splits)

lemma patch_updates_apply: "fold set_field (patch_updates p) ch = patched p ch"
  unfolding patch_updates_def fold_append comp_apply fold_put
  by (simp add: patched_def split: option.splits)

lemma put_notin: "field \<noteq> field' \<Longrightarrow> field \<notin> fst ` set (put field' f v)"
  using put_fields by fastforce

lemma build_config_updates_Inr:
  "build_config_updates ch p = Inr ups \<longleftrightarrow> patch_valid p ch \<and> ups = patch_updates p"
proof -
  let ?u1 = "put ''reminder_offset_minutes'' JInt (patch_reminder_offset_minutes p)"
  let ?u2 = "?u1 @ put ''fairness_window_runs'' JInt (patch_fairness_window_runs p)"
  let ?u3 = "?u2 @ put ''data_retention_days'' JInt (patch_data_retention_days p)"
  let ?u4 = "?u3 @ put ''reminders_enabled'' JBool (patch_reminders_enabled p)"
  let ?u5 = "?u4 @ put ''last_call_enabled'' JBool (patch_last_call_enabled p)"
  have bools: "put_bool ''last_call_enabled'' (patch_last_call_enabled p) (put_bool ''reminders_enabled'' (patch_reminders_enabled p) ?u3) = ?u5"
    by (simp add: put_bool_put put_notin image_Un)
  have lead: "last_call_lead_minutes (patched p ch) = None
      \<longleftrightarrow> patch_last_call_lead_minutes p = None \<and> last_call_lead_minutes ch = None"
    by (simp add: patched_def split: option.splits)
  have steps: "put_int ''reminder_offset_minutes'' v lo hi [] = Inr x \<longleftrightarrow> in_range v lo hi \<and> x = put ''reminder_offset_minutes'' JInt v"
    "put_int ''fairness_window_runs'' v lo hi ?u1 = Inr x \<longleftrightarrow> in_range v lo hi \<and> x = ?u1 @ put ''fairness_window_runs'' JInt v"
    "put_int ''data_retention_days'' v lo hi ?u2 = Inr x \<longleftrightarrow> in_range v lo hi \<and> x = ?u2 @ put ''data_retention_days'' JInt v"
    "put_int ''last_call_lead_minutes'' v lo hi ?u5 = Inr x \<longleftrightarrow> in_range v lo hi \<and> x = ?u5 @ put ''last_call_lead_minutes'' JInt v"
    for v lo hi x
    by (simp_all add: put_int_Inr put_notin image_Un)
  have sum_case: "(case y of Inl e \<Rightarrow> Inl e | Inr z \<Rightarrow> k z) = Inr ups \<longleftrightarrow> (\<exists>z. y = Inr z \<and> k z = Inr ups)"
    for y :: "exn + updates" and k :: "updates \<Rightarrow> exn + updates"
    by (cases y) auto
  have "build_config_updates ch p = Inr ups \<longleftrightarrow>
      in_range (patch_reminder_offset_minutes p) 1 60 \<and> in_range (patch_fairness_window_runs p) 1 50
      \<and> in_range (patch_data_retention_days p) 30 365 \<and> in_range (patch_last_call_lead_minutes p) 1 30
      \<and> \<not> (patch_last_call_enabled p = Some True \<and> patch_last_call_lead_minutes p = None \<and> last_call_lead_minutes ch = None)
      \<and> ups = ?u5 @ put ''last_call_lead_minutes'' JInt (patch_last_call_lead_minutes p)"
    by (auto simp: build_config_updates_def Let_def sum_case steps bools simp del: append_assoc)
  then show ?thesis
    by (auto simp: patch_valid_def lead patch_updates_def)
qed

lemma build_config_updates_Inl:
  "build_config_updates ch p = Inl e \<Longrightarrow> \<not> patch_valid p ch \<and> (\<exists>f m. e = AdminError (ChannelConfigValidationError f m))"
proof
  assume e: "build_config_updates ch p = Inl e"
  then show "\<not> patch_valid p ch" using build_config_updates_Inr [of ch p "patch_updates p"] by auto
  show "\<exists>f m. e = AdminError (ChannelConfigValidationError f m)"
    using e by (auto simp: build_config_updates_def Let_def dest: put_int_Inl split: sum.splits if_splits)
qed

lemma patched_checks: "channel_checks ch \<Longrightarrow> patch_valid p ch \<Longrightarrow> channel_checks (patched p ch)"
  by (auto simp: channel_checks_def patch_valid_def patched_def in_range_def split: option.splits)

section \<open>The operations, step by step\<close>

lemma admin_get_channel_run: "admin_get_channel slack w =
    (case lookup_by slack_channel_id slack (channels (w_db w)) of
       None \<Rightarrow> (Inl (AdminError (ChannelNotFoundError slack)), w) | Some ch \<Rightarrow> (Inr ch, w))"
  by (simp add: admin_get_channel_def op_simps split: option.splits)

abbreviation unauthorized :: "admin_actor \<Rightarrow> exn" where
  "unauthorized actor \<equiv> AdminError (AdminAuthorizationError (adm_slack_user_id actor)
     ''User lacks required Slack admin role or allow-list membership.'')"

lemma assert_authorized_run [op_simps]: "assert_authorized a actor w =
    (if admin_is_authorized a actor then (Inr (), w) else (Inl (unauthorized actor), w))"
  by (simp add: assert_authorized_def op_simps)

lemma insert_audit_row_run: "insert_audit_row a w =
    (if parse_uuid (act_admin_user_id a) = None then (Inl (ExternalError ''DataError''), w)
     else if \<not> audit_row_ok (w_db w) a then (Inl IntegrityError, w)
     else (Inr a, w\<lparr>w_db := (w_db w)\<lparr>channel_admin_actions := channel_admin_actions (w_db w) @ [a]\<rparr>\<rparr>))"
  by (simp add: insert_audit_row_def op_simps)

lemma insert_audit_row_Inr:
  assumes "insert_audit_row a w = (Inr x, w')"
  shows "x = a" and "audit_row_ok (w_db w) a"
    and "w' = w\<lparr>w_db := (w_db w)\<lparr>channel_admin_actions := channel_admin_actions (w_db w) @ [a]\<rparr>\<rparr>"
  using assms by (auto simp: insert_audit_row_run split: if_splits)

text \<open>What the database answers to the row of the repository's logger.\<close>

definition audit_refusal :: "admin_actor \<Rightarrow> exn" where
  "audit_refusal actor = (if parse_uuid (adm_user_id actor) = None then ExternalError ''DataError'' else IntegrityError)"

lemma log_action_run [op_simps]:
  "log_action c (adm_user_id actor) ty details w = (Inl (audit_refusal actor), w)"
  by (simp add: log_action_def insert_audit_row_run audit_row_ok_def audit_refusal_def)

lemma log_action_refused: "log_action c admin ty details w \<noteq> (Inr a, w')"
  by (simp add: log_action_def insert_audit_row_run audit_row_ok_def)

definition purged :: "uuid \<Rightarrow> db \<Rightarrow> db" where
  "purged c d = d\<lparr>orders := filter (\<lambda>o'. order_run_id o' \<notin> run_id ` {r \<in> set (runs d). run_channel_id r = c}) (orders d),
     runs := filter (\<lambda>r. run_channel_id r \<noteq> c) (runs d),
     user_preferences := filter (\<lambda>p. pref_channel_id p \<noteq> c) (user_preferences d),
     runner_stats := filter (\<lambda>s. stat_channel_id s \<noteq> c) (runner_stats d)\<rparr>"

definition purge_sizes :: "uuid \<Rightarrow> db \<Rightarrow> purge_counts" where
  "purge_sizes c d = \<lparr>pc_orders_deleted = length (orders d) - length (orders (purged c d)),
     pc_runs_deleted = length (runs d) - length (runs (purged c d)),
     pc_preferences_deleted = length (user_preferences d) - length (user_preferences (purged c d)),
     pc_runner_stats_deleted = length (runner_stats d) - length (runner_stats (purged c d))\<rparr>"

lemma length_filter_not: "length (filter P xs) = length xs - length (filter (\<lambda>x. \<not> P x) xs)"
  using sum_length_filter_compl [of P xs] by linarith

lemma purge_channel_data_run [op_simps]:
  "purge_channel_data c w = (Inr (purge_sizes c (w_db w)), w\<lparr>w_db := purged c (w_db w)\<rparr>)"
  using length_filter_not [of "\<lambda>o'. order_run_id o' \<in> run_id ` {r \<in> set (runs (w_db w)). run_channel_id r = c}" "orders (w_db w)"]
    length_filter_not [of "\<lambda>r. run_channel_id r = c" "runs (w_db w)"]
    length_filter_not [of "\<lambda>p. pref_channel_id p = c" "user_preferences (w_db w)"]
    length_filter_not [of "\<lambda>s. stat_channel_id s = c" "runner_stats (w_db w)"]
  by (simp add: purge_channel_data_def execute_delete_def op_simps delete_orders_def delete_runs_def
      delete_preferences_def delete_runner_stats_def purged_def purge_sizes_def)

text \<open>How a command ends: as the logger does, with the result of the command in place of the entry.\<close>

definition after_audit :: "'a \<Rightarrow> (exn + channel_admin_action) \<times> world \<Rightarrow> (exn + 'a) \<times> world" where
  "after_audit res logged = (case fst logged of Inl e \<Rightarrow> Inl e | Inr _ \<Rightarrow> Inr res, snd logged)"

lemma bind_audit: "bindE m (\<lambda>_. returnE res) w = after_audit res (m w)"
  by (cases "m w") (auto simp: after_audit_def bindE_def returnE_def split: sum.splits)

lemma after_audit_Inl [simp]: "after_audit res (Inl e, w) = (Inl e, w)"
  by (simp add: after_audit_def)

lemma after_audit_Inr: "after_audit res logged = (Inr x, w') \<longleftrightarrow> x = res \<and> (\<exists>a. logged = (Inr a, w'))"
  by (cases logged) (auto simp: after_audit_def split: sum.splits)

lemma update_channel_config_run: "update_channel_config srv slack actor p w =
    (case lookup_by slack_channel_id slack (channels (w_db w)) of
       None \<Rightarrow> (Inl (AdminError (ChannelNotFoundError slack)), w)
     | Some ch \<Rightarrow> if \<not> admin_is_authorized (admin_authorizer srv) actor then (Inl (unauthorized actor), w)
         else (case build_config_updates ch p of Inl e \<Rightarrow> (Inl e, w) | Inr ups \<Rightarrow>
           if ups = [] then (Inr \<lparr>ccu_channel_id = uuid_str (channel_id ch), ccu_applied_fields = []\<rparr>, w)
           else after_audit \<lparr>ccu_channel_id = uuid_str (channel_id ch), ccu_applied_fields = map fst ups\<rparr>
             (admin_audit srv (channel_id ch) (adm_user_id actor) UPDATE_CONFIG (JObj [(''updated_fields'', JObj ups)])
               (w\<lparr>w_ticks := Suc (w_ticks w), w_db := (w_db w)\<lparr>channels := save_row channel_id
                   ((fold set_field ups ch)\<lparr>channel_updated_at := w_clock w (w_ticks w)\<rparr>) (channels (w_db w))\<rparr>\<rparr>))))"
  by (simp add: update_channel_config_def admin_get_channel_run bindE_def [of "admin_get_channel slack"]
      bindE_def [of "assert_authorized (admin_authorizer srv) actor"] bindE_def [of "liftE u" for u]
      bindE_def [of now] bindE_def [of "store_channel ch" for ch] bind_audit op_simps store_channel_def
      split: option.splits sum.splits)

lemma set_channel_enabled_run: "set_channel_enabled srv slack actor en reason w =
    (case lookup_by slack_channel_id slack (channels (w_db w)) of
       None \<Rightarrow> (Inl (AdminError (ChannelNotFoundError slack)), w)
     | Some ch \<Rightarrow> if \<not> admin_is_authorized (admin_authorizer srv) actor then (Inl (unauthorized actor), w)
         else (let ty = (if en then ENABLE else DISABLE)
               in after_audit \<lparr>csc_channel_id = uuid_str (channel_id ch), csc_enabled = en, csc_action_type = ty\<rparr>
                 (admin_audit srv (channel_id ch) (adm_user_id actor) ty
                   (JObj [(''reason'', JStr (case reason of None \<Rightarrow> ''unspecified''
                        | Some s \<Rightarrow> if s = [] then ''unspecified'' else s)),
                      (''previous_state'', JBool (channel_enabled ch)), (''changed'', JBool (channel_enabled ch \<noteq> en))])
                   (w\<lparr>w_ticks := Suc (w_ticks w), w_db := (w_db w)\<lparr>channels := save_row channel_id
                       (ch\<lparr>channel_enabled := en, channel_updated_at := w_clock w (w_ticks w)\<rparr>) (channels (w_db w))\<rparr>\<rparr>))))"
  by (simp add: set_channel_enabled_def admin_get_channel_run bindE_def [of "admin_get_channel slack"]
      bindE_def [of "assert_authorized (admin_authorizer srv) actor"] bindE_def [of now]
      bindE_def [of "store_channel ch" for ch] bind_audit op_simps store_channel_def split: option.splits)

lemma reset_channel_data_run: "reset_channel_data srv slack actor w =
    (case lookup_by slack_channel_id slack (channels (w_db w)) of
       None \<Rightarrow> (Inl (AdminError (ChannelNotFoundError slack)), w)
     | Some ch \<Rightarrow> if \<not> admin_is_authorized (admin_authorizer srv) actor then (Inl (unauthorized actor), w)
         else (let n = purge_sizes (channel_id ch) (w_db w); t = w_clock w (w_ticks w)
               in after_audit \<lparr>drr_channel_id = uuid_str (channel_id ch), drr_orders_deleted = pc_orders_deleted n,
                     drr_runs_deleted = pc_runs_deleted n, drr_preferences_deleted = pc_preferences_deleted n,
                     drr_runner_stats_deleted = pc_runner_stats_deleted n\<rparr>
                 (admin_audit srv (channel_id ch) (adm_user_id actor) DATA_RESET (counts_json n)
                   (w\<lparr>w_ticks := Suc (w_ticks w), w_db := (purged (channel_id ch) (w_db w))\<lparr>channels := save_row channel_id
                       (ch\<lparr>last_reset_at := Some t, channel_updated_at := t\<rparr>) (channels (w_db w))\<rparr>\<rparr>))))"
  by (simp add: reset_channel_data_def admin_get_channel_run bindE_def [of "admin_get_channel slack"]
      bindE_def [of "assert_authorized (admin_authorizer srv) actor"] bindE_def [of "purge_channel_data c" for c]
      bindE_def [of now] bindE_def [of "store_channel ch" for ch] bind_audit op_simps store_channel_def purged_def
      split: option.splits)

section \<open>The constraints of the database\<close>

lemma schema_store_channel:
  assumes ok: "schema_ok d" and ch: "ch \<in> set (channels d)" and same: "channel_id ch' = channel_id ch"
    "slack_channel_id ch' = slack_channel_id ch" "channel_name ch' = channel_name ch" and checks: "channel_checks ch'"
  shows "schema_ok (d\<lparr>channels := save_row channel_id ch' (channels d)\<rparr>)"
proof -
  let ?cs = "save_row channel_id ch' (channels d)"
  have dist: "distinct (map channel_id (channels d))" using ok by (simp add: schema_defs rows_ok_def)
  have ids: "map channel_id ?cs = map channel_id (channels d)"
    by (rule map_save_row_key [OF dist ch same(1) same(1)])
  have slack: "map slack_channel_id ?cs = map slack_channel_id (channels d)"
    by (rule map_save_row_key [OF dist ch same(1) same(2)])
  have id_set: "channel_id ` set ?cs = channel_id ` set (channels d)" using ids by (metis set_map)
  have "set ?cs \<subseteq> insert ch' (set (channels d))" by (auto simp: save_row_def)
  then have "\<forall>c \<in> set ?cs. channel_checks c \<and> length (slack_channel_id c) \<le> 32 \<and> length (channel_name c) \<le> 120"
    using ok ch same checks by (auto simp: schema_defs)
  then show ?thesis
    using ok ids slack by (simp add: schema_ok_def keys_ok_def rows_ok_def refs_ok_def checks_ok_def texts_ok_def id_set)
qed

lemma schema_audit:
  "schema_ok d \<Longrightarrow> audit_row_ok d a \<Longrightarrow> schema_ok (d\<lparr>channel_admin_actions := channel_admin_actions d @ [a]\<rparr>)"
  by (auto simp: schema_defs Let_def audit_row_ok_def)

text \<open>
  What the commands rely on in a logger: when it returns an entry, it has added exactly that entry to the audit table,
  and the entry meets the constraints of the table. The repository's logger does, for it never returns; so does one
  that sets the creation time.
\<close>

locale audit_trail =
  fixes audit :: audit_logger
  assumes appends: "audit c admin ty details w = (Inr a, w') \<Longrightarrow>
      w_db w' = (w_db w)\<lparr>channel_admin_actions := channel_admin_actions (w_db w) @ [a]\<rparr> \<and> audit_row_ok (w_db w) a"
begin

lemma keeps_schema: "audit c admin ty details w = (Inr a, w') \<Longrightarrow> schema_ok (w_db w) \<Longrightarrow> schema_ok (w_db w')"
  using schema_audit appends by metis

lemma command_logged:
  assumes run: "after_audit res (audit c admin ty details w) = (Inr x, w')" and ok: "schema_ok (w_db w)"
  shows "x = res" and "\<exists>a. w_db w' = (w_db w)\<lparr>channel_admin_actions := channel_admin_actions (w_db w) @ [a]\<rparr>" and "schema_ok (w_db w')"
  using run appends keeps_schema [OF _ ok] by (auto simp: after_audit_Inr)

end

interpretation own_logger: audit_trail log_action
  by unfold_locales (simp_all add: log_action_refused)

lemma schema_purged:
  assumes "schema_ok d"
  shows "schema_ok (purged c d)"
proof -
  have "keys_ok (purged c d)"
    using assms by (simp add: schema_ok_def keys_ok_def purged_def rows_ok_filter distinct_map_filter)
  moreover have "refs_ok (purged c d)"
  proof -
    have "order_run_id o' \<in> run_id ` {r \<in> set (runs d). run_channel_id r \<noteq> c}"
      if "o' \<in> set (orders d)" "order_run_id o' \<notin> run_id ` {r \<in> set (runs d). run_channel_id r = c}" for o'
    proof -
      have "order_run_id o' \<in> run_id ` set (runs d)"
        using that(1) assms by (simp add: schema_ok_def refs_ok_def Let_def)
      with that(2) show ?thesis by blast
    qed
    then show ?thesis
      using assms by (auto simp: schema_ok_def refs_ok_def purged_def Let_def)
  qed
  moreover have "checks_ok (purged c d)" "texts_ok (purged c d)"
    using assms by (simp_all add: schema_ok_def checks_ok_def texts_ok_def purged_def)
  ultimately show ?thesis by (simp add: schema_ok_def)
qed

section \<open>Who may use the commands\<close>

text \<open>
  Property C19. The authorizer that is built from the environment lets a user through exactly when
  their Slack id is one of the comma-separated entries (blanks around an entry do not count, and an
  entry of blanks allows nobody) or one of their roles is admin or owner in any case. An empty role list
  given to the constructor is not an empty list of roles: it stands for the default roles.
\<close>

theorem authorizer_from_env_decision:
  "(admin_is_authorized (authorizer_from_env env) actor \<longleftrightarrow>
     (\<exists>entry \<in> set (split_on (CHR '','') (case env of None \<Rightarrow> [] | Some s \<Rightarrow> s)).
        py_strip entry \<noteq> [] \<and> adm_slack_user_id actor = py_strip entry)
     \<or> (\<exists>role \<in> set (adm_slack_roles actor). py_lower role \<in> {''admin'', ''owner''}))
   \<and> make_authorizer ids (Some []) = make_authorizer ids None"
proof
  let ?parts = "split_on (CHR '','') (case env of None \<Rightarrow> [] | Some s \<Rightarrow> s)"
  have "py_lower ''admin'' = ''admin''" "py_lower ''owner'' = ''owner''"
    by (simp_all add: py_lower_def py_lower_char_def)
  then have roles: "set (role_allowlist (authorizer_from_env env)) = {''admin'', ''owner''}"
    by (simp add: authorizer_from_env_def make_authorizer_def or_default_def Let_def)
  have "set (allowed_user_ids (authorizer_from_env env)) = py_strip ` {e \<in> set ?parts. py_strip e \<noteq> []}"
    by (auto simp: authorizer_from_env_def make_authorizer_def or_default_def Let_def image_iff split: if_splits)
  then show "admin_is_authorized (authorizer_from_env env) actor \<longleftrightarrow>
     (\<exists>entry \<in> set ?parts. py_strip entry \<noteq> [] \<and> adm_slack_user_id actor = py_strip entry)
     \<or> (\<exists>role \<in> set (adm_slack_roles actor). py_lower role \<in> {''admin'', ''owner''})"
    using roles by (auto simp: admin_is_authorized_def)
qed (simp add: make_authorizer_def or_default_def)

text \<open>
  Property C20. No admin command gets past the guards: for an unknown channel, and for an actor who is not
  authorized, each of the three commands raises that error and changes nothing, whatever else it was
  given.
\<close>

theorem admin_commands_guarded:
  "(case lookup_by slack_channel_id slack (channels (w_db w)) of
      None \<Rightarrow> update_channel_config srv slack actor p w = (Inl (AdminError (ChannelNotFoundError slack)), w)
        \<and> set_channel_enabled srv slack actor en reason w = (Inl (AdminError (ChannelNotFoundError slack)), w)
        \<and> reset_channel_data srv slack actor w = (Inl (AdminError (ChannelNotFoundError slack)), w)
    | Some ch \<Rightarrow> admin_is_authorized (admin_authorizer srv) actor
        \<or> (update_channel_config srv slack actor p w = (Inl (unauthorized actor), w)
          \<and> set_channel_enabled srv slack actor en reason w = (Inl (unauthorized actor), w)
          \<and> reset_channel_data srv slack actor w = (Inl (unauthorized actor), w)))"
  by (simp add: update_channel_config_run set_channel_enabled_run reset_channel_data_run split: option.splits)

section \<open>What the commands do\<close>

text \<open>
  A logger that a caller may pass: it sets the creation time the repository's own leaves out. The witnesses use both.
\<close>

definition fx_logger :: audit_logger where
  "fx_logger c admin ty details = bindE now (\<lambda>t. insert_audit_row
     \<lparr>act_id = None, act_channel_id = c, act_admin_user_id = admin, act_action_type = action_type_value ty,
      act_action_details = details, act_created_at = Some t\<rparr>)"

interpretation dated_logger: audit_trail fx_logger
  by unfold_locales (auto simp: fx_logger_def bindE_def now_simp insert_audit_row_run split: if_splits)

definition fx_admin :: admin_service where
  "fx_admin = make_admin_service (make_authorizer (Some [''UAnn'']) None) (Some fx_logger)"

definition fx_own_admin :: admin_service where
  "fx_own_admin = make_admin_service (make_authorizer (Some [''UAnn'']) None) None"

lemma fx_admin_audit: "admin_audit fx_admin = fx_logger" "admin_audit fx_own_admin = log_action"
  by (simp_all add: fx_admin_def fx_own_admin_def make_admin_service_def)

definition fx_actor :: admin_actor where
  "fx_actor = \<lparr>adm_user_id = uuid_str 1, adm_slack_user_id = ''UAnn'', adm_slack_roles = []\<rparr>"

definition fx_patch :: channel_config_patch where
  "fx_patch = \<lparr>patch_reminder_offset_minutes = Some 7, patch_fairness_window_runs = None,
     patch_data_retention_days = Some 30, patch_reminders_enabled = None, patch_last_call_enabled = Some True,
     patch_last_call_lead_minutes = Some 2\<rparr>"

lemma fx_admin_authorized: "admin_is_authorized (admin_authorizer fx_admin) fx_actor"
    "admin_is_authorized (admin_authorizer fx_own_admin) fx_actor"
  by (simp_all add: admin_is_authorized_def fx_admin_def fx_own_admin_def make_admin_service_def fx_actor_def
      make_authorizer_def or_default_def py_strip_def strip_by_def py_isspace_def)

lemma fx_logger_run:
  assumes "channel_id ` set (channels (w_db w)) = {10}" and "user_id ` set (users (w_db w)) = {1, 2, 3}"
  shows "\<exists>a w'. fx_logger 10 (adm_user_id fx_actor) ty details w = (Inr a, w')"
  using assms by (cases ty) (simp_all add: fx_logger_def insert_audit_row_run audit_row_ok_def action_types_def op_simps fx_actor_def)

lemma fx_admin_channel: "lookup_by slack_channel_id ''C1'' (channels (w_db fx_world)) = Some fx_channel"
  by (simp add: fx_defs lookup_by_def)

lemma fx_patch_valid: "patch_valid fx_patch fx_channel"
  by (simp add: patch_valid_def fx_patch_def in_range_def patched_def)

lemma patch_updates_Nil: "patch_updates p = [] \<longleftrightarrow> patch_fields p = []"
  by (metis map_is_Nil_conv patch_updates_fields)

text \<open>The row of the channel in the table, and the constraints after it was stored.\<close>

lemma store_one:
  assumes ok: "schema_ok (w_db w)" and ch: "lookup_by slack_channel_id slack (channels (w_db w)) = Some ch"
    and same: "channel_id ch' = channel_id ch" "slack_channel_id ch' = slack_channel_id ch" "channel_name ch' = channel_name ch"
    and checks: "channel_checks ch'"
  shows "save_row channel_id ch' (channels (w_db w)) = map (\<lambda>x. if x = ch then ch' else x) (channels (w_db w))"
    and "schema_ok ((w_db w)\<lparr>channels := save_row channel_id ch' (channels (w_db w))\<rparr>)"
proof -
  have ch_in: "ch \<in> set (channels (w_db w))" using ch by (auto dest: lookup_by_Some)
  have dist: "distinct (map channel_id (channels (w_db w)))" using ok by (simp add: schema_defs rows_ok_def)
  show "save_row channel_id ch' (channels (w_db w)) = map (\<lambda>x. if x = ch then ch' else x) (channels (w_db w))"
    by (rule save_row_one [OF dist ch_in same(1)])
  show "schema_ok ((w_db w)\<lparr>channels := save_row channel_id ch' (channels (w_db w))\<rparr>)"
    by (rule schema_store_channel [OF ok ch_in same checks])
qed

lemma found_checks: "schema_ok d \<Longrightarrow> lookup_by slack_channel_id slack (channels d) = Some ch \<Longrightarrow> channel_checks ch"
  by (auto simp: schema_defs dest: lookup_by_Some)

text \<open>
  Property C21. What a configuration update does. On a known channel, by an authorized actor, a valid patch with fields
  changes exactly the fields it gives, and the time of the channel's last update, in the row of that channel; every other
  channel and table is as before and the database meets its constraints. It then calls the audit logger once with
  the channel, the actor and those fields, ends as the logger ends, and names the fields in order. A patch without
  fields changes nothing and logs nothing.
\<close>

theorem update_channel_config_applies:
  assumes ok: "schema_ok (w_db w)" and ch: "lookup_by slack_channel_id slack (channels (w_db w)) = Some ch"
    and auth: "admin_is_authorized (admin_authorizer srv) actor" and valid: "patch_valid p ch"
  shows "if patch_fields p = []
    then update_channel_config srv slack actor p w = (Inr \<lparr>ccu_channel_id = uuid_str (channel_id ch), ccu_applied_fields = []\<rparr>, w)
    else (let d = (w_db w)\<lparr>channels := map (\<lambda>x. if x = ch then (patched p ch)\<lparr>channel_updated_at := w_clock w (w_ticks w)\<rparr> else x)
                (channels (w_db w))\<rparr>;
              logged = admin_audit srv (channel_id ch) (adm_user_id actor) UPDATE_CONFIG
                (JObj [(''updated_fields'', JObj (patch_updates p))]) (w\<lparr>w_ticks := Suc (w_ticks w), w_db := d\<rparr>)
          in schema_ok d \<and> map fst (patch_updates p) = patch_fields p \<and> update_channel_config srv slack actor p w =
            (case fst logged of Inl e \<Rightarrow> Inl e
               | Inr _ \<Rightarrow> Inr \<lparr>ccu_channel_id = uuid_str (channel_id ch), ccu_applied_fields = patch_fields p\<rparr>, snd logged))"
proof -
  let ?ch = "(patched p ch)\<lparr>channel_updated_at := w_clock w (w_ticks w)\<rparr>"
  have same: "channel_id ?ch = channel_id ch" "slack_channel_id ?ch = slack_channel_id ch" "channel_name ?ch = channel_name ch"
    by (simp_all add: patched_def)
  have checks: "channel_checks ?ch"
    using patched_checks [OF found_checks [OF ok ch] valid] by (simp add: channel_checks_def)
  have ups: "build_config_updates ch p = Inr (patch_updates p)" using valid by (simp add: build_config_updates_Inr)
  note stored = store_one [OF ok ch same checks]
  show ?thesis
    using stored by (simp add: update_channel_config_run ch auth ups patch_updates_Nil patch_updates_apply
        patch_updates_fields after_audit_def Let_def)
qed

lemma fx_patch_fields: "patch_fields fx_patch =
    [''reminder_offset_minutes'', ''data_retention_days'', ''last_call_enabled'', ''last_call_lead_minutes'']"
  by (simp add: patch_fields_def fx_patch_def)

theorem update_channel_config_applies_witness:
  "(\<exists>w'. update_channel_config fx_admin ''C1'' fx_actor fx_patch fx_world
      = (Inr \<lparr>ccu_channel_id = uuid_str 10, ccu_applied_fields = patch_fields fx_patch\<rparr>, w'))
   \<and> (\<exists>w'. update_channel_config fx_own_admin ''C1'' fx_actor fx_patch fx_world = (Inl IntegrityError, w')
      \<and> map reminder_offset_minutes (channels (w_db w')) = [7])"
proof -
  note facts = update_channel_config_applies [OF fx_schema_ok fx_admin_channel fx_admin_authorized(1) fx_patch_valid]
    update_channel_config_applies [OF fx_schema_ok fx_admin_channel fx_admin_authorized(2) fx_patch_valid]
  let ?w = "fx_world\<lparr>w_ticks := Suc 0, w_db := fx_db\<lparr>channels := [(patched fx_patch fx_channel)\<lparr>channel_updated_at := 1000\<rparr>]\<rparr>\<rparr>"
  have "\<exists>a w'. fx_logger 10 (adm_user_id fx_actor) UPDATE_CONFIG (JObj [(''updated_fields'', JObj (patch_updates fx_patch))]) ?w = (Inr a, w')"
    by (rule fx_logger_run) (auto simp: patched_def fx_defs)
  moreover have "audit_refusal fx_actor = IntegrityError" by (simp add: audit_refusal_def fx_actor_def)
  moreover have "w_db fx_world = fx_db" "w_clock fx_world (w_ticks fx_world) = 1000" "w_ticks fx_world = 0"
    "channels fx_db = [fx_channel]" "channel_id fx_channel = 10" by (simp_all add: fx_defs)
  moreover have "reminder_offset_minutes (patched fx_patch fx_channel) = 7" by (simp add: patched_def fx_patch_def)
  ultimately show ?thesis
    using facts by (auto simp: Let_def fx_patch_fields fx_admin_audit log_action_run)
qed

text \<open>The first field of a patch that cannot be accepted, in the order in which the fields are checked.\<close>

definition first_offence :: "channel_config_patch \<Rightarrow> channel \<Rightarrow> string option" where
  "first_offence p ch = map_option fst (find snd
     [(''reminder_offset_minutes'', \<not> in_range (patch_reminder_offset_minutes p) 1 60),
      (''fairness_window_runs'', \<not> in_range (patch_fairness_window_runs p) 1 50),
      (''data_retention_days'', \<not> in_range (patch_data_retention_days p) 30 365),
      (''last_call_lead_minutes'', \<not> in_range (patch_last_call_lead_minutes p) 1 30
         \<or> (patch_last_call_enabled p = Some True \<and> patch_last_call_lead_minutes p = None \<and> last_call_lead_minutes ch = None))])"

lemma first_offence_None: "first_offence p ch = None \<longleftrightarrow> patch_valid p ch"
  by (auto simp: first_offence_def patch_valid_def patched_def split: option.splits)

lemma put_int_bad: "\<not> in_range v lo hi \<Longrightarrow>
    \<exists>m. put_int field v lo hi ups = Inl (AdminError (ChannelConfigValidationError field m))"
  by (auto simp: put_int_def in_range_def ensure_range_def split: option.splits)

lemma put_int_good: "in_range v lo hi \<Longrightarrow> \<exists>ups'. put_int field v lo hi ups = Inr ups'"
  by (auto simp: put_int_def in_range_def ensure_range_def split: option.splits)

lemma build_config_updates_offence:
  assumes "first_offence p ch = Some f"
  shows "\<exists>m. build_config_updates ch p = Inl (AdminError (ChannelConfigValidationError f m))"
proof -
  let ?one = "in_range (patch_reminder_offset_minutes p) 1 60" and ?two = "in_range (patch_fairness_window_runs p) 1 50"
    and ?three = "in_range (patch_data_retention_days p) 30 365"
  obtain u1 where u1: "?one \<Longrightarrow> put_int ''reminder_offset_minutes'' (patch_reminder_offset_minutes p) 1 60 [] = Inr u1"
    using put_int_good by blast
  obtain u2 where u2: "?two \<Longrightarrow> put_int ''fairness_window_runs'' (patch_fairness_window_runs p) 1 50 u1 = Inr u2"
    using put_int_good by blast
  obtain u3 where u3: "?three \<Longrightarrow> put_int ''data_retention_days'' (patch_data_retention_days p) 30 365 u2 = Inr u3"
    using put_int_good by blast
  consider "f = ''reminder_offset_minutes''" "\<not> ?one" | "f = ''fairness_window_runs''" "?one" "\<not> ?two"
    | "f = ''data_retention_days''" "?one" "?two" "\<not> ?three" | "f = ''last_call_lead_minutes''" "?one" "?two" "?three"
    using assms by (auto simp: first_offence_def split: if_splits)
  then show ?thesis
  proof cases
    case 1
    obtain m where "put_int ''reminder_offset_minutes'' (patch_reminder_offset_minutes p) 1 60 []
        = Inl (AdminError (ChannelConfigValidationError f m))" using put_int_bad 1 by blast
    then show ?thesis by (simp add: build_config_updates_def)
  next
    case 2
    obtain m where "put_int ''fairness_window_runs'' (patch_fairness_window_runs p) 1 50 u1
        = Inl (AdminError (ChannelConfigValidationError f m))" using put_int_bad 2 by blast
    then show ?thesis using u1 2(2) by (simp add: build_config_updates_def)
  next
    case 3
    obtain m where "put_int ''data_retention_days'' (patch_data_retention_days p) 30 365 u2
        = Inl (AdminError (ChannelConfigValidationError f m))" using put_int_bad 3 by blast
    then show ?thesis using u1 u2 3(2,3) by (simp add: build_config_updates_def)
  next
    case 4
    have "\<not> patch_valid p ch" using assms first_offence_None [of p ch] by simp
    then obtain e where e: "build_config_updates ch p = Inl e"
      by (cases "build_config_updates ch p") (auto simp: build_config_updates_Inr)
    have lead: "put_int ''last_call_lead_minutes'' v 1 30 u = Inl e \<Longrightarrow> \<exists>m. e = AdminError (ChannelConfigValidationError f m)" for v u
      using put_int_Inl 4(1) by blast
    from e u1 [OF 4(2)] u2 [OF 4(3)] u3 [OF 4(4)] 4(1) show ?thesis
      by (auto simp: build_config_updates_def Let_def split: sum.splits if_splits dest: lead)
  qed
qed

text \<open>
  Property C22. Which configuration updates are refused. For a known channel and an authorized actor, a patch is refused
  by the service exactly when a value is outside its limits or it turns the last call on for a channel that has no lead time and is
  given none; the refusal names the first field that offends and changes nothing. A patch that passes returns at once when it
  has no fields, and otherwise exactly when the audit logger does: with the repository's own logger it never does, the
  database refusing the row.
\<close>

theorem update_channel_config_decision:
  assumes ch: "lookup_by slack_channel_id slack (channels (w_db w)) = Some ch"
    and auth: "admin_is_authorized (admin_authorizer srv) actor"
  shows "(patch_valid p ch \<longleftrightarrow> first_offence p ch = None)
    \<and> (case first_offence p ch of
         Some f \<Rightarrow> \<exists>m. update_channel_config srv slack actor p w = (Inl (AdminError (ChannelConfigValidationError f m)), w)
       | None \<Rightarrow> if patch_fields p = [] then \<exists>res. update_channel_config srv slack actor p w = (Inr res, w)
           else (let w1 = w\<lparr>w_ticks := Suc (w_ticks w), w_db := (w_db w)\<lparr>channels :=
                       save_row channel_id ((patched p ch)\<lparr>channel_updated_at := w_clock w (w_ticks w)\<rparr>) (channels (w_db w))\<rparr>\<rparr>
             in (\<forall>w'. (\<exists>res. update_channel_config srv slack actor p w = (Inr res, w'))
                   \<longleftrightarrow> (\<exists>entry. admin_audit srv (channel_id ch) (adm_user_id actor) UPDATE_CONFIG
                          (JObj [(''updated_fields'', JObj (patch_updates p))]) w1 = (Inr entry, w')))
               \<and> (admin_audit srv = log_action \<longrightarrow> update_channel_config srv slack actor p w =
                    (Inl (if parse_uuid (adm_user_id actor) = None then ExternalError ''DataError'' else IntegrityError), w1))))"
proof (cases "first_offence p ch")
  case None
  then have valid: "patch_valid p ch" by (simp add: first_offence_None)
  then have "build_config_updates ch p = Inr (patch_updates p)" by (simp add: build_config_updates_Inr)
  then show ?thesis
    by (simp add: None valid update_channel_config_run ch auth patch_updates_Nil patch_updates_apply
        after_audit_Inr log_action_run audit_refusal_def Let_def)
next
  case (Some f)
  then have "\<not> patch_valid p ch" using first_offence_None [of p ch] by simp
  with build_config_updates_offence [OF Some] Some show ?thesis
    by (auto simp: update_channel_config_run ch auth)
qed

theorem update_channel_config_decision_witness:
  "(\<exists>m. update_channel_config fx_own_admin ''C1'' fx_actor (fx_patch\<lparr>patch_fairness_window_runs := Some 51\<rparr>) fx_world
      = (Inl (AdminError (ChannelConfigValidationError ''fairness_window_runs'' m)), fx_world))
   \<and> (\<exists>w'. update_channel_config fx_own_admin ''C1'' fx_actor (fx_patch\<lparr>patch_fairness_window_runs := Some 50\<rparr>) fx_world
      = (Inl IntegrityError, w'))"
proof
  show "\<exists>m. update_channel_config fx_own_admin ''C1'' fx_actor (fx_patch\<lparr>patch_fairness_window_runs := Some 51\<rparr>) fx_world
      = (Inl (AdminError (ChannelConfigValidationError ''fairness_window_runs'' m)), fx_world)"
    using update_channel_config_decision [OF fx_admin_channel fx_admin_authorized(2), of "fx_patch\<lparr>patch_fairness_window_runs := Some 51\<rparr>"]
    by (simp add: first_offence_def fx_patch_def in_range_def)
  show "\<exists>w'. update_channel_config fx_own_admin ''C1'' fx_actor (fx_patch\<lparr>patch_fairness_window_runs := Some 50\<rparr>) fx_world
      = (Inl IntegrityError, w')"
    using update_channel_config_decision [OF fx_admin_channel fx_admin_authorized(2), of "fx_patch\<lparr>patch_fairness_window_runs := Some 50\<rparr>"]
    by (simp add: first_offence_def fx_patch_def in_range_def patch_fields_def Let_def fx_admin_audit fx_actor_def)
qed

text \<open>
  Property C23. What enabling and disabling does. On a known channel, by an authorized actor, the command sets the
  channel's flag to the requested state and the time of its last update, and changes no other field, channel or table; the
  database meets its constraints. It calls the audit logger once, saying which command it was, the reason or "unspecified", which
  state the channel was in before and truthfully whether it changed, and ends as the logger ends.
\<close>

theorem set_channel_enabled_applies:
  assumes ok: "schema_ok (w_db w)" and ch: "lookup_by slack_channel_id slack (channels (w_db w)) = Some ch"
    and auth: "admin_is_authorized (admin_authorizer srv) actor"
  shows "let d = (w_db w)\<lparr>channels := map (\<lambda>x. if x = ch then ch\<lparr>channel_enabled := en, channel_updated_at := w_clock w (w_ticks w)\<rparr> else x)
             (channels (w_db w))\<rparr>;
           ty = (if en then ENABLE else DISABLE);
           logged = admin_audit srv (channel_id ch) (adm_user_id actor) ty
             (JObj [(''reason'', JStr (if reason = None \<or> reason = Some [] then ''unspecified'' else the reason)),
                (''previous_state'', JBool (channel_enabled ch)), (''changed'', JBool (channel_enabled ch \<noteq> en))])
             (w\<lparr>w_ticks := Suc (w_ticks w), w_db := d\<rparr>)
       in schema_ok d \<and> set_channel_enabled srv slack actor en reason w =
         (case fst logged of Inl e \<Rightarrow> Inl e
            | Inr _ \<Rightarrow> Inr \<lparr>csc_channel_id = uuid_str (channel_id ch), csc_enabled = en, csc_action_type = ty\<rparr>, snd logged)"
proof -
  let ?ch = "ch\<lparr>channel_enabled := en, channel_updated_at := w_clock w (w_ticks w)\<rparr>"
  have checks: "channel_checks ?ch" using found_checks [OF ok ch] by (simp add: channel_checks_def)
  have reason: "(case reason of None \<Rightarrow> ''unspecified'' | Some s \<Rightarrow> if s = [] then ''unspecified'' else s)
      = (if reason = None \<or> reason = Some [] then ''unspecified'' else the reason)"
    by (simp split: option.splits)
  have "channel_id ?ch = channel_id ch" "slack_channel_id ?ch = slack_channel_id ch" "channel_name ?ch = channel_name ch" by simp_all
  note stored = store_one [OF ok ch this checks]
  show ?thesis
    unfolding set_channel_enabled_run Let_def ch option.case reason
    using stored by (simp add: auth after_audit_def)
qed

theorem set_channel_enabled_applies_witness:
  "(\<exists>w'. set_channel_enabled fx_admin ''C1'' fx_actor False None fx_world
      = (Inr \<lparr>csc_channel_id = uuid_str 10, csc_enabled = False, csc_action_type = DISABLE\<rparr>, w'))
   \<and> (\<exists>w'. set_channel_enabled fx_own_admin ''C1'' fx_actor False None fx_world = (Inl IntegrityError, w')
      \<and> map channel_enabled (channels (w_db w')) = [False])"
proof -
  note facts = set_channel_enabled_applies [OF fx_schema_ok fx_admin_channel fx_admin_authorized(1), of False None]
    set_channel_enabled_applies [OF fx_schema_ok fx_admin_channel fx_admin_authorized(2), of False None]
  let ?w = "fx_world\<lparr>w_ticks := Suc 0, w_db := fx_db\<lparr>channels := [fx_channel\<lparr>channel_enabled := False, channel_updated_at := 1000\<rparr>]\<rparr>\<rparr>"
  have "\<exists>a w'. fx_logger 10 (adm_user_id fx_actor) DISABLE details ?w = (Inr a, w')" for details
    by (rule fx_logger_run) (auto simp: fx_defs)
  moreover have "audit_refusal fx_actor = IntegrityError" by (simp add: audit_refusal_def fx_actor_def)
  moreover have "w_db fx_world = fx_db" "w_clock fx_world (w_ticks fx_world) = 1000" "w_ticks fx_world = 0"
    "channels fx_db = [fx_channel]" "channel_id fx_channel = 10" by (simp_all add: fx_defs)
  ultimately show ?thesis
    using facts by (auto simp: Let_def fx_admin_audit log_action_run) (metis fst_conv snd_conv sum.case(2))
qed

section \<open>A reset\<close>

lemma lookup_by_filter_key:
  assumes "\<And>r. key r = k \<Longrightarrow> P r \<longleftrightarrow> b"
  shows "lookup_by key k (filter P rows) = (if b then lookup_by key k rows else None)"
  using assms by (induction rows) (auto simp: lookup_by_def)

lemma purged_views:
  shows "usual (purged c d) = (\<lambda>(u, c'). if c' = c then None else usual d (u, c'))"
    and "served (purged c d) = (\<lambda>c' u. if c' = c then 0 else served d c' u)"
proof -
  have prefs: "user_preferences (purged c d) = filter (\<lambda>p. pref_channel_id p \<noteq> c) (user_preferences d)"
    and stats: "runner_stats (purged c d) = filter (\<lambda>s. stat_channel_id s \<noteq> c) (runner_stats d)"
    by (simp_all add: purged_def)
  have "lookup_by pref_key k (user_preferences (purged c d)) = (if snd k \<noteq> c then lookup_by pref_key k (user_preferences d) else None)" for k
    unfolding prefs by (rule lookup_by_filter_key) (auto simp: pref_key_def)
  then show "usual (purged c d) = (\<lambda>(u, c'). if c' = c then None else usual d (u, c'))"
    by (auto simp: usual_def fun_eq_iff)
  have "lookup_by stat_key (u, c') (runner_stats (purged c d)) = (if c' \<noteq> c then lookup_by stat_key (u, c') (runner_stats d) else None)" for u c'
    unfolding stats by (rule lookup_by_filter_key) (auto simp: stat_key_def)
  then show "served (purged c d) = (\<lambda>c' u. if c' = c then 0 else served d c' u)"
    by (auto simp: served_def fun_eq_iff)
qed

lemma usual_store: "usual (d\<lparr>channels := cs\<rparr>) = usual d" "served (d\<lparr>channels := cs\<rparr>) = served d"
  by (auto simp: usual_def served_def fun_eq_iff)

lemma purge_sizes_count: "purge_sizes c d =
    \<lparr>pc_orders_deleted = length (filter (\<lambda>o'. order_run_id o' \<in> run_id ` {r \<in> set (runs d). run_channel_id r = c}) (orders d)),
     pc_runs_deleted = length (filter (\<lambda>r. run_channel_id r = c) (runs d)),
     pc_preferences_deleted = length (filter (\<lambda>p. pref_channel_id p = c) (user_preferences d)),
     pc_runner_stats_deleted = length (filter (\<lambda>s. stat_channel_id s = c) (runner_stats d))\<rparr>"
  using length_filter_not [of "\<lambda>o'. order_run_id o' \<in> run_id ` {r \<in> set (runs d). run_channel_id r = c}" "orders d"]
    length_filter_not [of "\<lambda>r. run_channel_id r = c" "runs d"]
    length_filter_not [of "\<lambda>p. pref_channel_id p = c" "user_preferences d"]
    length_filter_not [of "\<lambda>s. stat_channel_id s = c" "runner_stats d"]
  by (simp add: purge_sizes_def purged_def)

lemma reset_store:
  assumes ok: "schema_ok d" and ch: "lookup_by slack_channel_id slack (channels d) = Some ch"
  shows "save_row channel_id (ch\<lparr>last_reset_at := t, channel_updated_at := t'\<rparr>) (channels d)
      = map (\<lambda>x. if x = ch then ch\<lparr>last_reset_at := t, channel_updated_at := t'\<rparr> else x) (channels d)"
    and "schema_ok ((purged (channel_id ch) d)\<lparr>channels := save_row channel_id (ch\<lparr>last_reset_at := t, channel_updated_at := t'\<rparr>) (channels d)\<rparr>)"
proof -
  let ?ch = "ch\<lparr>last_reset_at := t, channel_updated_at := t'\<rparr>"
  have same: "channel_id ?ch = channel_id ch" "slack_channel_id ?ch = slack_channel_id ch" "channel_name ?ch = channel_name ch" by simp_all
  have checks: "channel_checks ?ch" using found_checks [OF ok ch] by (simp add: channel_checks_def)
  have cs: "channels (purged (channel_id ch) d) = channels d" by (simp add: purged_def)
  have ch_in: "ch \<in> set (channels d)" using ch by (auto dest: lookup_by_Some)
  have dist: "distinct (map channel_id (channels d))" using ok by (simp add: schema_defs rows_ok_def)
  show "save_row channel_id ?ch (channels d) = map (\<lambda>x. if x = ch then ?ch else x) (channels d)"
    by (rule save_row_one [OF dist ch_in same(1)])
  show "schema_ok ((purged (channel_id ch) d)\<lparr>channels := save_row channel_id ?ch (channels d)\<rparr>)"
    using schema_store_channel [OF schema_purged [OF ok, of "channel_id ch"] _ same checks] ch_in by (simp add: cs)
qed

text \<open>
  Property C24. What a data reset does. On a known channel, by an authorized actor, it deletes exactly the runs of the channel,
  the orders of those runs, and the remembered orders and runner statistics of the channel, so that everybody's fairness count
  there is zero again, and sets the channel's reset and update times. Every row of another channel, every other field of this one,
  the users and the audit table are as before, and the database meets its constraints. It calls the audit logger once with the
  numbers of rows that went, ends as the logger ends, and returns those numbers.
\<close>

theorem reset_channel_data_forgets:
  assumes ok: "schema_ok (w_db w)" and ch: "lookup_by slack_channel_id slack (channels (w_db w)) = Some ch"
    and auth: "admin_is_authorized (admin_authorizer srv) actor"
  shows "let c = channel_id ch; t = w_clock w (w_ticks w);
           gone = (\<lambda>o'. \<exists>r \<in> set (runs (w_db w)). run_id r = order_run_id o' \<and> run_channel_id r = c);
           d = (w_db w)\<lparr>channels := map (\<lambda>x. if x = ch then ch\<lparr>last_reset_at := Some t, channel_updated_at := t\<rparr> else x) (channels (w_db w)),
             runs := filter (\<lambda>r. run_channel_id r \<noteq> c) (runs (w_db w)),
             orders := filter (\<lambda>o'. \<not> gone o') (orders (w_db w)),
             user_preferences := filter (\<lambda>p. pref_channel_id p \<noteq> c) (user_preferences (w_db w)),
             runner_stats := filter (\<lambda>s. stat_channel_id s \<noteq> c) (runner_stats (w_db w))\<rparr>;
           n = \<lparr>pc_orders_deleted = length (filter gone (orders (w_db w))),
             pc_runs_deleted = length (filter (\<lambda>r. run_channel_id r = c) (runs (w_db w))),
             pc_preferences_deleted = length (filter (\<lambda>p. pref_channel_id p = c) (user_preferences (w_db w))),
             pc_runner_stats_deleted = length (filter (\<lambda>s. stat_channel_id s = c) (runner_stats (w_db w)))\<rparr>;
           logged = admin_audit srv c (adm_user_id actor) DATA_RESET (counts_json n) (w\<lparr>w_ticks := Suc (w_ticks w), w_db := d\<rparr>)
       in schema_ok d \<and> (\<forall>u. served d c u = 0 \<and> usual d (u, c) = None)
         \<and> (\<forall>u c'. c' \<noteq> c \<longrightarrow> served d c' u = served (w_db w) c' u \<and> usual d (u, c') = usual (w_db w) (u, c'))
         \<and> reset_channel_data srv slack actor w = (case fst logged of Inl e \<Rightarrow> Inl e
            | Inr _ \<Rightarrow> Inr \<lparr>drr_channel_id = uuid_str c, drr_orders_deleted = pc_orders_deleted n, drr_runs_deleted = pc_runs_deleted n,
                drr_preferences_deleted = pc_preferences_deleted n, drr_runner_stats_deleted = pc_runner_stats_deleted n\<rparr>, snd logged)"
proof -
  let ?c = "channel_id ch" and ?d = "w_db w" and ?t = "w_clock w (w_ticks w)"
  let ?cs = "map (\<lambda>x. if x = ch then ch\<lparr>last_reset_at := Some ?t, channel_updated_at := ?t\<rparr> else x) (channels ?d)"
  have gone: "order_run_id o' \<in> run_id ` {r \<in> set (runs ?d). run_channel_id r = ?c}
      \<longleftrightarrow> (\<exists>r \<in> set (runs ?d). run_id r = order_run_id o' \<and> run_channel_id r = ?c)" for o'
    unfolding image_iff by fastforce
  have d: "(purged ?c ?d)\<lparr>channels := ?cs\<rparr> = ?d\<lparr>channels := ?cs,
             runs := filter (\<lambda>r. run_channel_id r \<noteq> ?c) (runs ?d),
             orders := filter (\<lambda>o'. \<not> (\<exists>r \<in> set (runs ?d). run_id r = order_run_id o' \<and> run_channel_id r = ?c)) (orders ?d),
             user_preferences := filter (\<lambda>p. pref_channel_id p \<noteq> ?c) (user_preferences ?d),
             runner_stats := filter (\<lambda>s. stat_channel_id s \<noteq> ?c) (runner_stats ?d)\<rparr>"
    unfolding purged_def gone by simp
  have cs: "channels (purged ?c ?d) = channels ?d" by (simp add: purged_def)
  have schema: "schema_ok ((purged ?c ?d)\<lparr>channels := ?cs\<rparr>)"
    using reset_store(2) [OF ok ch] by (simp only: reset_store(1) [OF ok ch])
  have views: "served ((purged ?c ?d)\<lparr>channels := ?cs\<rparr>) = (\<lambda>c' u. if c' = ?c then 0 else served ?d c' u)"
    "usual ((purged ?c ?d)\<lparr>channels := ?cs\<rparr>) = (\<lambda>(u, c'). if c' = ?c then None else usual ?d (u, c'))"
    by (simp_all add: usual_store purged_views)
  have run: "reset_channel_data srv slack actor w = after_audit
      \<lparr>drr_channel_id = uuid_str ?c, drr_orders_deleted = pc_orders_deleted (purge_sizes ?c ?d),
       drr_runs_deleted = pc_runs_deleted (purge_sizes ?c ?d), drr_preferences_deleted = pc_preferences_deleted (purge_sizes ?c ?d),
       drr_runner_stats_deleted = pc_runner_stats_deleted (purge_sizes ?c ?d)\<rparr>
      (admin_audit srv ?c (adm_user_id actor) DATA_RESET (counts_json (purge_sizes ?c ?d))
        (w\<lparr>w_ticks := Suc (w_ticks w), w_db := (purged ?c ?d)\<lparr>channels := ?cs\<rparr>\<rparr>))"
    using ch auth by (simp add: reset_channel_data_run Let_def cs reset_store(1) [OF ok ch])
  show ?thesis
    unfolding Let_def d [symmetric]
  proof (intro conjI)
    show "schema_ok ((purged ?c ?d)\<lparr>channels := ?cs\<rparr>)" by (rule schema)
  qed (use run [unfolded purge_sizes_count gone after_audit_def] in \<open>simp_all only: views, simp_all\<close>)
qed

theorem reset_channel_data_forgets_witness:
  "(\<exists>res w'. reset_channel_data fx_admin ''C1'' fx_actor fx_world = (Inr res, w') \<and> drr_runs_deleted res = 3 \<and> drr_orders_deleted res = 2)
   \<and> (\<exists>w'. reset_channel_data fx_own_admin ''C1'' fx_actor fx_world = (Inl IntegrityError, w') \<and> runs (w_db w') = [])"
proof -
  note facts = reset_channel_data_forgets [OF fx_schema_ok fx_admin_channel fx_admin_authorized(1)]
    reset_channel_data_forgets [OF fx_schema_ok fx_admin_channel fx_admin_authorized(2)]
  have logged: "\<exists>a w'. fx_logger 10 (adm_user_id fx_actor) DATA_RESET details (fx_world\<lparr>w_ticks := Suc 0, w_db := fx_db\<lparr>
      channels := [fx_channel\<lparr>last_reset_at := Some 1000, channel_updated_at := 1000\<rparr>], runs := [], orders := [],
      user_preferences := [], runner_stats := []\<rparr>\<rparr>) = (Inr a, w')" for details
    by (rule fx_logger_run) (auto simp: fx_defs)
  have own: "audit_refusal fx_actor = IntegrityError" by (simp add: audit_refusal_def fx_actor_def)
  have vals: "w_db fx_world = fx_db" "w_clock fx_world 0 = 1000" "w_ticks fx_world = 0"
    "channels fx_db = [fx_channel]" "channel_id fx_channel = 10" by (simp_all add: fx_defs)
  have rows: "filter (\<lambda>r. run_channel_id r \<noteq> 10) (runs fx_db) = []" "filter (\<lambda>s. stat_channel_id s \<noteq> 10) (runner_stats fx_db) = []"
    "filter (\<lambda>p. pref_channel_id p \<noteq> 10) (user_preferences fx_db) = []"
    "filter (\<lambda>o'. \<not> (\<exists>r \<in> set (runs fx_db). run_id r = order_run_id o' \<and> run_channel_id r = 10)) (orders fx_db) = []"
    "length (filter (\<lambda>r. run_channel_id r = 10) (runs fx_db)) = 3"
    "length (filter (\<lambda>o'. \<exists>r \<in> set (runs fx_db). run_id r = order_run_id o' \<and> run_channel_id r = 10) (orders fx_db)) = 2"
    by (simp_all add: fx_defs)
  note facts = facts [unfolded vals Let_def fx_admin_audit, unfolded vals rows log_action_run own]
  obtain a w' where "fx_logger 10 (adm_user_id fx_actor) DATA_RESET (counts_json \<lparr>pc_orders_deleted = 2, pc_runs_deleted = 3,
      pc_preferences_deleted = length (filter (\<lambda>p. pref_channel_id p = 10) (user_preferences fx_db)),
      pc_runner_stats_deleted = length (filter (\<lambda>s. stat_channel_id s = 10) (runner_stats fx_db))\<rparr>)
      (fx_world\<lparr>w_ticks := Suc 0, w_db := fx_db\<lparr>
      channels := [fx_channel\<lparr>last_reset_at := Some 1000, channel_updated_at := 1000\<rparr>], runs := [], orders := [],
      user_preferences := [], runner_stats := []\<rparr>\<rparr>) = (Inr a, w')"
    using logged by blast
  then show ?thesis using facts by simp
qed

section \<open>Commands that return\<close>

text \<open>What the rest of the development uses of a command that returned, whatever the logger, as long as it keeps its contract.\<close>

lemma update_channel_config_spec:
  assumes trail: "audit_trail (admin_audit srv)" and ok: "schema_ok (w_db w)"
    and run: "update_channel_config srv slack actor p w = (Inr res, w')"
  shows "runs (w_db w') = runs (w_db w) \<and> orders (w_db w') = orders (w_db w) \<and> user_preferences (w_db w') = user_preferences (w_db w)
    \<and> runner_stats (w_db w') = runner_stats (w_db w) \<and> schema_ok (w_db w')"
proof (cases "w' = w")
  case False
  obtain ch where ch: "lookup_by slack_channel_id slack (channels (w_db w)) = Some ch"
    and valid: "patch_valid p ch" and logged: "after_audit \<lparr>ccu_channel_id = uuid_str (channel_id ch), ccu_applied_fields = map fst (patch_updates p)\<rparr>
      (admin_audit srv (channel_id ch) (adm_user_id actor) UPDATE_CONFIG (JObj [(''updated_fields'', JObj (patch_updates p))])
        (w\<lparr>w_ticks := Suc (w_ticks w), w_db := (w_db w)\<lparr>channels := save_row channel_id
            ((patched p ch)\<lparr>channel_updated_at := w_clock w (w_ticks w)\<rparr>) (channels (w_db w))\<rparr>\<rparr>)) = (Inr res, w')"
    using run False by (auto simp: update_channel_config_run build_config_updates_Inr patch_updates_apply
        split: option.splits if_splits sum.splits)
  let ?ch = "(patched p ch)\<lparr>channel_updated_at := w_clock w (w_ticks w)\<rparr>"
  have same: "channel_id ?ch = channel_id ch" "slack_channel_id ?ch = slack_channel_id ch" "channel_name ?ch = channel_name ch"
    by (simp_all add: patched_def)
  have checks: "channel_checks ?ch"
    using patched_checks [OF found_checks [OF ok ch] valid] by (simp add: channel_checks_def)
  from audit_trail.command_logged [OF trail logged] store_one(2) [OF ok ch same checks]
  show ?thesis by auto
qed (simp add: ok)

lemma set_channel_enabled_spec:
  assumes trail: "audit_trail (admin_audit srv)" and ok: "schema_ok (w_db w)"
    and run: "set_channel_enabled srv slack actor en reason w = (Inr res, w')"
  shows "runs (w_db w') = runs (w_db w) \<and> orders (w_db w') = orders (w_db w) \<and> user_preferences (w_db w') = user_preferences (w_db w)
    \<and> runner_stats (w_db w') = runner_stats (w_db w) \<and> schema_ok (w_db w')"
proof -
  obtain ch ty details where ch: "lookup_by slack_channel_id slack (channels (w_db w)) = Some ch"
    and logged: "after_audit \<lparr>csc_channel_id = uuid_str (channel_id ch), csc_enabled = en, csc_action_type = ty\<rparr>
      (admin_audit srv (channel_id ch) (adm_user_id actor) ty details (w\<lparr>w_ticks := Suc (w_ticks w), w_db := (w_db w)\<lparr>channels :=
         save_row channel_id (ch\<lparr>channel_enabled := en, channel_updated_at := w_clock w (w_ticks w)\<rparr>) (channels (w_db w))\<rparr>\<rparr>)) = (Inr res, w')"
    using run by (auto simp: set_channel_enabled_run Let_def split: option.splits if_splits)
  let ?ch = "ch\<lparr>channel_enabled := en, channel_updated_at := w_clock w (w_ticks w)\<rparr>"
  have same: "channel_id ?ch = channel_id ch" "slack_channel_id ?ch = slack_channel_id ch" "channel_name ?ch = channel_name ch" by simp_all
  have checks: "channel_checks ?ch" using found_checks [OF ok ch] by (simp add: channel_checks_def)
  from audit_trail.command_logged [OF trail logged] store_one(2) [OF ok ch same checks]
  show ?thesis by auto
qed

lemma reset_channel_data_spec:
  assumes trail: "audit_trail (admin_audit srv)" and ok: "schema_ok (w_db w)" and run: "reset_channel_data srv slack actor w = (Inr res, w')"
  obtains ch where "lookup_by slack_channel_id slack (channels (w_db w)) = Some ch"
    and "runs (w_db w') = filter (\<lambda>r. run_channel_id r \<noteq> channel_id ch) (runs (w_db w))"
    and "orders (w_db w') = filter (\<lambda>o'. \<exists>r \<in> set (runs (w_db w')). run_id r = order_run_id o') (orders (w_db w))"
    and "usual (w_db w') = (\<lambda>(u, c). if c = channel_id ch then None else usual (w_db w) (u, c))"
    and "served (w_db w') = (\<lambda>c u. if c = channel_id ch then 0 else served (w_db w) c u)"
    and "schema_ok (w_db w')"
proof -
  obtain ch where ch: "lookup_by slack_channel_id slack (channels (w_db w)) = Some ch"
    using run by (auto simp: reset_channel_data_run split: option.splits)
  let ?c = "channel_id ch" and ?d = "w_db w" and ?t = "w_clock w (w_ticks w)"
  let ?cs = "save_row channel_id (ch\<lparr>last_reset_at := Some ?t, channel_updated_at := ?t\<rparr>) (channels ?d)"
  have "channels (purged ?c ?d) = channels ?d" by (simp add: purged_def)
  then obtain n where "after_audit n (admin_audit srv ?c (adm_user_id actor) DATA_RESET (counts_json (purge_sizes ?c ?d))
        (w\<lparr>w_ticks := Suc (w_ticks w), w_db := (purged ?c ?d)\<lparr>channels := ?cs\<rparr>\<rparr>)) = (Inr res, w')"
    using run ch by (auto simp: reset_channel_data_run Let_def split: if_splits)
  from audit_trail.command_logged [OF trail this] reset_store(2) [OF ok ch]
  obtain a where w': "w_db w' = (purged ?c ?d)\<lparr>channels := ?cs, channel_admin_actions := channel_admin_actions ?d @ [a]\<rparr>"
    and ok': "schema_ok (w_db w')" by (auto simp: purged_def)
  have rs: "runs (w_db w') = filter (\<lambda>r. run_channel_id r \<noteq> ?c) (runs ?d)" by (simp add: w' purged_def)
  have "orders (w_db w') = filter (\<lambda>o'. \<exists>r \<in> set (runs (w_db w')). run_id r = order_run_id o') (orders ?d)"
  proof -
    have dist: "distinct (map run_id (runs ?d))" using ok by (simp add: schema_defs)
    have "order_run_id o' \<notin> run_id ` {r \<in> set (runs ?d). run_channel_id r = ?c}
        \<longleftrightarrow> (\<exists>r \<in> set (runs (w_db w')). run_id r = order_run_id o')" if "o' \<in> set (orders ?d)" for o'
    proof -
      have "order_run_id o' \<in> run_id ` set (runs ?d)"
        using that ok by (simp add: schema_ok_def refs_ok_def Let_def)
      then obtain r where r: "r \<in> set (runs ?d)" "run_id r = order_run_id o'" by auto
      then have only: "x = r" if "x \<in> set (runs ?d)" "run_id x = order_run_id o'" for x
        using distinct_map_eq [OF dist that(1) r(1)] that(2) by simp
      have "order_run_id o' \<in> run_id ` {r \<in> set (runs ?d). run_channel_id r = ?c} \<longleftrightarrow> run_channel_id r = ?c"
        unfolding image_iff using r(1) r(2) [symmetric] by (blast dest: only [OF _ sym])
      moreover have "(\<exists>x \<in> {x \<in> set (runs ?d). run_channel_id x \<noteq> ?c}. run_id x = order_run_id o')
          \<longleftrightarrow> run_channel_id r \<noteq> ?c"
        using r by (blast dest: only)
      moreover have "set (runs (w_db w')) = {x \<in> set (runs ?d). run_channel_id x \<noteq> ?c}" by (simp add: rs)
      ultimately show ?thesis by simp
    qed
    then show ?thesis by (auto simp: w' purged_def intro!: filter_cong)
  qed
  moreover have "usual (w_db w') = usual (purged ?c ?d)" "served (w_db w') = served (purged ?c ?d)"
    by (simp_all add: w' usual_def served_def fun_eq_iff)
  ultimately show ?thesis using that [OF ch rs] ok' by (simp add: purged_views)
qed

text \<open>
  Property C25. With the repository's own audit logger no admin command that would change something returns: the audit row never
  carries a creation time and the column is NOT NULL, so the database refuses it. Enabling, disabling and
  resetting always end in an exception, for a known channel and an authorized actor in the database's, and a configuration update returns only
  when the patch is empty, and then it has changed nothing.
\<close>

theorem audit_needs_created_at:
  assumes own: "srv = make_admin_service auth None"
  shows "\<not> (\<exists>res w'. set_channel_enabled srv slack actor en reason w = (Inr res, w'))
     \<and> \<not> (\<exists>res w'. reset_channel_data srv slack actor w = (Inr res, w'))
     \<and> (\<forall>res w'. update_channel_config srv slack actor p w = (Inr res, w') \<longrightarrow> patch_fields p = [] \<and> w' = w)
     \<and> (\<forall>ch. lookup_by slack_channel_id slack (channels (w_db w)) = Some ch \<longrightarrow> admin_is_authorized auth actor \<longrightarrow>
          fst (set_channel_enabled srv slack actor en reason w) = Inl (audit_refusal actor)
          \<and> fst (reset_channel_data srv slack actor w) = Inl (audit_refusal actor))"
proof -
  have "admin_audit srv = log_action" "admin_authorizer srv = auth" by (simp_all add: own make_admin_service_def)
  then show ?thesis
    by (auto simp: set_channel_enabled_run reset_channel_data_run update_channel_config_run Let_def log_action_run
        build_config_updates_Inr patch_updates_Nil split: option.splits if_splits sum.splits)
qed

theorem audit_needs_created_at_witness:
  "\<not> (\<exists>res w'. set_channel_enabled fx_own_admin ''C1'' fx_actor False None fx_world = (Inr res, w'))
   \<and> fst (reset_channel_data fx_own_admin ''C1'' fx_actor fx_world) = Inl IntegrityError"
proof -
  have "admin_authorizer fx_own_admin = make_authorizer (Some [''UAnn'']) None" by (simp add: fx_own_admin_def make_admin_service_def)
  moreover have "audit_refusal fx_actor = IntegrityError" by (simp add: audit_refusal_def fx_actor_def)
  ultimately show ?thesis
    using audit_needs_created_at [OF fx_own_admin_def, of "''C1''" fx_actor False None fx_world] fx_admin_channel fx_admin_authorized(2)
    by simp
qed

end
