(* ===== verification/System.thy ===== *)
theory System
  imports OrderService CloseRun Admin
begin

text \<open>
  The services together: any number of calls of the order service, the closing service and the admin service, in
  any order, each in a transaction of its own. \<open>step_ok\<close> is what every step keeps; \<open>history\<close> is any
  sequence of steps.
\<close>

section \<open>Transactions\<close>

text \<open>
  A call that raises, and one whose commit fails, leaves the database as it was; the clock and the source of
  identifiers have moved on.
\<close>

definition transaction :: "exn option \<Rightarrow> (world, exn, 'a) op \<Rightarrow> (world, exn, 'a) op" where
  "transaction commit f w = (case f w of
       (Inr x, w1) \<Rightarrow> (case commit of None \<Rightarrow> (Inr x, w1) | Some e \<Rightarrow> (Inl e, w1\<lparr>w_db := w_db w\<rparr>))
     | (Inl e, w1) \<Rightarrow> (Inl e, w1\<lparr>w_db := w_db w\<rparr>))"

interpretation service_call: unit_of_work "transaction commit" w_db w_db "\<lambda>w. w" "\<lambda>_. True" for commit
  by unfold_locales (auto simp: transaction_def split: prod.splits sum.splits option.splits)

definition transact :: "exn option \<Rightarrow> (world, exn, 'a) op \<Rightarrow> world \<Rightarrow> world" where
  "transact commit f w = snd (transaction commit f w)"

text \<open>
  The steps. A submission and a close insert rows; the identifiers they may draw are unused (\<open>fresh_draws\<close>), as
  those of \<open>uuid4\<close> are. An admin service has any audit logger that keeps its contract (\<open>audit_trail\<close>).
\<close>

inductive service_step :: "world \<Rightarrow> world \<Rightarrow> bool" where
  do_submit: "fresh_draws 2 w \<Longrightarrow> service_step w (transact c (submit_order v q) w)"
| do_reuse: "fresh_draws 2 w \<Longrightarrow> service_step w (transact c (use_last_order v rid uid) w)"
| do_cancel: "service_step w (transact c (cancel_order rid uid) w)"
| do_close: "fresh_draws (length (orders (w_db w))) w \<Longrightarrow> service_step w (transact c (close_run srv cq) w)"
| do_configure: "audit_trail (admin_audit adm) \<Longrightarrow> service_step w (transact c (update_channel_config adm slack actor p) w)"
| do_enable: "audit_trail (admin_audit adm) \<Longrightarrow> service_step w (transact c (set_channel_enabled adm slack actor en reason) w)"
| do_reset: "audit_trail (admin_audit adm) \<Longrightarrow> service_step w (transact c (reset_channel_data adm slack actor) w)"

abbreviation history :: "world \<Rightarrow> world \<Rightarrow> bool" where
  "history \<equiv> service_step\<^sup>*\<^sup>*"

section \<open>What every step keeps\<close>

definition closed_complete :: "db \<Rightarrow> bool" where
  "closed_complete d \<longleftrightarrow> (\<forall>x \<in> set (runs d). run_status x = CLOSED \<longrightarrow> run_runner_user_id x \<noteq> None \<and> run_closed_at x \<noteq> None)"

definition sound :: "world \<Rightarrow> bool" where
  "sound w \<longleftrightarrow> schema_ok (w_db w) \<and> closed_complete (w_db w)"

definition run_kept :: "run \<Rightarrow> db \<Rightarrow> db \<Rightarrow> bool" where
  "run_kept x d d' \<longleftrightarrow> x \<in> set (runs d') \<and> (\<forall>u. basket d' (run_id x, u) = basket d (run_id x, u))"

definition run_gone :: "run \<Rightarrow> db \<Rightarrow> bool" where
  "run_gone x d \<longleftrightarrow> run_id x \<notin> run_id ` set (runs d)"

text \<open>Runs may go only from the channels in \<open>C\<close>.\<close>

definition step_ok :: "uuid set \<Rightarrow> db \<Rightarrow> db \<Rightarrow> bool" where
  "step_ok C d d' \<longleftrightarrow> schema_ok d' \<and> closed_complete d' \<and> run_id ` set (runs d') \<subseteq> run_id ` set (runs d)
     \<and> (\<forall>x \<in> set (runs d). run_status x \<noteq> OPEN \<longrightarrow> run_kept x d d' \<or> run_gone x d' \<and> run_channel_id x \<in> C)"

lemma step_ok_refl: "schema_ok d \<Longrightarrow> closed_complete d \<Longrightarrow> step_ok C d d"
  by (simp add: step_ok_def run_kept_def)

lemma step_ok_kept:
  assumes one: "step_ok {} d d1" and two: "step_ok C d1 d2"
  shows "step_ok C d d2"
proof -
  have "run_kept x d d2 \<or> run_gone x d2 \<and> run_channel_id x \<in> C" if x: "x \<in> set (runs d)" "run_status x \<noteq> OPEN" for x
  proof -
    have kept: "run_kept x d d1" using one x by (simp add: step_ok_def)
    then have "run_kept x d1 d2 \<or> run_gone x d2 \<and> run_channel_id x \<in> C" using two x(2) by (auto simp: step_ok_def run_kept_def)
    with kept show ?thesis by (auto simp: run_kept_def)
  qed
  moreover have "run_id ` set (runs d2) \<subseteq> run_id ` set (runs d)"
    using one two unfolding step_ok_def by (blast intro: subset_trans)
  ultimately show ?thesis using two by (simp add: step_ok_def)
qed

text \<open>A step that leaves the runs alone and changes the basket of an open run only.\<close>

lemma step_ok_basket:
  assumes ok: "schema_ok d" "closed_complete d" and rn: "rn \<in> set (runs d)" "run_status rn = OPEN"
    and same: "runs d' = runs d" and basket: "basket d' = (basket d)((run_id rn, u) := x)" and ok': "schema_ok d'"
  shows "step_ok {} d d'"
proof -
  have "run_id x \<noteq> run_id rn" if "x \<in> set (runs d)" "run_status x \<noteq> OPEN" for x
    using that rn ok(1) distinct_map_eq [of run_id "runs d" x rn] by (auto simp: schema_defs)
  then show ?thesis
    using ok ok' same basket by (auto simp: step_ok_def run_kept_def closed_complete_def)
qed

lemma step_ok_same:
  assumes "schema_ok d'" and "closed_complete d" and "runs d' = runs d" and "basket d' = basket d"
  shows "step_ok {} d d'"
  using assms by (simp add: step_ok_def run_kept_def closed_complete_def)

lemma submit_step:
  assumes ok: "schema_ok (w_db w)" "closed_complete (w_db w)" and fresh: "fresh_draws 2 w"
    and run: "submit_order v q w = (Inr res, w')"
  shows "step_ok {} (w_db w) (w_db w')"
proof -
  obtain rn us t where rn: "get_open_run (Text (req_run_id q)) w = (Inr rn, w)"
    and us: "get_user (Text (req_user_id q)) w = (Inr us, w)"
    and run: "persist_order rn us t (req_confirm q) (req_provenance q) w = (Inr res, w')"
    using run by (auto simp: submit_order_Inr)
  note rn = open_run_in [OF rn] and us = user_in [OF us]
  note facts = persist_order_facts [OF ok(1) fresh _ _ run]
  show ?thesis
    using facts rn us by (intro step_ok_basket [OF ok, of rn]) auto
qed

lemma reuse_step:
  assumes ok: "schema_ok (w_db w)" "closed_complete (w_db w)" and fresh: "fresh_draws 2 w"
    and run: "use_last_order v rid uid w = (Inr res, w')"
  shows "step_ok {} (w_db w) (w_db w')"
  using run
proof (rule use_last_order_Inr)
  fix rn us p t w1
  assume rn: "get_open_run (Text rid) w = (Inr rn, w)" and us: "get_user (Text uid) w = (Inr us, w)"
    and run: "persist_order rn us t True PREFERENCE w = (Inr (use_submission res), w1)" and w': "w' = touched p w1"
  note rn = open_run_in [OF rn] and us = user_in [OF us]
  note facts = persist_order_facts [OF ok(1) fresh _ _ run]
  have "step_ok {} (w_db w) (w_db w1)"
    using facts rn us by (intro step_ok_basket [OF ok, of rn]) auto
  moreover have "step_ok {} (w_db w1) (w_db w')"
    unfolding w' using calculation
    by (intro step_ok_same touched_schema touched_view) (simp_all add: step_ok_def touched_def)
  ultimately show ?thesis by (rule step_ok_kept)
qed

lemma cancel_step:
  assumes ok: "schema_ok (w_db w)" "closed_complete (w_db w)" and run: "cancel_order rid uid w = (Inr res, w')"
  shows "step_ok {} (w_db w) (w_db w')"
proof (rule cancel_order_spec [OF ok(1) run])
  fix rn us
  assume rn: "get_open_run (Text rid) w = (Inr rn, w)"
    and b: "basket (w_db w') = (basket (w_db w))((run_id rn, user_id us) := None)"
    and d: "w_db w' = (w_db w)\<lparr>orders := orders (w_db w')\<rparr>" and ok': "schema_ok (w_db w')"
  have "runs (w_db w') = runs (w_db w)" by (subst d) simp
  then show ?thesis
    using open_run_in [OF rn] b ok' by (intro step_ok_basket [OF ok, of rn _ "user_id us" None]) simp_all
qed

lemma close_step:
  assumes ok: "schema_ok (w_db w)" "closed_complete (w_db w)" and fresh: "fresh_draws (length (orders (w_db w))) w"
    and run: "close_run srv q w = (Inr res, w')"
  shows "step_ok {} (w_db w) (w_db w')"
proof (rule close_run_view [OF ok(1) _ run])
  show "fresh_draws (length (orders (w_db w)) + 0) w" using fresh by simp
  fix rn u t
  assume rn: "run_status rn = OPEN"
    and rs: "runs (w_db w') = map (\<lambda>x. if x = rn then closed_run rn u t else x) (runs (w_db w))"
    and os: "orders (w_db w') = map (\<lambda>o'. if active_in (run_id rn) o' then finalized t o' else o') (orders (w_db w))"
    and ok': "schema_ok (w_db w')"
  have "closed_complete (w_db w')" using ok(2) by (auto simp: closed_complete_def rs closed_run_def)
  moreover have "run_id ` set (runs (w_db w')) \<subseteq> run_id ` set (runs (w_db w))"
    by (auto simp: rs closed_run_def)
  moreover have "x \<in> set (runs (w_db w'))" if "x \<in> set (runs (w_db w))" "run_status x \<noteq> OPEN" for x
    using that rn by (force simp: rs)
  ultimately show ?thesis
    using ok' basket_finalized [OF os] by (simp add: step_ok_def run_kept_def)
qed

lemma lookup_by_filter: "\<forall>r \<in> set rows. key r = k \<longrightarrow> P r \<Longrightarrow> lookup_by key k (filter P rows) = lookup_by key k rows"
  by (induction rows) (auto simp: lookup_by_def)

text \<open>A reset of the channel with that identifier, committed.\<close>

definition forgets :: "uuid \<Rightarrow> world \<Rightarrow> world \<Rightarrow> bool" where
  "forgets c w w' \<longleftrightarrow> (\<exists>adm slack actor res ch. audit_trail (admin_audit adm)
     \<and> lookup_by slack_channel_id slack (channels (w_db w)) = Some ch \<and> channel_id ch = c
     \<and> reset_channel_data adm slack actor w = (Inr res, w'))"

lemma reset_step:
  assumes trail: "audit_trail (admin_audit adm)" and ok: "schema_ok (w_db w)" "closed_complete (w_db w)"
    and run: "reset_channel_data adm slack actor w = (Inr res, w')"
  shows "\<exists>c. step_ok {c} (w_db w) (w_db w') \<and> forgets c w w'"
proof (rule reset_channel_data_spec [OF trail ok(1) run])
  fix ch assume ch: "lookup_by slack_channel_id slack (channels (w_db w)) = Some ch"
    and rs: "runs (w_db w') = filter (\<lambda>r. run_channel_id r \<noteq> channel_id ch) (runs (w_db w))"
    and os: "orders (w_db w') = filter (\<lambda>o'. \<exists>r \<in> set (runs (w_db w')). run_id r = order_run_id o') (orders (w_db w))"
    and ok': "schema_ok (w_db w')"
  have "run_kept x (w_db w) (w_db w')" if "x \<in> set (runs (w_db w'))" for x
  proof -
    have "lookup_by order_key (run_id x, u) (orders (w_db w')) = lookup_by order_key (run_id x, u) (orders (w_db w))" for u
      unfolding os by (rule lookup_by_filter) (use that in \<open>auto simp: order_key_def\<close>)
    then show ?thesis using that by (simp add: run_kept_def basket_def)
  qed
  moreover have "run_gone x (w_db w') \<and> run_channel_id x \<in> {channel_id ch}" if x: "x \<in> set (runs (w_db w))" "x \<notin> set (runs (w_db w'))" for x
  proof
    show "run_channel_id x \<in> {channel_id ch}" using x by (simp add: rs)
    have dist: "distinct (map run_id (runs (w_db w)))" using ok(1) by (simp add: schema_defs)
    show "run_gone x (w_db w')"
      unfolding run_gone_def
    proof
      assume "run_id x \<in> run_id ` set (runs (w_db w'))"
      then obtain y where y: "y \<in> set (runs (w_db w'))" "run_id y = run_id x" by auto
      then have "y \<in> set (runs (w_db w))" by (simp add: rs)
      with dist x(1) y(2) have "y = x" by (blast intro: distinct_map_eq)
      with x(2) y(1) show False by simp
    qed
  qed
  moreover have "closed_complete (w_db w')" "run_id ` set (runs (w_db w')) \<subseteq> run_id ` set (runs (w_db w))"
    using ok(2) by (auto simp: closed_complete_def rs)
  ultimately have "step_ok {channel_id ch} (w_db w) (w_db w')" using ok' by (auto simp: step_ok_def)
  moreover have "forgets (channel_id ch) w w'" unfolding forgets_def using trail ch run by blast
  ultimately show ?thesis by blast
qed

lemma configure_step:
  assumes trail: "audit_trail (admin_audit adm)" and ok: "schema_ok (w_db w)" "closed_complete (w_db w)" and run: "update_channel_config adm slack actor p w = (Inr res, w')"
  shows "step_ok {} (w_db w) (w_db w')"
proof -
  have "runs (w_db w') = runs (w_db w) \<and> orders (w_db w') = orders (w_db w) \<and> schema_ok (w_db w')"
    using update_channel_config_spec [OF trail ok(1) run] by simp
  with ok show ?thesis by (intro step_ok_same) (auto simp: basket_def)
qed

lemma enable_step:
  assumes trail: "audit_trail (admin_audit adm)" and ok: "schema_ok (w_db w)" "closed_complete (w_db w)" and run: "set_channel_enabled adm slack actor en reason w = (Inr res, w')"
  shows "step_ok {} (w_db w) (w_db w')"
proof -
  have "runs (w_db w') = runs (w_db w) \<and> orders (w_db w') = orders (w_db w) \<and> schema_ok (w_db w')"
    using set_channel_enabled_spec [OF trail ok(1) run] by simp
  with ok show ?thesis by (intro step_ok_same) (auto simp: basket_def)
qed

lemma transact_step:
  assumes ok: "schema_ok (w_db w)" "closed_complete (w_db w)"
    and success: "\<And>res w'. f w = (Inr res, w') \<Longrightarrow> step_ok {} (w_db w) (w_db w')"
  shows "step_ok {} (w_db w) (w_db (transact c f w))"
  unfolding transact_def by (rule service_call.carries [where R = "step_ok {}"]) (simp_all add: step_ok_refl [OF ok] success)

lemma transact_cases:
  "w_db (transact c f w) = w_db w \<or> (\<exists>res. f w = (Inr res, transact c f w))"
  by (cases "f w") (auto simp: transact_def transaction_def split: sum.splits option.splits)

lemma service_step_ok:
  assumes step: "service_step w w'" and ok: "schema_ok (w_db w)" "closed_complete (w_db w)"
  shows "\<exists>C. step_ok C (w_db w) (w_db w') \<and> (\<forall>c \<in> C. forgets c w w')"
proof -
  have kept: ?thesis if "step_ok {} (w_db w) (w_db w')" using that by blast
  show ?thesis
    using step
  proof cases
    case (do_reset adm c slack actor)
    from transact_cases [of c "reset_channel_data adm slack actor" w] show ?thesis
    proof (elim disjE exE)
      assume "w_db (transact c (reset_channel_data adm slack actor) w) = w_db w"
      then show ?thesis using step_ok_refl [OF ok] do_reset by (intro kept) simp
    next
      fix res assume "reset_channel_data adm slack actor w = (Inr res, transact c (reset_channel_data adm slack actor) w)"
      then have "reset_channel_data adm slack actor w = (Inr res, w')" using do_reset by simp
      from reset_step [OF do_reset(2) ok this] show ?thesis by blast
    qed
  qed (auto intro!: kept transact_step [OF ok] dest: submit_step [OF ok] reuse_step [OF ok] cancel_step [OF ok]
      close_step [OF ok] configure_step [OF _ ok] enable_step [OF _ ok])
qed

interpretation service_machine: state_machine service_step sound
  using service_step_ok by unfold_locales (fastforce simp: sound_def step_ok_def)

text \<open>
  What holds between the states before and after a history: no run appears, and a run that was not open is kept, or
  some reset of its channel on the way has deleted it.
\<close>

definition history_kept :: "world \<Rightarrow> world \<Rightarrow> bool" where
  "history_kept w w' \<longleftrightarrow> history w w' \<and> run_id ` set (runs (w_db w')) \<subseteq> run_id ` set (runs (w_db w))
     \<and> (\<forall>x \<in> set (runs (w_db w)). run_status x \<noteq> OPEN \<longrightarrow> run_kept x (w_db w) (w_db w')
          \<or> run_gone x (w_db w') \<and> (\<exists>w1 w2. history w w1 \<and> forgets (run_channel_id x) w1 w2 \<and> history w2 w'))"

lemma history_kept_refl: "history_kept w w"
  by (simp add: history_kept_def run_kept_def)

lemma history_kept_step:
  assumes step: "service_step w w'" and ok: "sound w"
  shows "history_kept w w'"
proof -
  obtain C where "step_ok C (w_db w) (w_db w')" "\<forall>c \<in> C. forgets c w w'"
    using service_step_ok [OF step] ok by (auto simp: sound_def)
  then show ?thesis using step unfolding history_kept_def step_ok_def by blast
qed

lemma history_kept_trans:
  assumes one: "history_kept w v" and two: "history_kept v u"
  shows "history_kept w u"
  unfolding history_kept_def
proof (intro conjI ballI impI)
  show run: "history w u" using one two by (auto simp: history_kept_def)
  show "run_id ` set (runs (w_db u)) \<subseteq> run_id ` set (runs (w_db w))" using one two unfolding history_kept_def by blast
  fix x assume x: "x \<in> set (runs (w_db w))" "run_status x \<noteq> OPEN"
  let ?gone = "\<lambda>w w'. run_gone x (w_db w') \<and> (\<exists>w1 w2. history w w1 \<and> forgets (run_channel_id x) w1 w2 \<and> history w2 w')"
  have hist: "history w v" "history v u" using one two by (simp_all add: history_kept_def)
  consider (kept) "run_kept x (w_db w) (w_db v)" | (gone) "?gone w v" using one x unfolding history_kept_def by blast
  then show "run_kept x (w_db w) (w_db u) \<or> ?gone w u"
  proof cases
    case kept
    then have "run_kept x (w_db v) (w_db u) \<or> ?gone v u" using two x(2) by (auto simp: history_kept_def run_kept_def)
    then show ?thesis using kept hist(1) by (auto simp: run_kept_def intro: rtranclp_trans)
  next
    case gone
    then have "run_gone x (w_db u)" using two by (auto simp: history_kept_def run_gone_def)
    then show ?thesis using gone hist(2) by (blast intro: rtranclp_trans)
  qed
qed

text \<open>
  Property C29. The services keep the history, whatever is called and in whatever order: after any number of
  submissions, reuses, cancellations, closes, configuration changes and resets, successful or not, the database
  keeps its keys, references and limits, and every closed run has a runner and a closing time; no run appears;
  and a run that was not open any more is still there exactly as it was, with exactly the same active orders, or
  it is gone, and then a committed reset of that run's own channel is one of the steps.
\<close>

theorem services_keep_history:
  assumes "history w w'" and "schema_ok (w_db w)" and "closed_complete (w_db w)"
  shows "schema_ok (w_db w') \<and> closed_complete (w_db w')
    \<and> run_id ` set (runs (w_db w')) \<subseteq> run_id ` set (runs (w_db w))
    \<and> (\<forall>x \<in> set (runs (w_db w)). run_status x \<noteq> OPEN \<longrightarrow>
         x \<in> set (runs (w_db w')) \<and> (\<forall>u. basket (w_db w') (run_id x, u) = basket (w_db w) (run_id x, u))
         \<or> run_id x \<notin> run_id ` set (runs (w_db w'))
           \<and> (\<exists>w1 w2. history w w1 \<and> forgets (run_channel_id x) w1 w2 \<and> history w2 w'))"
proof -
  have ok: "sound w" using assms(2,3) by (simp add: sound_def)
  have "history_kept w w'"
    by (rule service_machine.reach_related [OF assms(1) ok, where R = history_kept])
      (rule history_kept_refl history_kept_trans history_kept_step; assumption)+
  moreover have "sound w'" using service_machine.reach_keeps [OF assms(1) ok] .
  ultimately show ?thesis unfolding sound_def history_kept_def run_kept_def run_gone_def by blast
qed

theorem services_keep_history_witness:
  "\<exists>w'. history fx_world w' \<and> schema_ok (w_db w') \<and> basket (w_db w') (21, 2) = basket (w_db fx_world) (21, 2)"
proof -
  let ?w = "transact None (cancel_order (uuid_str 20) (uuid_str 2)) fx_world"
  have run: "history fx_world ?w" by (rule r_into_rtranclp [of service_step, OF do_cancel])
  have "closed_complete (w_db fx_world)" by (simp add: fx_defs closed_complete_def)
  note facts = services_keep_history [OF run fx_schema_ok this]
  have "\<exists>x \<in> set (runs (w_db fx_world)). run_id x = 21 \<and> run_status x \<noteq> OPEN" by (simp add: fx_defs)
  moreover have "runs (w_db ?w) = runs (w_db fx_world)"
  proof (cases "cancel_order (uuid_str 20) (uuid_str 2) fx_world")
    case (Pair r w1)
    show ?thesis
    proof (cases r)
      case (Inr res)
      have "runs (w_db w1) = runs (w_db fx_world)"
        using cancel_order_spec [OF fx_schema_ok Pair [unfolded Inr]] by (metis db.select_convs(3) db.surjective db.update_convs(4))
      then show ?thesis by (simp add: transact_def transaction_def Pair Inr)
    qed (simp add: transact_def transaction_def Pair)
  qed
  ultimately have "basket (w_db ?w) (21, u) = basket (w_db fx_world) (21, u)" for u
    using facts by (metis imageI)
  with facts run show ?thesis by blast
qed

end
