(* ===== verification/Ledger.thy ===== *)
theory Ledger
  imports System
begin

text \<open>
  What the services promise together. The \<open>ledger\<close> is the whole database as the users see it: the runs with their
  channel, status and runner, who has ordered what, what is remembered for whom, and how often everybody has run.
  Four actions change it; \<open>perform\<close> says when one is allowed and what it does. Every transaction of the order, closing
  and admin services is one of these actions or none, so that what holds of the actions holds of the program.
\<close>

section \<open>The abstract machine\<close>

record ledger =
  lg_run :: "uuid \<Rightarrow> (uuid \<times> run_status \<times> uuid option) option"
  lg_basket :: "uuid \<times> uuid \<Rightarrow> string option"
  lg_usual :: "uuid \<times> uuid \<Rightarrow> string option"
  lg_served :: "uuid \<Rightarrow> uuid \<Rightarrow> int"

text \<open>Run, user, text, and whether the text is remembered; run and user; run and runner; channel.\<close>

datatype action = Place uuid uuid string bool | Withdraw uuid uuid | Close uuid uuid | Forget uuid

fun perform :: "action \<Rightarrow> ledger \<Rightarrow> ledger option" where
  "perform (Place r u t remember) L =
     (case lg_run L r of
        Some (c, OPEN, _) \<Rightarrow> Some (L\<lparr>lg_basket := (lg_basket L)((r, u) \<mapsto> t),
          lg_usual := (if remember then (lg_usual L)((u, c) \<mapsto> t) else lg_usual L)\<rparr>)
      | _ \<Rightarrow> None)"
| "perform (Withdraw r u) L =
     (case lg_run L r of
        Some (c, OPEN, _) \<Rightarrow> if lg_basket L (r, u) = None then None
          else Some (L\<lparr>lg_basket := (lg_basket L)((r, u) := None)\<rparr>)
      | _ \<Rightarrow> None)"
| "perform (Close r u) L =
     (case lg_run L r of
        Some (c, OPEN, _) \<Rightarrow> if lg_basket L (r, u) = None then None
          else Some (L\<lparr>lg_run := (lg_run L)(r \<mapsto> (c, CLOSED, Some u)),
            lg_served := (\<lambda>c' v. if c' = c \<and> v = u then lg_served L c' v + 1 else lg_served L c' v)\<rparr>)
      | _ \<Rightarrow> None)"
| "perform (Forget c) L = Some
     \<lparr>lg_run = (\<lambda>r. case lg_run L r of None \<Rightarrow> None | Some (c', x) \<Rightarrow> if c' = c then None else Some (c', x)),
      lg_basket = (\<lambda>(r, u). case lg_run L r of None \<Rightarrow> None | Some (c', _) \<Rightarrow> if c' = c then None else lg_basket L (r, u)),
      lg_usual = (\<lambda>(u, c'). if c' = c then None else lg_usual L (u, c')),
      lg_served = (\<lambda>c' u. if c' = c then 0 else lg_served L c' u)\<rparr>"

abbreviation perform_all :: "action list \<Rightarrow> ledger \<Rightarrow> ledger option" where
  "perform_all \<equiv> run_actions perform"

section \<open>The ledger of a database\<close>

definition run_entry :: "run \<Rightarrow> uuid \<times> run_status \<times> uuid option" where
  "run_entry x = (run_channel_id x, run_status x, run_runner_user_id x)"

definition ledger_of :: "db \<Rightarrow> ledger" where
  "ledger_of d = \<lparr>lg_run = (\<lambda>r. map_option run_entry (lookup_by run_id r (runs d))),
     lg_basket = basket d, lg_usual = usual d, lg_served = served d\<rparr>"

definition refines :: "db \<Rightarrow> db \<Rightarrow> bool" where
  "refines d d' \<longleftrightarrow> ledger_of d' = ledger_of d \<or> (\<exists>a. perform a (ledger_of d) = Some (ledger_of d'))"

lemma refinesI: "perform a (ledger_of d) = Some (ledger_of d') \<Longrightarrow> refines d d'"
  by (auto simp: refines_def)

lemma served_same: "runner_stats d' = runner_stats d \<Longrightarrow> served d' = served d"
  by (simp add: served_def fun_eq_iff)

lemma place_refines:
  assumes ok: "schema_ok (w_db w)" "fresh_draws 2 w"
    and rn: "get_open_run (Text i) w = (Inr rn, w)" and us: "get_user (Text j) w = (Inr us, w)"
    and run: "persist_order rn us t c p w = (Inr res, w')"
  shows "perform (Place (run_id rn) (user_id us) t c) (ledger_of (w_db w)) = Some (ledger_of (w_db w'))"
proof -
  have "rn \<in> set (runs (w_db w))" "us \<in> set (users (w_db w))"
    using open_run_in [OF rn] user_in [OF us] by auto
  note facts = persist_order_facts [OF ok this run]
  show ?thesis
    using open_run_in [OF rn] facts served_same [OF facts(6)] by (simp add: ledger_of_def run_entry_def)
qed

lemma submit_refines:
  assumes "schema_ok (w_db w)" "fresh_draws 2 w" "submit_order v q w = (Inr res, w')"
  shows "refines (w_db w) (w_db w')"
  using assms(3) unfolding submit_order_Inr
proof (elim exE conjE)
  fix rn us t
  assume "get_open_run (Text (req_run_id q)) w = (Inr rn, w)" and "get_user (Text (req_user_id q)) w = (Inr us, w)"
    and "persist_order rn us t (req_confirm q) (req_provenance q) w = (Inr res, w')"
  from place_refines [OF assms(1,2) this] show ?thesis by (rule refinesI)
qed

lemma touched_ledger: "ledger_of (w_db (touched p w)) = ledger_of (w_db w)"
proof -
  have "runs (w_db (touched p w)) = runs (w_db w)" "runner_stats (w_db (touched p w)) = runner_stats (w_db w)"
    by (simp_all add: touched_def)
  then show ?thesis unfolding ledger_of_def touched_view by (simp only: served_same [of "w_db (touched p w)" "w_db w"])
qed

lemma reuse_refines:
  assumes "schema_ok (w_db w)" "fresh_draws 2 w" "use_last_order v rid uid w = (Inr res, w')"
  shows "refines (w_db w) (w_db w')"
  using assms(3)
proof (rule use_last_order_Inr)
  fix rn us p t w1
  assume w': "w' = touched p w1" and run: "get_open_run (Text rid) w = (Inr rn, w)" "get_user (Text uid) w = (Inr us, w)"
    "persist_order rn us t True PREFERENCE w = (Inr (use_submission res), w1)"
  show ?thesis
    using place_refines [OF assms(1,2) run] by (intro refinesI) (simp only: w' touched_ledger)
qed

lemma cancel_refines:
  assumes "schema_ok (w_db w)" "cancel_order rid uid w = (Inr res, w')"
  shows "refines (w_db w) (w_db w')"
proof (rule cancel_order_spec [OF assms])
  fix rn us o0
  assume rn: "get_open_run (Text rid) w = (Inr rn, w)"
    and row: "lookup_by order_key (run_id rn, user_id us) (orders (w_db w)) = Some o0" "order_canceled_at o0 = None"
    and b: "basket (w_db w') = (basket (w_db w))((run_id rn, user_id us) := None)"
    and d: "w_db w' = (w_db w)\<lparr>orders := orders (w_db w')\<rparr>"
  have same: "runs (w_db w') = runs (w_db w)" "user_preferences (w_db w') = user_preferences (w_db w)"
    "runner_stats (w_db w') = runner_stats (w_db w)"
    by (subst d, simp)+
  have "basket (w_db w) (run_id rn, user_id us) \<noteq> None" using row by (simp add: basket_def)
  then have "perform (Withdraw (run_id rn) (user_id us)) (ledger_of (w_db w)) = Some (ledger_of (w_db w'))"
    using open_run_in [OF rn] b same served_same [OF same(3)] by (simp add: ledger_of_def run_entry_def usual_def fun_eq_iff)
  then show ?thesis by (rule refinesI)
qed

lemma close_refines:
  assumes ok: "schema_ok (w_db w)" and fresh: "fresh_draws (length (orders (w_db w))) w"
    and run: "close_run srv q w = (Inr res, w')"
  shows "refines (w_db w) (w_db w')"
proof (rule close_run_view [OF ok _ run])
  show "fresh_draws (length (orders (w_db w)) + 0) w" using fresh by simp
  fix rn u t
  assume rn: "close_get_run (crq_run_id q) w = (Inr rn, w)" "run_status rn = OPEN"
    and u: "u \<in> basket_users (w_db w) (run_id rn)"
    and rs: "runs (w_db w') = map (\<lambda>x. if x = rn then closed_run rn u t else x) (runs (w_db w))"
    and os: "orders (w_db w') = map (\<lambda>o'. if active_in (run_id rn) o' then finalized t o' else o') (orders (w_db w))"
    and served: "served (w_db w') = (\<lambda>c' v. if c' = run_channel_id rn \<and> v = u then served (w_db w) c' v + 1 else served (w_db w) c' v)"
    and same: "users (w_db w') = users (w_db w) \<and> channels (w_db w') = channels (w_db w)
      \<and> user_preferences (w_db w') = user_preferences (w_db w)
      \<and> channel_admin_actions (w_db w') = channel_admin_actions (w_db w)"
  have row: "lookup_by run_id (run_id rn) (runs (w_db w)) = Some rn"
    using rn(1) by (auto simp: close_get_run_Inr dest: lookup_by_Some)
  then have mem: "rn \<in> set (runs (w_db w))" by (auto dest: lookup_by_Some)
  have dist: "distinct (map run_id (runs (w_db w)))" using ok by (simp add: schema_defs)
  have entry: "map_option run_entry (lookup_by run_id r (runs (w_db w')))
      = (if r = run_id rn then Some (run_channel_id rn, CLOSED, Some u) else map_option run_entry (lookup_by run_id r (runs (w_db w))))" for r
  proof -
    have found: "lookup_by run_id r (runs (w_db w')) = map_option (\<lambda>x. if x = rn then closed_run rn u t else x) (lookup_by run_id r (runs (w_db w)))"
      unfolding rs by (rule lookup_by_map) (simp add: closed_run_def)
    show ?thesis
    proof (cases "r = run_id rn")
      case True
      then show ?thesis using found row by (simp add: run_entry_def closed_run_def)
    next
      case False
      then show ?thesis using found by (cases "lookup_by run_id r (runs (w_db w))") (auto dest: lookup_by_Some)
    qed
  qed
  have "perform (Close (run_id rn) u) (ledger_of (w_db w)) = Some (ledger_of (w_db w'))"
    using row rn(2) u entry served basket_finalized [OF os] same
    by (simp add: ledger_of_def run_entry_def basket_users_def usual_def fun_eq_iff)
  then show ?thesis by (rule refinesI)
qed

lemma reset_refines:
  assumes trail: "audit_trail (admin_audit adm)" and ok: "schema_ok (w_db w)" and run: "reset_channel_data adm slack actor w = (Inr res, w')"
  shows "refines (w_db w) (w_db w')"
proof (rule reset_channel_data_spec [OF trail ok run])
  fix ch
  let ?c = "channel_id ch"
  assume rs: "runs (w_db w') = filter (\<lambda>r. run_channel_id r \<noteq> ?c) (runs (w_db w))"
    and os: "orders (w_db w') = filter (\<lambda>o'. \<exists>r \<in> set (runs (w_db w')). run_id r = order_run_id o') (orders (w_db w))"
    and views: "usual (w_db w') = (\<lambda>(u, c). if c = ?c then None else usual (w_db w) (u, c))"
      "served (w_db w') = (\<lambda>c u. if c = ?c then 0 else served (w_db w) c u)"
  have dist: "distinct (map run_id (runs (w_db w)))" using ok by (simp add: schema_defs)
  have entry: "lookup_by run_id r (runs (w_db w'))
      = (case lookup_by run_id r (runs (w_db w)) of None \<Rightarrow> None | Some x \<Rightarrow> if run_channel_id x = ?c then None else Some x)" for r
  proof (cases "lookup_by run_id r (runs (w_db w))")
    case None
    then have "lookup_by run_id r (runs (w_db w')) = None" unfolding rs lookup_by_None by auto
    with None show ?thesis by simp
  next
    case (Some x)
    then have x: "run_id x = r" "x \<in> set (runs (w_db w))" by (auto dest: lookup_by_Some)
    have only: "y = x" if "y \<in> set (runs (w_db w))" "run_id y = r" for y
      using that x dist distinct_map_eq by metis
    show ?thesis
    proof (cases "run_channel_id x = ?c")
      case True
      then have "lookup_by run_id r (runs (w_db w')) = None"
        using only by (auto simp: rs lookup_by_None)
      with Some True show ?thesis by simp
    next
      case False
      have "lookup_by run_id r (runs (w_db w')) = lookup_by run_id r (runs (w_db w))"
        unfolding rs by (rule lookup_by_filter) (use only False in auto)
      with Some False show ?thesis by simp
    qed
  qed
  have basket: "basket (w_db w') (r, u) = (case lookup_by run_id r (runs (w_db w')) of None \<Rightarrow> None | Some _ \<Rightarrow> basket (w_db w) (r, u))" for r u
  proof (cases "lookup_by run_id r (runs (w_db w'))")
    case None
    then have "lookup_by order_key (r, u) (orders (w_db w')) = None"
      by (auto simp: os lookup_by_None order_key_def)
    with None show ?thesis by (simp add: basket_def)
  next
    case (Some x)
    then have "run_id x = r" "x \<in> set (runs (w_db w'))" by (auto dest: lookup_by_Some)
    then have "lookup_by order_key (r, u) (orders (w_db w')) = lookup_by order_key (r, u) (orders (w_db w))"
      unfolding os by (intro lookup_by_filter) (auto simp: order_key_def)
    with Some show ?thesis by (simp add: basket_def)
  qed
  have "perform (Forget ?c) (ledger_of (w_db w)) = Some (ledger_of (w_db w'))"
    using views by (simp add: ledger_of_def entry basket run_entry_def fun_eq_iff split: option.splits)
  then show ?thesis by (rule refinesI)
qed

lemma configure_refines:
  assumes "audit_trail (admin_audit adm)" "schema_ok (w_db w)" "update_channel_config adm slack actor p w = (Inr res, w')"
  shows "refines (w_db w) (w_db w')"
proof -
  have "runs (w_db w') = runs (w_db w) \<and> orders (w_db w') = orders (w_db w)
      \<and> user_preferences (w_db w') = user_preferences (w_db w) \<and> runner_stats (w_db w') = runner_stats (w_db w)"
    using update_channel_config_spec [OF assms] by simp
  then show ?thesis by (simp add: refines_def ledger_of_def basket_def usual_def served_def fun_eq_iff)
qed

lemma enable_refines:
  assumes "audit_trail (admin_audit adm)" "schema_ok (w_db w)" "set_channel_enabled adm slack actor en reason w = (Inr res, w')"
  shows "refines (w_db w) (w_db w')"
proof -
  have "runs (w_db w') = runs (w_db w) \<and> orders (w_db w') = orders (w_db w)
      \<and> user_preferences (w_db w') = user_preferences (w_db w) \<and> runner_stats (w_db w') = runner_stats (w_db w)"
    using set_channel_enabled_spec [OF assms] by simp
  then show ?thesis by (simp add: refines_def ledger_of_def basket_def usual_def served_def fun_eq_iff)
qed

section \<open>The services refine the machine\<close>

lemma transact_refines:
  assumes "\<And>res w'. f w = (Inr res, w') \<Longrightarrow> refines (w_db w) (w_db w')"
  shows "refines (w_db w) (w_db (transact c f w))"
  unfolding transact_def by (rule service_call.carries [where R = refines]) (simp_all add: refines_def assms [unfolded refines_def])

lemma service_step_refines:
  assumes "service_step w w'" and ok: "schema_ok (w_db w)"
  shows "refines (w_db w) (w_db w')"
  using assms(1)
proof cases
  case do_submit
  then show ?thesis using submit_refines [OF ok] by (auto intro!: transact_refines)
next
  case do_reuse
  then show ?thesis using reuse_refines [OF ok] by (auto intro!: transact_refines)
next
  case do_cancel
  then show ?thesis using cancel_refines [OF ok] by (auto intro!: transact_refines)
next
  case do_close
  then show ?thesis using close_refines [OF ok] by (auto intro!: transact_refines)
next
  case do_configure
  then show ?thesis using configure_refines [OF _ ok] by (auto intro!: transact_refines)
next
  case do_enable
  then show ?thesis using enable_refines [OF _ ok] by (auto intro!: transact_refines)
next
  case do_reset
  then show ?thesis using reset_refines [OF _ ok] by (auto intro!: transact_refines)
qed

interpretation service_ledger: simulation service_step sound "\<lambda>w. ledger_of (w_db w)" perform
proof unfold_locales
  fix w w' assume "service_step w w'" and "sound w"
  then show "ledger_of (w_db w') = ledger_of (w_db w) \<or> (\<exists>a. perform a (ledger_of (w_db w)) = Some (ledger_of (w_db w')))"
    using service_step_refines unfolding sound_def refines_def by blast
qed

section \<open>What the actions keep\<close>

text \<open>
  The statistics are the books of the runs: for every channel and user, the count is the number of closed
  runs of the channel which that user ran. A reset clears both sides.
\<close>

definition books_balance :: "ledger \<Rightarrow> bool" where
  "books_balance L \<longleftrightarrow> (\<forall>c u. lg_served L c u = int (card {r. lg_run L r = Some (c, CLOSED, Some u)}))"

lemma perform_books:
  assumes "perform a L = Some L'" and "books_balance L"
  shows "books_balance L'"
proof (cases a)
  case (Close r u)
  then obtain c x where row: "lg_run L r = Some (c, OPEN, x)"
    and L': "lg_run L' = (lg_run L)(r \<mapsto> (c, CLOSED, Some u))"
      "lg_served L' = (\<lambda>c' v. if c' = c \<and> v = u then lg_served L c' v + 1 else lg_served L c' v)"
    using assms(1) by (auto split: option.splits run_status.splits if_splits)
  have "{r'. lg_run L' r' = Some (c', CLOSED, Some v)}
      = (if c' = c \<and> v = u then insert r {r'. lg_run L r' = Some (c', CLOSED, Some v)}
         else {r'. lg_run L r' = Some (c', CLOSED, Some v)})" for c' v
    using row by (auto simp: L'(1) split: if_splits)
  moreover have "r \<notin> {r'. lg_run L r' = Some (c', CLOSED, Some v)}" for c' v using row by simp
  ultimately show ?thesis
    using assms(2) by (simp add: books_balance_def L'(2))
next
  case (Forget c)
  have "{r. lg_run L' r = Some (c', CLOSED, Some v)}
      = (if c' = c then {} else {r. lg_run L r = Some (c', CLOSED, Some v)})" for c' v
    using assms(1) Forget by (auto split: option.splits if_splits)
  moreover have "lg_served L' = (\<lambda>c' u. if c' = c then 0 else lg_served L c' u)"
    using assms(1) Forget by auto
  ultimately show ?thesis using assms(2) by (simp add: books_balance_def)
qed (use assms in \<open>auto simp: books_balance_def split: option.splits run_status.splits if_splits\<close>)

interpretation service_books: simulated_invariant service_step sound "\<lambda>w. ledger_of (w_db w)" perform books_balance
  by unfold_locales (rule perform_books)

text \<open>The closed runs of a channel that a user ran, as rows.\<close>

definition served_runs :: "db \<Rightarrow> uuid \<Rightarrow> uuid \<Rightarrow> run list" where
  "served_runs d c u = filter (\<lambda>x. run_channel_id x = c \<and> run_status x = CLOSED \<and> run_runner_user_id x = Some u) (runs d)"

lemma served_runs_card:
  assumes "distinct (map run_id (runs d))"
  shows "card {r. lg_run (ledger_of d) r = Some (c, CLOSED, Some u)} = length (served_runs d c u)"
proof -
  have "{r. lg_run (ledger_of d) r = Some (c, CLOSED, Some u)} = run_id ` set (served_runs d c u)" (is "?A = ?B")
  proof
    show "?A \<subseteq> ?B" by (auto simp: ledger_of_def run_entry_def served_runs_def dest: lookup_by_Some)
    show "?B \<subseteq> ?A"
      using lookup_by_in [OF assms] by (auto simp: ledger_of_def run_entry_def served_runs_def)
  qed
  moreover have "distinct (map run_id (served_runs d c u))"
    using assms by (simp add: served_runs_def distinct_map_filter)
  then have "card (set (map run_id (served_runs d c u))) = length (map run_id (served_runs d c u))"
    by (rule distinct_card)
  ultimately show ?thesis by simp
qed

lemma books_of_db:
  assumes "schema_ok d"
  shows "books_balance (ledger_of d) \<longleftrightarrow> (\<forall>c u. served d c u = int (length (served_runs d c u)))"
proof -
  have "distinct (map run_id (runs d))" using assms by (simp add: schema_defs)
  from served_runs_card [OF this] show ?thesis by (simp add: books_balance_def) (simp add: ledger_of_def)
qed

section \<open>Properties\<close>

text \<open>
  Property C5. The services implement the abstract machine of the coffee run: seen through the ledger, which has the
  runs, baskets, remembered texts and counts, every transaction of a service, whichever it is and however it ends, does
  nothing or performs exactly one of the four actions, and only one that is allowed: an order is placed or withdrawn
  in an open run only, a run is closed once and its runner is somebody who has an order in it, and a reset forgets one channel. So any
  history of calls is a sequence of allowed actions.
\<close>

theorem services_refine_ledger:
  assumes "schema_ok (w_db w)" and "closed_complete (w_db w)"
  shows "(\<forall>w1 w2. history w w1 \<longrightarrow> service_step w1 w2 \<longrightarrow>
      ledger_of (w_db w2) = ledger_of (w_db w1) \<or> (\<exists>a. perform a (ledger_of (w_db w1)) = Some (ledger_of (w_db w2))))
    \<and> (\<forall>w1. history w w1 \<longrightarrow> (\<exists>as. perform_all as (ledger_of (w_db w)) = Some (ledger_of (w_db w1))))"
proof (intro conjI allI impI)
  have ok: "sound w" using assms by (simp add: sound_def)
  fix w1 assume w1: "history w w1"
  show "\<exists>as. perform_all as (ledger_of (w_db w)) = Some (ledger_of (w_db w1))"
    using w1 ok by (rule service_ledger.reach_actions)
  show "ledger_of (w_db w2) = ledger_of (w_db w1) \<or> (\<exists>a. perform a (ledger_of (w_db w1)) = Some (ledger_of (w_db w2)))"
    if "service_step w1 w2" for w2
    using that service_machine.reach_keeps [OF w1 ok] by (rule service_ledger.step_simulated)
qed

definition fx_closed :: world where
  "fx_closed = transact None (close_run fx_closing fx_close) fx_world"

lemma fx_closed_history: "history fx_world fx_closed"
proof -
  have "fresh_draws (length (orders (w_db fx_world))) fx_world" using fx_fresh_close by simp
  then show ?thesis unfolding fx_closed_def by (intro r_into_rtranclp do_close)
qed

lemma fx_complete: "closed_complete (w_db fx_world)"
  by (simp add: fx_defs closed_complete_def)

theorem services_refine_ledger_witness:
  "\<exists>as. perform_all as (ledger_of (w_db fx_world)) = Some (ledger_of (w_db fx_closed))"
  using services_refine_ledger [OF fx_schema_ok fx_complete] fx_closed_history by blast

text \<open>
  Property C13. The fairness statistics are the books of the runs, and they balance: if for every channel and user the
  count of runs served is the number of closed runs of the channel which that user ran, it is so after any
  history of calls, with failed transactions, repeated closes and channel resets among them. So what
  the choice of the next runner compares is what really happened.
\<close>

theorem served_counts_closed_runs:
  assumes "history w w'" and "schema_ok (w_db w)" and "closed_complete (w_db w)"
    and "\<forall>c u. served (w_db w) c u = int (length (served_runs (w_db w) c u))"
  shows "\<forall>c u. served (w_db w') c u = int (length (served_runs (w_db w') c u))"
proof -
  have "sound w \<and> books_balance (ledger_of (w_db w))"
    using assms(2-4) books_of_db by (simp add: sound_def)
  with assms(1) have "sound w' \<and> books_balance (ledger_of (w_db w'))" by (rule service_books.carried.reach_keeps)
  then show ?thesis using books_of_db [of "w_db w'"] by (simp add: sound_def)
qed

theorem served_counts_closed_runs_witness:
  "history fx_world fx_closed \<and> (\<forall>c u. served (w_db fx_closed) c u = int (length (served_runs (w_db fx_closed) c u)))"
proof -
  have "\<forall>c u. served (w_db fx_world) c u = int (length (served_runs (w_db fx_world) c u))"
    by (auto simp: fx_defs served_def served_runs_def lookup_by_def stat_key_def)
  with served_counts_closed_runs [OF fx_closed_history fx_schema_ok fx_complete] fx_closed_history
  show ?thesis by blast
qed

end
