(* ===== verification/Urls.thy ===== *)
theory Urls
  imports Identifiers
begin

text \<open>
  Text on the wire: UTF-8, percent encoding (\<open>urllib.parse.quote_plus\<close>, which \<open>infra/db/session.py\<close> uses for
  the database URL) and its inverse inside \<open>parse_qs\<close>, which \<open>api/slack_runs/router.py\<close> uses for the form body.

  Strings of the model hold code points below 256, so encoding is defined here while decoding, whose result
  may hold any code point, is an argument: \<open>dec\<close> is \<open>bytes.decode('utf-8', 'replace')\<close>.
\<close>

section \<open>Encoding\<close>

definition is_ascii :: "char \<Rightarrow> bool" where
  "is_ascii c \<longleftrightarrow> (of_char c :: nat) < 128"

definition utf8_char :: "char \<Rightarrow> string" where
  "utf8_char c = (let n = of_char c :: nat in
     if n < 128 then [c] else [char_of (192 + n div 64), char_of (128 + n mod 64)])"

definition utf8_encode :: "string \<Rightarrow> string" where
  "utf8_encode s = concat (map utf8_char s)"

definition always_safe :: "char \<Rightarrow> bool" where
  "always_safe c \<longleftrightarrow> (let n = of_char c :: nat in
     65 \<le> n \<and> n \<le> 90 \<or> 97 \<le> n \<and> n \<le> 122 \<or> 48 \<le> n \<and> n \<le> 57 \<or> c \<in> set ''_.-~'')"

definition hex_upper :: "nat \<Rightarrow> char" where
  "hex_upper d = ''0123456789ABCDEF'' ! d"

text \<open>\<open>%XX\<close>, or the byte itself when it is safe.\<close>

definition quote_byte :: "string \<Rightarrow> char \<Rightarrow> string" where
  "quote_byte safe c =
     (if always_safe c \<or> c \<in> set safe then [c]
      else [CHR ''%'', hex_upper (of_char c div 16), hex_upper (of_char c mod 16)])"

definition quote :: "string \<Rightarrow> string \<Rightarrow> string" where
  "quote safe s = concat (map (quote_byte safe) (utf8_encode s))"

definition quote_plus :: "string \<Rightarrow> string" where
  "quote_plus s = (if CHR '' '' \<notin> set s then quote [] s else py_replace '' '' ''+'' (quote '' '' s))"

section \<open>Decoding\<close>

definition hex_val :: "char \<Rightarrow> nat option" where
  "hex_val c = (case digit_val c of Some d \<Rightarrow> if d < 16 then Some d else None | None \<Rightarrow> None)"

fun unquote_bytes :: "string \<Rightarrow> string" where
  "unquote_bytes (p # a # b # cs) =
     (if p = CHR ''%'' then (case (hex_val a, hex_val b) of
          (Some x, Some y) \<Rightarrow> char_of (16 * x + y) # unquote_bytes cs
        | _ \<Rightarrow> p # unquote_bytes (a # b # cs))
      else p # unquote_bytes (a # b # cs))"
| "unquote_bytes cs = cs"

text \<open>\<open>unquote\<close> decodes each maximal run of ASCII characters by itself.\<close>

function unquote_runs :: "(string \<Rightarrow> string) \<Rightarrow> string \<Rightarrow> string" where
  "unquote_runs dec [] = []"
| "unquote_runs dec (c # cs) =
     (if is_ascii c then dec (unquote_bytes (c # takeWhile is_ascii cs)) @ unquote_runs dec (dropWhile is_ascii cs)
      else c # unquote_runs dec cs)"
  by pat_completeness auto
termination
  by (relation "measure (\<lambda>(dec, s). length s)") (auto simp: less_Suc_eq_le length_dropWhile_le)

definition unquote :: "(string \<Rightarrow> string) \<Rightarrow> string \<Rightarrow> string" where
  "unquote dec s = (if CHR ''%'' \<notin> set s then s else unquote_runs dec s)"

definition unquote_plus :: "(string \<Rightarrow> string) \<Rightarrow> string \<Rightarrow> string" where
  "unquote_plus dec s = unquote dec (py_replace ''+'' '' '' s)"

section \<open>Characters of an encoded text\<close>

lemma hex_upper_table: "list_all (\<lambda>d. hex_val (hex_upper d) = Some d \<and> is_ascii (hex_upper d)
    \<and> always_safe (hex_upper d) \<and> hex_upper d \<noteq> CHR '' '') [0..<16]"
  by (simp add: upt_rec hex_upper_def hex_val_def digit_val_def is_ascii_def always_safe_def Let_def)

lemma hex_upper_facts:
  assumes "d < 16"
  shows "hex_val (hex_upper d) = Some d" and "is_ascii (hex_upper d)" and "always_safe (hex_upper d)"
    and "hex_upper d \<noteq> CHR '' ''"
  using hex_upper_table assms by (auto simp: list_all_iff)

lemma char_div_16: "(of_char c :: nat) div 16 < 16"
  by (rule less_mult_imp_div_less) simp

lemma always_safe_facts:
  assumes "always_safe c"
  shows "is_ascii c" and "c \<noteq> CHR ''%''" and "c \<noteq> CHR ''+''" and "c \<noteq> CHR '' ''"
    and "c \<notin> set '':/@?#&=''"
  using assms by (auto simp: always_safe_def is_ascii_def Let_def)

lemma safe_ascii: "always_safe c \<or> c \<in> set safe \<Longrightarrow> set safe \<subseteq> {CHR '' ''} \<Longrightarrow> is_ascii c"
  using always_safe_facts(1) [of c] by (auto simp: is_ascii_def)

lemma quote_byte_chars:
  assumes "x \<in> set (quote_byte safe c)" and "set safe \<subseteq> {CHR '' ''}"
  shows "always_safe x \<or> x = CHR ''%'' \<or> x \<in> set safe"
  using assms hex_upper_facts char_div_16 [of c] by (auto simp: quote_byte_def split: if_splits)

lemma quote_chars:
  "x \<in> set (quote safe s) \<Longrightarrow> set safe \<subseteq> {CHR '' ''} \<Longrightarrow> always_safe x \<or> x = CHR ''%'' \<or> x \<in> set safe"
  by (auto simp: quote_def dest: quote_byte_chars)

lemma py_replace_one: "py_replace [x] [y] s = map (\<lambda>c. if c = x then y else c) s"
  by (induction s) auto

lemma quote_plus_chars:
  assumes "x \<in> set (quote_plus s)"
  shows "always_safe x \<or> x = CHR ''%'' \<or> x = CHR ''+''"
proof (cases "CHR '' '' \<in> set s")
  case False
  then show ?thesis using assms quote_chars [of x "[]" s] by (auto simp: quote_plus_def)
next
  case True
  then obtain y where "y \<in> set (quote '' '' s)" "x = (if y = CHR '' '' then CHR ''+'' else y)"
    using assms by (auto simp: quote_plus_def py_replace_one)
  then show ?thesis using quote_chars [of y "'' ''" s] by (auto split: if_splits)
qed

section \<open>Decoding what was encoded\<close>

lemma unquote_bytes_other: "p \<noteq> CHR ''%'' \<Longrightarrow> unquote_bytes (p # cs) = p # unquote_bytes cs"
  by (cases cs rule: unquote_bytes.cases) auto

lemma unquote_bytes_quote:
  assumes "set safe \<subseteq> {CHR '' ''}"
  shows "unquote_bytes (concat (map (quote_byte safe) bs)) = bs"
proof (induction bs)
  case Nil
  then show ?case by simp
next
  case (Cons b bs)
  show ?case
  proof (cases "always_safe b \<or> b \<in> set safe")
    case True
    then have "b \<noteq> CHR ''%''" using assms always_safe_facts(2) by auto
    with True Cons.IH show ?thesis by (auto simp: quote_byte_def unquote_bytes_other)
  next
    case False
    have "16 * (of_char b div 16) + of_char b mod 16 = (of_char b :: nat)" by simp
    then have "char_of (16 * (of_char b div 16 :: nat) + of_char b mod 16) = b" by (metis char_of_char)
    with False Cons.IH show ?thesis
      by (simp add: quote_byte_def hex_upper_facts char_div_16)
  qed
qed

lemma utf8_ascii: "\<forall>c \<in> set (utf8_encode s). is_ascii c \<Longrightarrow> utf8_encode s = s"
proof (induction s)
  case Nil
  then show ?case by (simp add: utf8_encode_def)
next
  case (Cons c s)
  have "(of_char c :: nat) < 128"
  proof (rule ccontr)
    assume "\<not> (of_char c :: nat) < 128"
    then have "char_of (192 + of_char c div 64 :: nat) \<in> set (utf8_encode (c # s))"
      by (simp add: utf8_encode_def utf8_char_def Let_def)
    then have "is_ascii (char_of (192 + of_char c div 64 :: nat))" using Cons.prems by blast
    then show False
      using nat_of_char_less_256 [of c] by (simp add: is_ascii_def of_char_of take_bit_eq_mod)
  qed
  with Cons show ?case by (simp add: utf8_encode_def utf8_char_def Let_def)
qed

lemma unquote_runs_ascii: "\<forall>c \<in> set s. is_ascii c \<Longrightarrow> s \<noteq> [] \<Longrightarrow> unquote_runs dec s = dec (unquote_bytes s)"
  by (cases s) (simp_all add: takeWhile_eq_all_conv [THEN iffD2] dropWhile_eq_Nil_conv [THEN iffD2])

lemma unquote_quote:
  assumes dec: "dec (utf8_encode s) = s" and safe: "set safe \<subseteq> {CHR '' ''}"
  shows "unquote dec (quote safe s) = s"
proof (cases "CHR ''%'' \<in> set (quote safe s)")
  case True
  have "is_ascii x" if "x \<in> set (quote safe s)" for x
    using quote_chars [OF that safe] safe always_safe_facts(1) by (auto simp: is_ascii_def)
  moreover have "quote safe s \<noteq> []" using True by auto
  ultimately show ?thesis
    using True dec by (simp add: unquote_def unquote_runs_ascii) (simp add: quote_def unquote_bytes_quote [OF safe])
next
  case False
  have safe_bytes: "always_safe c \<or> c \<in> set safe" if c: "c \<in> set (utf8_encode s)" for c
  proof (rule ccontr)
    assume "\<not> (always_safe c \<or> c \<in> set safe)"
    then have "CHR ''%'' \<in> set (quote_byte safe c)" by (simp add: quote_byte_def)
    with c False show False by (auto simp: quote_def)
  qed
  then have "quote safe s = concat (map (\<lambda>c. [c]) (utf8_encode s))"
    unfolding quote_def by (intro arg_cong [where f = concat] map_cong) (auto simp: quote_byte_def)
  then have "quote safe s = utf8_encode s" by simp
  moreover have "utf8_encode s = s"
    using safe_bytes safe by (intro utf8_ascii ballI safe_ascii)
  ultimately show ?thesis using False by (simp add: unquote_def)
qed

lemma unquote_plus_quote_plus:
  assumes "dec (utf8_encode s) = s"
  shows "unquote_plus dec (quote_plus s) = s"
proof -
  have plus: "CHR ''+'' \<notin> set (quote safe s)" if "set safe \<subseteq> {CHR '' ''}" for safe
  proof
    assume "CHR ''+'' \<in> set (quote safe s)"
    from quote_chars [OF this that] that show False by (auto simp: always_safe_def)
  qed
  have "py_replace ''+'' '' '' (quote_plus s) = quote (if CHR '' '' \<in> set s then '' '' else []) s"
  proof (cases "CHR '' '' \<in> set s")
    case True
    have "map (\<lambda>c. if c = CHR ''+'' then CHR '' '' else c) (map (\<lambda>c. if c = CHR '' '' then CHR ''+'' else c) (quote '' '' s))
      = map id (quote '' '' s)"
      unfolding map_map using plus [of "'' ''"] by (intro map_cong) auto
    with True show ?thesis by (simp add: quote_plus_def py_replace_one)
  next
    case False
    then show ?thesis using plus [of "[]"] by (simp add: quote_plus_def py_replace_absent)
  qed
  then show ?thesis
    using unquote_quote [of dec s, OF assms] by (simp add: unquote_plus_def)
qed

text \<open>A decoder that reads UTF-8 back on the model's strings; what is no such text is kept as it is.\<close>

fun utf8_latin :: "string \<Rightarrow> string" where
  "utf8_latin (a # b # cs) =
     (if (of_char a :: nat) \<ge> 194 \<and> (of_char a :: nat) \<le> 195 \<and> (of_char b :: nat) \<ge> 128 \<and> (of_char b :: nat) < 192
      then char_of ((of_char a - 192) * 64 + (of_char b - 128) :: nat) # utf8_latin cs
      else a # utf8_latin (b # cs))"
| "utf8_latin cs = cs"

lemma utf8_latin_ascii: "(of_char c :: nat) < 128 \<Longrightarrow> utf8_latin (c # cs) = c # utf8_latin cs"
  by (cases cs) auto

lemma utf8_latin_encode: "utf8_latin (utf8_encode s) = s"
proof (induction s)
  case Nil
  then show ?case by (simp add: utf8_encode_def)
next
  case (Cons c s)
  define n where "n = (of_char c :: nat)"
  have c: "c = char_of n" "n < 256" by (simp_all add: n_def)
  show ?case
  proof (cases "n < 128")
    case True
    then show ?thesis using Cons.IH by (simp add: n_def utf8_encode_def utf8_char_def utf8_latin_ascii)
  next
    case False
    have d: "n div 64 = 2 \<or> n div 64 = 3" using False c(2) by linarith
    then have n: "194 \<le> 192 + n div 64" "192 + n div 64 \<le> 195" "(192 + n div 64 - 192) * 64 + (128 + n mod 64 - 128) = n"
      by (linarith, linarith, simp)
    have "192 + n div 64 < 256" using d by linarith
    moreover have "128 + n mod 64 < 256" "128 + n mod 64 < 192"
      using mod_less_divisor [of 64 n] by linarith+
    ultimately have bytes: "of_char (char_of (192 + n div 64) :: char) = 192 + n div 64"
      "of_char (char_of (128 + n mod 64) :: char) = 128 + n mod 64" "128 + n mod 64 < 192"
      by simp_all
    have "utf8_encode (c # s) = char_of (192 + n div 64) # char_of (128 + n mod 64) # utf8_encode s"
      using False by (simp add: utf8_encode_def utf8_char_def n_def Let_def)
    then show ?thesis
      using Cons.IH c(1) n bytes(3) by (simp only: utf8_latin.simps bytes(1,2)) simp
  qed
qed

section \<open>quote_plus read by a decoder that leaves plus signs alone\<close>

definition blanks_to_plus :: "string \<Rightarrow> string" where
  "blanks_to_plus s = map (\<lambda>c. if c = CHR '' '' then CHR ''+'' else c) s"

definition plus_byte :: "char \<Rightarrow> string" where
  "plus_byte b = (if b = CHR '' '' then ''+'' else quote_byte [] b)"

lemma high_char:
  assumes "128 \<le> n" and "n < 256"
  shows "char_of (n :: nat) \<noteq> CHR '' ''"
proof
  assume "char_of n = CHR '' ''"
  then have "of_char (char_of n :: char) = (of_char (CHR '' '') :: nat)" by (simp only:)
  then show False using assms by simp
qed

lemma utf8_char_cases:
  obtains "utf8_char c = [c]" and "is_ascii c"
  | a b where "utf8_char c = [a, b]" and "a \<noteq> CHR '' ''" and "b \<noteq> CHR '' ''" and "c \<noteq> CHR '' ''"
proof (cases "is_ascii c")
  case True
  then show ?thesis using that(1) by (simp add: utf8_char_def is_ascii_def Let_def)
next
  case False
  have "(of_char c :: nat) div 64 < 4" by (rule less_mult_imp_div_less) simp
  then have "192 + (of_char c :: nat) div 64 < 256" by linarith
  moreover have "(of_char c :: nat) mod 64 < 64" by simp
  then have "128 + (of_char c :: nat) mod 64 < 256" by linarith
  ultimately have "char_of (192 + of_char c div 64 :: nat) \<noteq> CHR '' ''" "char_of (128 + of_char c mod 64 :: nat) \<noteq> CHR '' ''"
    by (intro high_char; simp)+
  moreover have "c \<noteq> CHR '' ''" using False by (auto simp: is_ascii_def)
  ultimately show ?thesis
    using False that(2) by (simp add: utf8_char_def is_ascii_def Let_def)
qed

lemma blank_byte: "CHR '' '' \<in> set (utf8_encode s) \<longleftrightarrow> CHR '' '' \<in> set s"
proof -
  have "CHR '' '' \<in> set (utf8_char c) \<longleftrightarrow> c = CHR '' ''" for c
    by (cases c rule: utf8_char_cases) auto
  then show ?thesis by (auto simp: utf8_encode_def)
qed

lemma utf8_blanks: "utf8_encode (blanks_to_plus s) = blanks_to_plus (utf8_encode s)"
proof -
  have plus: "utf8_char (CHR ''+'') = ''+''" by (simp add: utf8_char_def)
  have "utf8_char (if c = CHR '' '' then CHR ''+'' else c) = blanks_to_plus (utf8_char c)" for c
    by (cases c rule: utf8_char_cases) (auto simp: blanks_to_plus_def plus)
  then show ?thesis
    unfolding utf8_encode_def by (induction s) (auto simp: blanks_to_plus_def)
qed

lemma quote_plus_bytes: "quote_plus s = concat (map plus_byte (utf8_encode s))"
proof (cases "CHR '' '' \<in> set s")
  case False
  then have same: "map (quote_byte []) (utf8_encode s) = map plus_byte (utf8_encode s)"
    using blank_byte [of s] by (intro map_cong) (auto simp: plus_byte_def)
  show ?thesis unfolding quote_plus_def quote_def same using False by simp
next
  case True
  have "blanks_to_plus (quote_byte '' '' b) = plus_byte b" for b
    using hex_upper_facts(4) char_div_16 [of b] always_safe_facts(4)
    by (auto simp: quote_byte_def plus_byte_def blanks_to_plus_def)
  then have "blanks_to_plus (concat (map (quote_byte '' '') bs)) = concat (map plus_byte bs)" for bs
    by (induction bs) (auto simp: blanks_to_plus_def)
  with True show ?thesis by (simp add: quote_plus_def quote_def py_replace_one blanks_to_plus_def)
qed

lemma unquote_bytes_plus: "unquote_bytes (concat (map plus_byte bs)) = blanks_to_plus bs"
proof (induction bs)
  case Nil
  then show ?case by (simp add: blanks_to_plus_def)
next
  case (Cons b bs)
  show ?case
  proof (cases "b = CHR '' ''")
    case True
    then show ?thesis using Cons.IH by (simp add: plus_byte_def unquote_bytes_other blanks_to_plus_def)
  next
    case False
    have "unquote_bytes (quote_byte [] b @ rest) = b # unquote_bytes rest" for rest
    proof (cases "always_safe b")
      case True
      then show ?thesis using always_safe_facts(2) by (simp add: quote_byte_def unquote_bytes_other)
    next
      case unsafe: False
      have "16 * (of_char b div 16) + of_char b mod 16 = (of_char b :: nat)" by simp
      then have "char_of (16 * (of_char b div 16 :: nat) + of_char b mod 16) = b" by (metis char_of_char)
      with unsafe show ?thesis by (simp add: quote_byte_def hex_upper_facts char_div_16)
    qed
    with False Cons.IH show ?thesis by (simp add: plus_byte_def blanks_to_plus_def)
  qed
qed

lemma unquote_quote_plus:
  assumes dec: "dec (utf8_encode (blanks_to_plus s)) = blanks_to_plus s"
  shows "unquote dec (quote_plus s) = blanks_to_plus s"
proof (cases "CHR ''%'' \<in> set (quote_plus s)")
  case True
  have "is_ascii x" if "x \<in> set (quote_plus s)" for x
    using quote_plus_chars [OF that] always_safe_facts(1) by (auto simp: is_ascii_def)
  moreover have "quote_plus s \<noteq> []" using True by auto
  ultimately show ?thesis
    using True dec
    by (simp add: unquote_def unquote_runs_ascii) (simp add: quote_plus_bytes unquote_bytes_plus utf8_blanks [symmetric])
next
  case False
  have plain: "always_safe c \<or> c = CHR '' ''" if c: "c \<in> set (utf8_encode s)" for c
  proof (rule ccontr)
    assume "\<not> (always_safe c \<or> c = CHR '' '')"
    then have "CHR ''%'' \<in> set (plus_byte c)" by (simp add: plus_byte_def quote_byte_def)
    with c False show False by (auto simp: quote_plus_bytes)
  qed
  then have "is_ascii c" if "c \<in> set (utf8_encode s)" for c
    using that always_safe_facts(1) by (fastforce simp: is_ascii_def)
  then have "utf8_encode s = s" by (intro utf8_ascii) blast
  moreover have "map plus_byte (utf8_encode s) = map (\<lambda>c. [if c = CHR '' '' then CHR ''+'' else c]) (utf8_encode s)"
    using plain by (intro map_cong) (auto simp: plus_byte_def quote_byte_def)
  moreover have "concat (map (\<lambda>c. [f c]) xs) = map f xs" for f :: "char \<Rightarrow> char" and xs by (induction xs) auto
  ultimately have "quote_plus s = blanks_to_plus s" unfolding quote_plus_bytes blanks_to_plus_def by metis
  with False show ?thesis by (simp add: unquote_def)
qed

end
