(* ===== verification/Kafka.thy ===== *)
theory Kafka
  imports Urls Schema "HOL-Library.AList"
begin

text \<open>
  The Kafka package (\<open>infra/kafka\<close>): topics, settings, the event envelope, the producer and the
  consumer harness.

  The clients of \<open>aiokafka\<close> are outside the repository: an object of theirs is a \<open>kclient\<close> that was
  started or closed and has sent messages, and how a call to it ends (normally or with an exception) is an
  argument of the operation. Serialisation by pydantic is an argument, too. Metrics are the list of
  the counter increments, each a pair of label values.
\<close>

type_synonym bytes = string
type_synonym metrics = "(string \<times> string) list"

definition count_status :: "string \<Rightarrow> metrics \<Rightarrow> nat" where
  "count_status status ms = length (filter (\<lambda>m. snd m = status) ms)"

text \<open>
  The histogram of the delays: the bounds of its buckets in microseconds, \<open>None\<close> the infinite one, and what it shows for
  given observations, how many lie at or below each bound.
\<close>

definition REMINDER_DELAY_BUCKETS :: "int option list" where
  "REMINDER_DELAY_BUCKETS = [Some 0, Some 5000000, Some 15000000, Some 30000000, Some 60000000, Some 120000000, None]"

definition within :: "int option \<Rightarrow> int \<Rightarrow> bool" where
  "within bound x = (case bound of None \<Rightarrow> True | Some b \<Rightarrow> x \<le> b)"

definition histogram :: "int list \<Rightarrow> nat list" where
  "histogram xs = map (\<lambda>b. length (filter (within b) xs)) REMINDER_DELAY_BUCKETS"

lemma histogram_total: "last (histogram xs) = length xs"
  by (simp add: histogram_def REMINDER_DELAY_BUCKETS_def within_def)

section \<open>Topics\<close>

record topic_config =
  topic_name :: string
  topic_partitions :: int
  topic_replication_factor :: int
  topic_retention_ms :: int
  topic_cleanup_policy :: string
  topic_description :: string
  topic_configs :: "(string \<times> string) list"

text \<open>\<open>{base..., **self.configs}\<close>: the entries of \<open>configs\<close> replace base entries of the same key.\<close>

definition merged_configs :: "topic_config \<Rightarrow> (string \<times> string) list" where
  "merged_configs tc = fold (\<lambda>(k, v) m. AList.update k v m) (topic_configs tc)
     [(''retention.ms'', int_str (topic_retention_ms tc)), (''cleanup.policy'', topic_cleanup_policy tc)]"

definition render_admin_request :: "topic_config \<Rightarrow> json" where
  "render_admin_request tc = JObj [(''topic'', JStr (topic_name tc)),
     (''num_partitions'', JInt (topic_partitions tc)),
     (''replication_factor'', JInt (topic_replication_factor tc)),
     (''configs'', JObj (map (\<lambda>(k, v). (k, JStr v)) (merged_configs tc)))]"

record topic_acl_requirement =
  acl_principal :: string
  acl_operation :: string
  acl_resource :: string
  acl_description :: string

definition RUN_EVENTS_TOPIC :: topic_config where
  "RUN_EVENTS_TOPIC = \<lparr>topic_name = ''coffeebuddy.run.events'', topic_partitions = 3,
     topic_replication_factor = 3, topic_retention_ms = 7 * 24 * 60 * 60 * 1000,
     topic_cleanup_policy = ''delete'',
     topic_description = ''Lifecycle events for coffee runs (created, updated, closed).'',
     topic_configs = [(''min.insync.replicas'', ''2'')]\<rparr>"

definition REMINDER_EVENTS_TOPIC :: topic_config where
  "REMINDER_EVENTS_TOPIC = \<lparr>topic_name = ''coffeebuddy.reminder.events'', topic_partitions = 3,
     topic_replication_factor = 3, topic_retention_ms = 24 * 60 * 60 * 1000,
     topic_cleanup_policy = ''delete'',
     topic_description = ''Reminder scheduling payloads (runner reminders, last call alerts).'',
     topic_configs = [(''min.insync.replicas'', ''2'')]\<rparr>"

definition TOPIC_REGISTRY :: "topic_config list" where
  "TOPIC_REGISTRY = [RUN_EVENTS_TOPIC, REMINDER_EVENTS_TOPIC]"

definition ACL_REQUIREMENTS :: "topic_acl_requirement list" where
  "ACL_REQUIREMENTS =
    [\<lparr>acl_principal = ''User:svc_coffeebuddy_app'', acl_operation = ''Describe,Read,Write'',
      acl_resource = ''Topic:'' @ topic_name RUN_EVENTS_TOPIC,
      acl_description = ''API service produces run lifecycle events.''\<rparr>,
     \<lparr>acl_principal = ''User:svc_coffeebuddy_reminder_worker'', acl_operation = ''Describe,Read,Write'',
      acl_resource = ''Topic:'' @ topic_name REMINDER_EVENTS_TOPIC,
      acl_description = ''Reminder worker consumes reminder events and emits outcomes.''\<rparr>]"

section \<open>KafkaSettings\<close>

record kafka_settings =
  bootstrap_servers :: string
  security_protocol :: string
  sasl_mechanism :: "string option"
  sasl_username :: "string option"
  sasl_password :: "string option"
  client_id :: string
  request_timeout_ms :: int

type_synonym env = "(string \<times> string) list"

definition env_get :: "env \<Rightarrow> string \<Rightarrow> string \<Rightarrow> string" where
  "env_get e k d = (case map_of e k of None \<Rightarrow> d | Some v \<Rightarrow> v)"

definition kafka_from_env :: "env option \<Rightarrow> env \<Rightarrow> exn + kafka_settings" where
  "kafka_from_env given environ =
     (let source = (case given of None \<Rightarrow> environ | Some e \<Rightarrow> if e = [] then environ else e);
          bootstrap = env_get source ''KAFKA_BOOTSTRAP_SERVERS'' []
      in if bootstrap = [] then Inl ValueError
         else (case py_int 10 (env_get source ''KAFKA_REQUEST_TIMEOUT_MS'' ''12000'') of
             None \<Rightarrow> Inl ValueError
           | Some ms \<Rightarrow> Inr \<lparr>bootstrap_servers = bootstrap,
               security_protocol = env_get source ''KAFKA_SECURITY_PROTOCOL'' ''PLAINTEXT'',
               sasl_mechanism = map_of source ''KAFKA_SASL_MECHANISM'',
               sasl_username = map_of source ''KAFKA_SASL_USERNAME'',
               sasl_password = map_of source ''KAFKA_SASL_PASSWORD'',
               client_id = env_get source ''KAFKA_CLIENT_ID'' ''coffeebuddy'',
               request_timeout_ms = ms\<rparr>))"

text \<open>
  The arguments with which the default factories build their clients: the keyword arguments, but for the event
  loop that is passed through, and before them, for a consumer, the topic it reads.
\<close>

definition opt_json :: "string option \<Rightarrow> json" where
  "opt_json x = (case x of None \<Rightarrow> JNull | Some s \<Rightarrow> JStr s)"

definition producer_default_factory :: "kafka_settings \<Rightarrow> (string \<times> json) list" where
  "producer_default_factory s =
    [(''bootstrap_servers'', JStr (bootstrap_servers s)), (''security_protocol'', JStr (security_protocol s)),
     (''sasl_mechanism'', opt_json (sasl_mechanism s)), (''sasl_plain_username'', opt_json (sasl_username s)),
     (''sasl_plain_password'', opt_json (sasl_password s)), (''client_id'', JStr (client_id s)),
     (''request_timeout_ms'', JInt (request_timeout_ms s))]"

definition consumer_default_factory :: "kafka_settings \<Rightarrow> topic_config \<Rightarrow> string \<Rightarrow> string \<times> (string \<times> json) list" where
  "consumer_default_factory s tc group_id = (topic_name tc,
    [(''bootstrap_servers'', JStr (bootstrap_servers s)), (''security_protocol'', JStr (security_protocol s)),
     (''sasl_mechanism'', opt_json (sasl_mechanism s)), (''sasl_plain_username'', opt_json (sasl_username s)),
     (''sasl_plain_password'', opt_json (sasl_password s)), (''group_id'', JStr group_id),
     (''client_id'', JStr (client_id s @ ''.'' @ group_id)), (''enable_auto_commit'', JBool True),
     (''auto_offset_reset'', JStr ''earliest''), (''request_timeout_ms'', JInt (request_timeout_ms s))])"

text \<open>Producer and consumer differ only in what a consumer group adds.\<close>

lemma same_connection: "k \<notin> {''client_id'', ''group_id'', ''enable_auto_commit'', ''auto_offset_reset''} \<Longrightarrow>
    map_of (snd (consumer_default_factory s tc g)) k = map_of (producer_default_factory s) k"
  by (simp add: producer_default_factory_def consumer_default_factory_def)

section \<open>Timestamps and events\<close>

text \<open>
  A \<open>datetime\<close> without a zone, as its microseconds read as UTC, or with a zone, as its instant and its
  offset from UTC. \<open>datetime\<close> covers the years 1 to 9999.
\<close>

datatype datetime = Naive time | Aware time int

definition datetime_min :: time where "datetime_min = - 62135596800000000"
definition datetime_max :: time where "datetime_max = 253402300799999999"

definition datetime_range :: "time \<Rightarrow> bool" where
  "datetime_range t \<longleftrightarrow> datetime_min \<le> t \<and> t \<le> datetime_max"

text \<open>The Python values a payload dict holds.\<close>

datatype pyval = PNone | PBool bool | PInt int | PStr string | PDatetime datetime

type_synonym pydict = "(string \<times> pyval) list"

record kafka_event =
  ev_type :: string
  ev_correlation_id :: string
  ev_payload :: pydict
  ev_occurred_at :: time

text \<open>The constructor with its validator.\<close>

definition kafka_event :: "string \<Rightarrow> string \<Rightarrow> pydict \<Rightarrow> time \<Rightarrow> exn + kafka_event" where
  "kafka_event ty corr payload t =
     (if corr = [] then Inl ValueError
      else Inr \<lparr>ev_type = ty, ev_correlation_id = corr, ev_payload = payload, ev_occurred_at = t\<rparr>)"

section \<open>KafkaEventProducer\<close>

record kclient =
  cl_started :: bool
  cl_closed :: bool
  cl_sent :: "(string \<times> bytes \<times> bytes option \<times> (string \<times> bytes) list option) list"

definition new_client :: kclient where
  "new_client = \<lparr>cl_started = False, cl_closed = False, cl_sent = []\<rparr>"

record producer =
  prod_client :: "kclient option"
  prod_metrics :: metrics

definition new_producer :: producer where
  "new_producer = \<lparr>prod_client = None, prod_metrics = []\<rparr>"

text \<open>How an awaited call to the client ends: \<open>None\<close> normally, \<open>Some e\<close> with the exception \<open>e\<close>.\<close>

type_synonym outcome = "exn option"

definition await :: "outcome \<Rightarrow> ('s \<Rightarrow> 's) \<Rightarrow> ('s, exn, unit) op" where
  "await r effect = (case r of None \<Rightarrow> modifyE effect | Some e \<Rightarrow> raiseE e)"

definition producer_start :: "outcome \<Rightarrow> (producer, exn, unit) op" where
  "producer_start r =
     bindE (getE prod_client) (\<lambda>cl.
     if cl \<noteq> None then returnE ()
     else bindE (modifyE (\<lambda>p. p\<lparr>prod_client := Some new_client\<rparr>)) (\<lambda>_.
          await r (\<lambda>p. p\<lparr>prod_client := map_option (\<lambda>c. c\<lparr>cl_started := True\<rparr>) (prod_client p)\<rparr>)))"

definition producer_stop :: "outcome \<Rightarrow> (producer, exn, unit) op" where
  "producer_stop r =
     bindE (getE prod_client) (\<lambda>cl.
     if cl = None then returnE ()
     else bindE (await r id) (\<lambda>_. modifyE (\<lambda>p. p\<lparr>prod_client := None\<rparr>)))"

text \<open>\<open>except Exception\<close> does not catch a cancellation.\<close>

definition caught :: "exn \<Rightarrow> bool" where
  "caught e \<longleftrightarrow> e \<noteq> CancelledError"

definition producer_send ::
  "(kafka_event \<Rightarrow> bytes) \<Rightarrow> outcome \<Rightarrow> topic_config \<Rightarrow> kafka_event \<Rightarrow> string option
    \<Rightarrow> (string \<times> bytes) list option \<Rightarrow> (producer, exn, unit) op" where
  "producer_send dump r tc ev key headers =
     bindE (getE prod_client) (\<lambda>cl.
     case cl of
       None \<Rightarrow> raiseE (RuntimeError ''KafkaEventProducer.start() must be called before send().'')
     | Some c \<Rightarrow>
         (let payload = dump ev;
              key_bytes = (case key of None \<Rightarrow> None | Some k \<Rightarrow> if k = [] then None else Some (utf8_encode k))
          in case r of
               None \<Rightarrow> modifyE (\<lambda>p. p\<lparr>prod_client := Some (c\<lparr>cl_sent := cl_sent c @ [(topic_name tc, payload, key_bytes, headers)]\<rparr>),
                                    prod_metrics := prod_metrics p @ [(topic_name tc, ''success'')]\<rparr>)
             | Some e \<Rightarrow>
                 if caught e
                 then bindE (modifyE (\<lambda>p. p\<lparr>prod_metrics := prod_metrics p @ [(topic_name tc, ''error'')]\<rparr>))
                        (\<lambda>_. raiseE e)
                 else raiseE e))"

section \<open>KafkaEventConsumer\<close>

text \<open>
  The consume loop over what the client's iterator yields until it ends: a message, together with
  whether the stop event is set when it arrives, or an exception of the iterator itself. The state is the
  handler's state and the metrics.
\<close>

datatype incoming = Message bool bytes | Broken exn

definition count_consumed :: "string \<Rightarrow> string \<Rightarrow> ('s \<times> metrics, exn, unit) op" where
  "count_consumed topic status = modifyE (\<lambda>(s, ms). (s, ms @ [(topic, status)]))"

definition lifted :: "('s, exn, 'a) op \<Rightarrow> ('s \<times> metrics, exn, 'a) op" where
  "lifted f = (\<lambda>(s, ms). case f s of (r, s') \<Rightarrow> (r, (s', ms)))"

fun consume_loop :: "(bytes \<Rightarrow> exn + kafka_event) \<Rightarrow> (kafka_event \<Rightarrow> ('s, exn, unit) op) \<Rightarrow> string
    \<Rightarrow> incoming list \<Rightarrow> ('s \<times> metrics, exn, unit) op" where
  "consume_loop parse handler topic [] = returnE ()"
| "consume_loop parse handler topic (Broken e # rest) =
     (if caught e then bindE (count_consumed topic ''error'') (\<lambda>_. raiseE e) else raiseE e)"
| "consume_loop parse handler topic (Message stopped value # rest) =
     (if stopped then returnE ()
      else (\<lambda>w. case bindE (liftE (parse value)) (\<lambda>ev. lifted (handler ev)) w of
                (Inr _, w') \<Rightarrow> bindE (count_consumed topic ''success'') (\<lambda>_. consume_loop parse handler topic rest) w'
              | (Inl e, w') \<Rightarrow>
                  if caught e
                  then bindE (count_consumed topic ''error'') (\<lambda>_. consume_loop parse handler topic rest) w'
                  else (Inl e, w')))"

text \<open>
  The harness around the loop. The task is running or has ended, with or without an exception;
  cancelling a running task ends it, and awaiting a task that ended with an exception raises it again. (A handler that
  swallows a cancellation would keep the task alive; the loop and the repository's own handler, \<open>ReminderWorker\<close>, pass it on.)
\<close>

datatype task = Running | Ended outcome

record consumer =
  con_client :: "kclient option"
  con_task :: "task option"
  con_stop :: bool
  con_closed :: nat

definition new_consumer :: consumer where
  "new_consumer = \<lparr>con_client = None, con_task = None, con_stop = False, con_closed = 0\<rparr>"

definition consumer_start :: "outcome \<Rightarrow> (consumer, exn, unit) op" where
  "consumer_start r =
     bindE (getE con_client) (\<lambda>cl.
     if cl \<noteq> None then returnE ()
     else bindE (modifyE (\<lambda>c. c\<lparr>con_stop := False, con_client := Some new_client\<rparr>)) (\<lambda>_.
          bindE (await r (\<lambda>c. c\<lparr>con_client := map_option (\<lambda>k. k\<lparr>cl_started := True\<rparr>) (con_client c)\<rparr>)) (\<lambda>_.
          modifyE (\<lambda>c. c\<lparr>con_task := Some Running\<rparr>))))"

definition cancel_and_await :: "task \<Rightarrow> outcome" where
  "cancel_and_await t = (case t of Running \<Rightarrow> None | Ended r \<Rightarrow> if r = Some CancelledError then None else r)"

definition consumer_stop :: "outcome \<Rightarrow> (consumer, exn, unit) op" where
  "consumer_stop r =
     bindE (modifyE (\<lambda>c. c\<lparr>con_stop := True\<rparr>)) (\<lambda>_.
     bindE (getE con_task) (\<lambda>t.
     bindE (case t of None \<Rightarrow> returnE ()
            | Some tk \<Rightarrow> (case cancel_and_await tk of
                  Some e \<Rightarrow> raiseE e
                | None \<Rightarrow> modifyE (\<lambda>c. c\<lparr>con_task := None\<rparr>))) (\<lambda>_.
     bindE (getE con_client) (\<lambda>cl.
     if cl = None then returnE ()
     else bindE (await r (\<lambda>c. c\<lparr>con_closed := Suc (con_closed c)\<rparr>)) (\<lambda>_.
          modifyE (\<lambda>c. c\<lparr>con_client := None\<rparr>))))))"

section \<open>The consume loop delivers\<close>

text \<open>
  The specification of the loop: one message goes to the handler when it can be parsed; a list of messages goes there
  one after the other, each once, and one that cannot be parsed or whose handler fails is only marked as failed.
  A failed message is not handed over a second time.
\<close>

definition handed_over :: "(bytes \<Rightarrow> exn + kafka_event) \<Rightarrow> (kafka_event \<Rightarrow> ('s, exn, unit) op) \<Rightarrow> bytes \<Rightarrow> 's \<Rightarrow> (exn + unit) \<times> 's" where
  "handed_over parse handler b s = (case parse b of Inl e \<Rightarrow> (Inl e, s) | Inr ev \<Rightarrow> handler ev s)"

fun deliver :: "(bytes \<Rightarrow> exn + kafka_event) \<Rightarrow> (kafka_event \<Rightarrow> ('s, exn, unit) op) \<Rightarrow> bytes list \<Rightarrow> 's \<Rightarrow> bool list \<times> 's" where
  "deliver parse handler [] s = ([], s)"
| "deliver parse handler (b # bs) s =
     (case handed_over parse handler b s of
        (r, s1) \<Rightarrow> (case deliver parse handler bs s1 of (oks, s2) \<Rightarrow> ((\<not> isl r) # oks, s2)))"

text \<open>None of the messages is being handled when the task is cancelled.\<close>

fun uncancelled :: "(bytes \<Rightarrow> exn + kafka_event) \<Rightarrow> (kafka_event \<Rightarrow> ('s, exn, unit) op) \<Rightarrow> bytes list \<Rightarrow> 's \<Rightarrow> bool" where
  "uncancelled parse handler [] s \<longleftrightarrow> True"
| "uncancelled parse handler (b # bs) s \<longleftrightarrow> fst (handed_over parse handler b s) \<noteq> Inl CancelledError
     \<and> uncancelled parse handler bs (snd (handed_over parse handler b s))"

definition status_of :: "bool \<Rightarrow> string" where
  "status_of ok = (if ok then ''success'' else ''error'')"

lemma consume_step: "consume_loop parse handler topic (Message False b # rest) (s, ms) =
    (case (case parse b of Inl e \<Rightarrow> (Inl e, s) | Inr ev \<Rightarrow> handler ev s) of
       (Inr _, s1) \<Rightarrow> consume_loop parse handler topic rest (s1, ms @ [(topic, ''success'')])
     | (Inl e, s1) \<Rightarrow> if caught e then consume_loop parse handler topic rest (s1, ms @ [(topic, ''error'')])
                    else (Inl e, (s1, ms)))"
  by (simp add: bindE_def op_simps lifted_def count_consumed_def split: sum.splits prod.splits)

lemma consume_attempt: "fst (handed_over parse handler b s) \<noteq> Inl CancelledError \<Longrightarrow>
    consume_loop parse handler topic (Message False b # rest) (s, ms) = consume_loop parse handler topic rest
      (snd (handed_over parse handler b s), ms @ [(topic, status_of (\<not> isl (fst (handed_over parse handler b s))))])"
  unfolding consume_step handed_over_def [symmetric]
  by (cases "handed_over parse handler b s") (auto simp: status_of_def caught_def split: sum.splits)

lemma consume_uncancelled: "uncancelled parse handler bs s \<Longrightarrow>
    consume_loop parse handler topic (map (Message False) bs @ rest) (s, ms) = consume_loop parse handler topic rest
      (snd (deliver parse handler bs s), ms @ map (\<lambda>ok. (topic, status_of ok)) (fst (deliver parse handler bs s)))"
  by (induction bs arbitrary: s ms) (simp_all add: consume_attempt split: prod.splits del: consume_loop.simps)

text \<open>A stream up to the first thing that ends the loop.\<close>

lemma consume_split: "\<exists>bs rest. xs = map (Message False) bs @ rest \<and> uncancelled parse handler bs s
    \<and> (\<forall>b later. rest = Message False b # later \<longrightarrow> fst (handed_over parse handler b (snd (deliver parse handler bs s))) = Inl CancelledError)"
proof (induction xs arbitrary: s)
  case Nil
  show ?case by (intro exI [of _ "[]"]) simp
next
  case (Cons x xs)
  show ?case
  proof (cases "\<exists>b. x = Message False b \<and> fst (handed_over parse handler b s) \<noteq> Inl CancelledError")
    case True
    then obtain b where b: "x = Message False b" "fst (handed_over parse handler b s) \<noteq> Inl CancelledError" by blast
    obtain bs rest where "xs = map (Message False) bs @ rest" "uncancelled parse handler bs (snd (handed_over parse handler b s))"
      "\<forall>b' later. rest = Message False b' # later \<longrightarrow>
         fst (handed_over parse handler b' (snd (deliver parse handler bs (snd (handed_over parse handler b s))))) = Inl CancelledError"
      using Cons.IH by blast
    then show ?thesis using b by (intro exI [of _ "b # bs"] exI [of _ rest]) (auto split: prod.splits)
  next
    case False
    then show ?thesis by (intro exI [of _ "[]"] exI [of _ "x # xs"]) auto
  qed
qed

text \<open>
  Property C26. The consumer loop delivers every message of the stream, up to the first thing that ends it, to the handler, once and in
  order, and counts each exactly once, as success or as error: a message that cannot be parsed and a
  handler that fails do not stop the loop and do not lose the messages behind them, and they are not tried again. The loop ends
  in one of four ways: the stream ends; the stop event is set when a message arrives, which is then not handled; the
  stream itself breaks, which is counted as one more error and raised again, unless it is a cancellation; or the task is cancelled while a
  message is handled, and that message is not counted at all.
\<close>

theorem consume_loop_delivers:
  "(\<exists>bs rest oks s'. xs = map (Message False) bs @ rest \<and> uncancelled parse handler bs s \<and> deliver parse handler bs s = (oks, s')
     \<and> (let ended = consume_loop parse handler topic xs (s, ms); counted = ms @ map (\<lambda>ok. (topic, status_of ok)) oks in
        case rest of
          [] \<Rightarrow> ended = (Inr (), (s', counted))
        | Message stopped b # later \<Rightarrow> if stopped then ended = (Inr (), (s', counted))
            else (\<exists>s1. handed_over parse handler b s' = (Inl CancelledError, s1) \<and> ended = (Inl CancelledError, (s1, counted)))
        | Broken e # later \<Rightarrow> ended = (Inl e, (s', if e = CancelledError then counted else counted @ [(topic, ''error'')]))))
   \<and> ((\<forall>b e. parse b = Inl e \<longrightarrow> e \<noteq> CancelledError) \<longrightarrow> (\<forall>ev s e s'. handler ev s = (Inl e, s') \<longrightarrow> e \<noteq> CancelledError) \<longrightarrow>
       consume_loop parse handler topic (map (Message False) live) (s, ms)
         = (Inr (), (snd (deliver parse handler live s), ms @ map (\<lambda>ok. (topic, status_of ok)) (fst (deliver parse handler live s)))))"
proof
  obtain bs rest where xs: "xs = map (Message False) bs @ rest" and bs: "uncancelled parse handler bs s"
    and rest: "\<forall>b later. rest = Message False b # later \<longrightarrow> fst (handed_over parse handler b (snd (deliver parse handler bs s))) = Inl CancelledError"
    using consume_split [of xs parse handler s] by (elim exE conjE)
  obtain oks s' where d: "deliver parse handler bs s = (oks, s')" by fastforce
  have loop: "consume_loop parse handler topic xs (s, ms)
      = consume_loop parse handler topic rest (s', ms @ map (\<lambda>ok. (topic, status_of ok)) oks)"
    using consume_uncancelled [OF bs] by (simp add: xs d)
  have cancelled: "consume_loop parse handler topic (Message False b # later) (s', m) = (Inl CancelledError, (s1, m))"
    if "handed_over parse handler b s' = (Inl CancelledError, s1)" for b later s1 m
    using that unfolding consume_step handed_over_def by (simp add: caught_def)
  have "let ended = consume_loop parse handler topic xs (s, ms); counted = ms @ map (\<lambda>ok. (topic, status_of ok)) oks in
        case rest of
          [] \<Rightarrow> ended = (Inr (), (s', counted))
        | Message stopped b # later \<Rightarrow> if stopped then ended = (Inr (), (s', counted))
            else (\<exists>s1. handed_over parse handler b s' = (Inl CancelledError, s1) \<and> ended = (Inl CancelledError, (s1, counted)))
        | Broken e # later \<Rightarrow> ended = (Inl e, (s', if e = CancelledError then counted else counted @ [(topic, ''error'')]))"
  proof (cases rest)
    case (Cons x later)
    show ?thesis
    proof (cases x)
      case (Message stopped b)
      show ?thesis
      proof (cases stopped)
        case False
        then obtain s1 where "handed_over parse handler b s' = (Inl CancelledError, s1)"
          using rest Cons Message d by (metis prod.collapse snd_conv)
        then show ?thesis unfolding loop using Cons Message False cancelled by (simp del: consume_loop.simps)
      qed (simp add: loop Cons Message op_simps)
    qed (simp add: loop Cons op_simps caught_def count_consumed_def)
  qed (simp add: loop op_simps)
  with xs bs d show "\<exists>bs rest oks s'. xs = map (Message False) bs @ rest \<and> uncancelled parse handler bs s \<and> deliver parse handler bs s = (oks, s')
     \<and> (let ended = consume_loop parse handler topic xs (s, ms); counted = ms @ map (\<lambda>ok. (topic, status_of ok)) oks in
        case rest of
          [] \<Rightarrow> ended = (Inr (), (s', counted))
        | Message stopped b # later \<Rightarrow> if stopped then ended = (Inr (), (s', counted))
            else (\<exists>s1. handed_over parse handler b s' = (Inl CancelledError, s1) \<and> ended = (Inl CancelledError, (s1, counted)))
        | Broken e # later \<Rightarrow> ended = (Inl e, (s', if e = CancelledError then counted else counted @ [(topic, ''error'')])))"
    by blast
next
  have "uncancelled parse handler bs s" if "\<forall>b e. parse b = Inl e \<longrightarrow> e \<noteq> CancelledError"
    "\<forall>ev s e s'. handler ev s = (Inl e, s') \<longrightarrow> e \<noteq> CancelledError" for bs s
  proof (induction bs arbitrary: s)
    case (Cons b bs)
    have "fst (handed_over parse handler b s) \<noteq> Inl CancelledError"
      using that by (fastforce simp: handed_over_def fst_def split: sum.splits prod.splits)
    with Cons.IH show ?case by simp
  qed simp
  from consume_uncancelled [OF this, where rest = "[]"]
  show "(\<forall>b e. parse b = Inl e \<longrightarrow> e \<noteq> CancelledError) \<longrightarrow> (\<forall>ev s e s'. handler ev s = (Inl e, s') \<longrightarrow> e \<noteq> CancelledError) \<longrightarrow>
       consume_loop parse handler topic (map (Message False) live) (s, ms)
         = (Inr (), (snd (deliver parse handler live s), ms @ map (\<lambda>ok. (topic, status_of ok)) (fst (deliver parse handler live s))))"
    by (simp add: op_simps)
qed

definition fx_parse :: "bytes \<Rightarrow> exn + kafka_event" where
  "fx_parse b = kafka_event ''reminder_scheduled'' b [] 0"

definition fx_handler :: "kafka_event \<Rightarrow> (string list, exn, unit) op" where
  "fx_handler ev s = (if ev_correlation_id ev = ''bad'' then (Inl TypeError, s) else (Inr (), s @ [ev_correlation_id ev]))"

theorem consume_loop_delivers_witness:
  "consume_loop fx_parse fx_handler ''t'' (map (Message False) [''a'', '''', ''bad'', ''b'']) ([], [])
   = (Inr (), ([''a'', ''b''], [(''t'', ''success''), (''t'', ''error''), (''t'', ''error''), (''t'', ''success'')]))"
proof -
  have "\<forall>b e. fx_parse b = Inl e \<longrightarrow> e \<noteq> CancelledError"
    by (simp add: fx_parse_def kafka_event_def)
  moreover have "\<forall>ev s e s'. fx_handler ev s = (Inl e, s') \<longrightarrow> e \<noteq> CancelledError"
    by (auto simp: fx_handler_def split: if_splits)
  ultimately show ?thesis
    using consume_loop_delivers [of "[]" fx_parse fx_handler "[]" "''t''" "[]" "[''a'', '''', ''bad'', ''b'']"]
    by (simp add: handed_over_def fx_parse_def fx_handler_def kafka_event_def status_of_def)
qed

section \<open>The life cycle of a consumer\<close>

inductive con_step :: "consumer \<Rightarrow> consumer \<Rightarrow> bool" where
  con_start: "con_step c (snd (consumer_start r c))"
| con_stop: "con_step c (snd (consumer_stop r c))"
| loop_ends: "con_task c = Some Running \<Longrightarrow> con_step c (c\<lparr>con_task := Some (Ended r)\<rparr>)"

abbreviation con_reachable :: "consumer \<Rightarrow> bool" where
  "con_reachable \<equiv> con_step\<^sup>*\<^sup>* new_consumer"

inductive_cases con_stepE: "con_step c c'"

lemma consumer_start_run: "consumer_start r c =
    (if con_client c \<noteq> None then (Inr (), c)
     else (case r of
         Some e \<Rightarrow> (Inl e, c\<lparr>con_stop := False, con_client := Some new_client\<rparr>)
       | None \<Rightarrow> (Inr (), c\<lparr>con_stop := False, con_client := Some (new_client\<lparr>cl_started := True\<rparr>),
                          con_task := Some Running\<rparr>)))"
  by (simp add: consumer_start_def await_def bindE_def op_simps split: option.splits)

lemma consumer_stop_run: "consumer_stop r c =
    (case (case con_task c of None \<Rightarrow> None | Some t \<Rightarrow> cancel_and_await t) of
       Some e \<Rightarrow> (Inl e, c\<lparr>con_stop := True\<rparr>)
     | None \<Rightarrow>
        (if con_client c = None then (Inr (), c\<lparr>con_stop := True, con_task := None\<rparr>)
         else (case r of Some e \<Rightarrow> (Inl e, c\<lparr>con_stop := True, con_task := None\<rparr>)
              | None \<Rightarrow> (Inr (), c\<lparr>con_stop := True, con_task := None, con_client := None,
                                  con_closed := Suc (con_closed c)\<rparr>))))"
  by (cases "con_task c") (auto simp: consumer_stop_def await_def bindE_def op_simps split: option.splits)

definition con_inv :: "consumer \<Rightarrow> bool" where
  "con_inv c \<longleftrightarrow> (con_task c \<noteq> None \<longrightarrow> (\<exists>k. con_client c = Some k \<and> cl_started k))
     \<and> (con_task c = Some Running \<longrightarrow> \<not> con_stop c)"

lemma con_inv_start: "con_inv c \<Longrightarrow> con_inv (snd (consumer_start r c))"
  by (auto simp: con_inv_def consumer_start_run new_client_def split: option.splits)

lemma con_inv_stop: "con_inv c \<Longrightarrow> con_inv (snd (consumer_stop r c))"
  by (auto simp: con_inv_def consumer_stop_run cancel_and_await_def split: option.splits task.splits if_splits)

lemma con_inv_step: "con_step c c' \<Longrightarrow> con_inv c \<Longrightarrow> con_inv c'"
  by (erule con_stepE) (auto intro: con_inv_start con_inv_stop, auto simp: con_inv_def)

interpretation consumer_machine: state_machine con_step con_inv
  by unfold_locales (rule con_inv_step)

lemma crash_is_final:
  "con_task c = Some (Ended (Some e)) \<Longrightarrow> e \<noteq> CancelledError \<Longrightarrow> con_client c \<noteq> None \<Longrightarrow>
     consumer_stop r c = (Inl e, c\<lparr>con_stop := True\<rparr>) \<and> consumer_start r c = (Inr (), c)"
  by (simp add: consumer_stop_run consumer_start_run cancel_and_await_def)

lemma failed_start_is_final:
  assumes "con_client c = None" "con_task c = None"
  shows "\<exists>c1. consumer_start (Some e) c = (Inl e, c1) \<and> con_task c1 = None
    \<and> (\<exists>k. con_client c1 = Some k \<and> \<not> cl_started k) \<and> (\<forall>r. consumer_start r c1 = (Inr (), c1))"
  using assms by (auto simp: consumer_start_run new_client_def)

text \<open>
  Property C27. The life cycle of a consumer, in every state it can reach. A task exists only with a client that was started, and a
  running task has not been told to stop. If the loop has not crashed, stopping with a client that closes normally returns,
  leaves neither task nor client behind, and the consumer can be started again to a running loop. If the loop has crashed with an
  exception, every later stop raises that exception again before it closes the client, and a start does nothing: no loop runs
  again. And from a state without a client, a start whose client does not start leaves that client behind, although it was
  never started: the next start returns as if all were well, and no loop runs.
\<close>

theorem consumer_life_cycle:
  assumes "con_reachable c"
  shows "(con_task c \<noteq> None \<longrightarrow> (\<exists>k. con_client c = Some k \<and> cl_started k))
    \<and> (con_task c = Some Running \<longrightarrow> \<not> con_stop c)
    \<and> ((\<forall>e. con_task c = Some (Ended (Some e)) \<longrightarrow> e = CancelledError) \<longrightarrow>
        (\<exists>c1. consumer_stop None c = (Inr (), c1) \<and> con_task c1 = None \<and> con_client c1 = None
           \<and> (\<exists>c2. consumer_start None c1 = (Inr (), c2) \<and> con_task c2 = Some Running)))
    \<and> (\<forall>e r. con_task c = Some (Ended (Some e)) \<longrightarrow> e \<noteq> CancelledError \<longrightarrow>
        consumer_stop r c = (Inl e, c\<lparr>con_stop := True\<rparr>) \<and> consumer_start r c = (Inr (), c))
    \<and> (con_client c = None \<longrightarrow> (\<forall>e. \<exists>c1. consumer_start (Some e) c = (Inl e, c1) \<and> con_task c1 = None
        \<and> (\<exists>k. con_client c1 = Some k \<and> \<not> cl_started k) \<and> (\<forall>r. consumer_start r c1 = (Inr (), c1))))"
proof -
  have inv: "con_inv c"
    using assms by (rule consumer_machine.reach_keeps) (simp add: con_inv_def new_consumer_def)
  have "\<exists>c1. consumer_stop None c = (Inr (), c1) \<and> con_task c1 = None \<and> con_client c1 = None
      \<and> (\<exists>c2. consumer_start None c1 = (Inr (), c2) \<and> con_task c2 = Some Running)"
    if "\<forall>e. con_task c = Some (Ended (Some e)) \<longrightarrow> e = CancelledError"
  proof -
    have "(case con_task c of None \<Rightarrow> None | Some t \<Rightarrow> cancel_and_await t) = None"
      using that by (cases "con_task c") (auto simp: cancel_and_await_def split: task.splits intro: option.exhaust)
    then show ?thesis by (auto simp: consumer_stop_run consumer_start_run)
  qed
  with inv crash_is_final [of c] failed_start_is_final [of c] show ?thesis by (auto simp: con_inv_def)
qed

theorem consumer_life_cycle_witness:
  "\<exists>c1. consumer_stop None (snd (consumer_start None new_consumer)) = (Inr (), c1) \<and> con_client c1 = None"
proof -
  have "con_reachable (snd (consumer_start None new_consumer))"
    by (rule r_into_rtranclp [of con_step, OF con_start])
  from consumer_life_cycle [OF this] show ?thesis
    by (auto simp: consumer_start_run new_consumer_def)
qed

section \<open>Sending\<close>

lemma producer_start_run: "producer_start r p =
    (if prod_client p \<noteq> None then (Inr (), p)
     else (case r of Some e \<Rightarrow> (Inl e, p\<lparr>prod_client := Some new_client\<rparr>)
          | None \<Rightarrow> (Inr (), p\<lparr>prod_client := Some (new_client\<lparr>cl_started := True\<rparr>)\<rparr>)))"
  by (simp add: producer_start_def await_def bindE_def op_simps split: option.splits)

text \<open>
  Sending is accounted for: before \<open>start\<close> it raises and changes nothing; afterwards a send
  that the broker takes appends one message with the event's bytes and counts one success for the
  topic; one that fails with an exception appends nothing, counts one error, and re-raises. After a
  failed \<open>start\<close> the producer keeps a client that was never started, a second \<open>start\<close> does nothing,
  and a send goes to that client.
\<close>

theorem producer_send_accounting:
  "producer_send dump r tc ev key headers new_producer
     = (Inl (RuntimeError ''KafkaEventProducer.start() must be called before send().''), new_producer)
   \<and> (\<forall>p c. prod_client p = Some c \<longrightarrow>
        producer_send dump None tc ev key headers p = (Inr (), p\<lparr>
           prod_client := Some (c\<lparr>cl_sent := cl_sent c @ [(topic_name tc, dump ev,
             (if key = Some [] then None else map_option utf8_encode key), headers)]\<rparr>),
           prod_metrics := prod_metrics p @ [(topic_name tc, ''success'')]\<rparr>)
      \<and> (\<forall>e. e \<noteq> CancelledError \<longrightarrow> producer_send dump (Some e) tc ev key headers p
           = (Inl e, p\<lparr>prod_metrics := prod_metrics p @ [(topic_name tc, ''error'')]\<rparr>)))
   \<and> (\<forall>e r'. let p1 = snd (producer_start (Some e) new_producer)
        in producer_start r' p1 = (Inr (), p1) \<and> (\<exists>c. prod_client p1 = Some c \<and> \<not> cl_started c))"
  by (auto simp: producer_send_def producer_start_run new_producer_def new_client_def op_simps caught_def split: option.splits)

theorem producer_send_accounting_witness:
  "\<exists>p'. producer_send ev_type None RUN_EVENTS_TOPIC \<lparr>ev_type = ''x'', ev_correlation_id = ''c'', ev_payload = [],
      ev_occurred_at = 0\<rparr> None None (snd (producer_start None new_producer)) = (Inr (), p')
     \<and> prod_metrics p' = [(''coffeebuddy.run.events'', ''success'')]"
proof -
  let ?p = "snd (producer_start None new_producer)"
  have p: "prod_client ?p = Some (new_client\<lparr>cl_started := True\<rparr>)" "prod_metrics ?p = []"
    by (simp_all add: producer_start_run new_producer_def)
  show ?thesis
    using producer_send_accounting [of ev_type None RUN_EVENTS_TOPIC _ None None] p by (auto simp: RUN_EVENTS_TOPIC_def)
qed

end
