(* ===== verification/Reminders.thy ===== *)
theory Reminders
  imports Kafka
begin

text \<open>
  Reminders, from the scheduler that publishes them (\<open>jobs/reminders/scheduler.py\<close>) over their payload
  (\<open>ReminderPayload\<close> in \<open>infra/kafka/models.py\<close>) to the worker that waits and sends them
  (\<open>infra/kafka/reminder_worker.py\<close>).

  The publisher and the sender are Protocols of the code: how their k-th call ends is a field of the world.
  Time is in microseconds and passes in \<open>sleep\<close> only; a sleep may take longer than asked (\<open>ww_lag\<close>).
  The coercions by which pydantic reads a field are the record \<open>coercions\<close>. Log output is left out.
\<close>

section \<open>ReminderPayload\<close>

datatype reminder_type = RunnerReminder | LastCall

fun reminder_type_value :: "reminder_type \<Rightarrow> string" where
  "reminder_type_value RunnerReminder = ''runner''"
| "reminder_type_value LastCall = ''last_call''"

record reminder_payload =
  rp_reminder_id :: string
  rp_run_id :: string
  rp_channel_id :: string
  rp_runner_user_id :: "string option"
  rp_reminder_type :: reminder_type
  rp_scheduled_for :: datetime
  rp_reminder_offset_minutes :: int
  rp_channel_reminders_enabled :: bool
  rp_last_call_enabled :: bool
  rp_correlation_id :: "string option"

definition opt_str :: "string option \<Rightarrow> pyval" where
  "opt_str s = (case s of None \<Rightarrow> PNone | Some x \<Rightarrow> PStr x)"

text \<open>\<open>payload.model_dump()\<close>.\<close>

definition dump_payload :: "reminder_payload \<Rightarrow> pydict" where
  "dump_payload p = [(''reminder_id'', PStr (rp_reminder_id p)), (''run_id'', PStr (rp_run_id p)),
     (''channel_id'', PStr (rp_channel_id p)), (''runner_user_id'', opt_str (rp_runner_user_id p)),
     (''reminder_type'', PStr (reminder_type_value (rp_reminder_type p))),
     (''scheduled_for'', PDatetime (rp_scheduled_for p)),
     (''reminder_offset_minutes'', PInt (rp_reminder_offset_minutes p)),
     (''channel_reminders_enabled'', PBool (rp_channel_reminders_enabled p)),
     (''last_call_enabled'', PBool (rp_last_call_enabled p)),
     (''correlation_id'', opt_str (rp_correlation_id p))]"

record coercions =
  co_str :: "pyval \<Rightarrow> string option"
  co_int :: "pyval \<Rightarrow> int option"
  co_bool :: "pyval \<Rightarrow> bool option"
  co_datetime :: "pyval \<Rightarrow> datetime option"

definition co_opt_str :: "coercions \<Rightarrow> pyval \<Rightarrow> string option option" where
  "co_opt_str P v = (if v = PNone then Some None else map_option Some (co_str P v))"

definition co_reminder_type :: "pyval \<Rightarrow> reminder_type option" where
  "co_reminder_type v = (if v = PStr ''runner'' then Some RunnerReminder
     else if v = PStr ''last_call'' then Some LastCall else None)"

text \<open>A required field, and a field with a default; a failing field is a \<open>ValidationError\<close>, which is a ValueError.\<close>

definition field :: "(pyval \<Rightarrow> 'a option) \<Rightarrow> string \<Rightarrow> pydict \<Rightarrow> 'a option" where
  "field co name d = (case map_of d name of None \<Rightarrow> None | Some v \<Rightarrow> co v)"

definition field_or :: "'a \<Rightarrow> (pyval \<Rightarrow> 'a option) \<Rightarrow> string \<Rightarrow> pydict \<Rightarrow> 'a option" where
  "field_or dflt co name d = (case map_of d name of None \<Rightarrow> Some dflt | Some v \<Rightarrow> co v)"

definition validate_payload :: "coercions \<Rightarrow> pydict \<Rightarrow> exn + reminder_payload" where
  "validate_payload P d =
     (case (field (co_str P) ''reminder_id'' d, field (co_str P) ''run_id'' d, field (co_str P) ''channel_id'' d,
            field (co_opt_str P) ''runner_user_id'' d, field co_reminder_type ''reminder_type'' d,
            field (co_datetime P) ''scheduled_for'' d, field (co_int P) ''reminder_offset_minutes'' d,
            field_or True (co_bool P) ''channel_reminders_enabled'' d,
            field_or False (co_bool P) ''last_call_enabled'' d,
            field_or None (co_opt_str P) ''correlation_id'' d) of
        (Some i, Some r, Some c, Some u, Some ty, Some t, Some off, Some en, Some lc, Some corr) \<Rightarrow>
          Inr \<lparr>rp_reminder_id = i, rp_run_id = r, rp_channel_id = c, rp_runner_user_id = u,
            rp_reminder_type = ty, rp_scheduled_for = t, rp_reminder_offset_minutes = off,
            rp_channel_reminders_enabled = en, rp_last_call_enabled = lc, rp_correlation_id = corr\<rparr>
      | _ \<Rightarrow> Inl ValueError)"

section \<open>ReminderScheduler\<close>

record channel_reminder_config =
  crc_channel_id :: string
  crc_reminders_enabled :: bool
  crc_reminder_offset_minutes :: int
  crc_last_call_enabled :: bool
  crc_last_call_lead_minutes :: "int option"

record sched =
  sch_event_type :: string
  sch_ids :: "nat \<Rightarrow> string"
  sch_drawn :: nat
  sch_clock :: "nat \<Rightarrow> time"
  sch_ticks :: nat
  sch_publish :: "nat \<Rightarrow> outcome"
  sch_calls :: nat
  sch_published :: "(string \<times> kafka_event) list"

definition scheduler_as_aware :: "datetime \<Rightarrow> exn + datetime" where
  "scheduler_as_aware d = (case d of Naive t \<Rightarrow> Inr (Aware t 0)
     | Aware t off \<Rightarrow> if datetime_range t then Inr (Aware t 0) else Inl OverflowError)"

text \<open>\<open>d - timedelta(minutes=n)\<close> for a UTC datetime.\<close>

definition minus_minutes :: "datetime \<Rightarrow> int \<Rightarrow> exn + datetime" where
  "minus_minutes d n = (case d of
       Naive t \<Rightarrow> if datetime_range (t - n * 60000000) then Inr (Naive (t - n * 60000000)) else Inl OverflowError
     | Aware t off \<Rightarrow> if datetime_range (t - n * 60000000 + off) then Inr (Aware (t - n * 60000000) off)
         else Inl OverflowError)"

definition truthy :: "string option \<Rightarrow> bool" where
  "truthy s \<longleftrightarrow> (case s of None \<Rightarrow> False | Some x \<Rightarrow> x \<noteq> [])"

definition build_payload :: "string \<Rightarrow> channel_reminder_config \<Rightarrow> string option \<Rightarrow> datetime
    \<Rightarrow> reminder_type \<Rightarrow> string \<Rightarrow> (sched, exn, reminder_payload) op" where
  "build_payload rid ch runner at ty corr =
     bindE (\<lambda>s. (Inr (sch_ids s (sch_drawn s)), s\<lparr>sch_drawn := Suc (sch_drawn s)\<rparr>)) (\<lambda>i.
     returnE \<lparr>rp_reminder_id = i, rp_run_id = rid, rp_channel_id = crc_channel_id ch,
       rp_runner_user_id = (if truthy runner then runner else None), rp_reminder_type = ty,
       rp_scheduled_for = at, rp_reminder_offset_minutes = crc_reminder_offset_minutes ch,
       rp_channel_reminders_enabled = crc_reminders_enabled ch,
       rp_last_call_enabled = crc_last_call_enabled ch, rp_correlation_id = Some corr\<rparr>)"

definition publish :: "string \<Rightarrow> kafka_event \<Rightarrow> (sched, exn, unit) op" where
  "publish topic ev s = (let s1 = s\<lparr>sch_calls := Suc (sch_calls s)\<rparr> in
     case sch_publish s (sch_calls s) of
       None \<Rightarrow> (Inr (), s1\<lparr>sch_published := sch_published s @ [(topic, ev)]\<rparr>)
     | Some e \<Rightarrow> (Inl e, s1))"

definition publish_payload :: "reminder_payload \<Rightarrow> (sched, exn, unit) op" where
  "publish_payload p =
     bindE (\<lambda>s. (Inr (sch_clock s (sch_ticks s)), s\<lparr>sch_ticks := Suc (sch_ticks s)\<rparr>)) (\<lambda>t.
     bindE (getE sch_event_type) (\<lambda>ty.
     bindE (liftE (kafka_event ty (case rp_correlation_id p of None \<Rightarrow> [] | Some c \<Rightarrow> c) (dump_payload p) t)) (\<lambda>ev.
     publish (topic_name REMINDER_EVENTS_TOPIC) ev)))"

text \<open>Build a payload for a time relative to the pickup, publish it and append it to the result.\<close>

definition schedule_one :: "string \<Rightarrow> channel_reminder_config \<Rightarrow> string option \<Rightarrow> datetime \<Rightarrow> int
    \<Rightarrow> reminder_type \<Rightarrow> string \<Rightarrow> reminder_payload list \<Rightarrow> (sched, exn, reminder_payload list) op" where
  "schedule_one rid ch runner aware minutes ty corr acc =
     bindE (liftE (minus_minutes aware minutes)) (\<lambda>at.
     bindE (build_payload rid ch runner at ty corr) (\<lambda>p.
     bindE (publish_payload p) (\<lambda>_. returnE (acc @ [p]))))"

definition schedule_for_run :: "string \<Rightarrow> datetime option \<Rightarrow> string option \<Rightarrow> channel_reminder_config
    \<Rightarrow> string \<Rightarrow> (sched, exn, reminder_payload list) op" where
  "schedule_for_run rid pickup runner ch corr =
     (case pickup of
        None \<Rightarrow> returnE []
      | Some p \<Rightarrow>
          bindE (liftE (scheduler_as_aware p)) (\<lambda>aware.
          bindE (if crc_reminders_enabled ch \<and> truthy runner
                 then schedule_one rid ch runner aware (crc_reminder_offset_minutes ch) RunnerReminder corr []
                 else returnE []) (\<lambda>acc.
          case crc_last_call_lead_minutes ch of
            None \<Rightarrow> returnE acc
          | Some lead \<Rightarrow>
              if crc_reminders_enabled ch \<and> crc_last_call_enabled ch \<and> lead \<noteq> 0 \<and> lead > 0
              then schedule_one rid ch None aware lead LastCall corr acc
              else returnE acc)))"

section \<open>ReminderWorker\<close>

text \<open>
  The world of the worker: the clock; by how much the k-th sleep exceeds what was asked; how the k-th call of the
  sender ends and how long it takes; the calls that returned, each with the time at which it was made; and the
  metrics with the observed delays.
\<close>

record wworld =
  ww_time :: time
  ww_lag :: "nat \<Rightarrow> int"
  ww_sleeps :: nat
  ww_send :: "nat \<Rightarrow> outcome"
  ww_took :: "nat \<Rightarrow> int"
  ww_calls :: nat
  ww_sent :: "(time \<times> reminder_type \<times> reminder_payload) list"
  ww_metrics :: metrics
  ww_delays :: "int list"

definition should_dispatch :: "reminder_payload \<Rightarrow> bool" where
  "should_dispatch p \<longleftrightarrow> rp_channel_reminders_enabled p \<and>
     (case rp_reminder_type p of
        RunnerReminder \<Rightarrow> rp_runner_user_id p \<noteq> None
      | LastCall \<Rightarrow> rp_last_call_enabled p)"

definition sleep :: "int \<Rightarrow> wworld \<Rightarrow> wworld" where
  "sleep d w = w\<lparr>ww_time := ww_time w + d + ww_lag w (ww_sleeps w), ww_sleeps := Suc (ww_sleeps w)\<rparr>"

partial_function (option) wait_until :: "int \<Rightarrow> time \<Rightarrow> wworld \<Rightarrow> wworld option" where
  "wait_until tol target w =
     (let delay = target - ww_time w in
      if delay \<le> 0 then Some w
      else wait_until tol target (sleep (if delay \<le> tol then delay else delay - tol) w))"

definition wait_target :: "datetime \<Rightarrow> time" where
  "wait_target d = (case d of Naive t \<Rightarrow> t | Aware t _ \<Rightarrow> t)"

definition count_reminder :: "reminder_type \<Rightarrow> string \<Rightarrow> wworld \<Rightarrow> wworld" where
  "count_reminder ty status w = w\<lparr>ww_metrics := ww_metrics w @ [(reminder_type_value ty, status)]\<rparr>"

text \<open>\<open>self._clock() - scheduled_for\<close>: the clock is aware, and an aware and a naive datetime do not subtract.\<close>

definition clock_minus :: "wworld \<Rightarrow> datetime \<Rightarrow> exn + int" where
  "clock_minus w d = (case d of Naive _ \<Rightarrow> Inl TypeError | Aware t _ \<Rightarrow> Inr (ww_time w - t))"

definition send_fn :: "reminder_payload \<Rightarrow> (wworld, exn, unit) op" where
  "send_fn p w = (let w1 = w\<lparr>ww_calls := Suc (ww_calls w), ww_time := ww_time w + ww_took w (ww_calls w)\<rparr> in
     case ww_send w (ww_calls w) of
       None \<Rightarrow> (Inr (), w1\<lparr>ww_sent := ww_sent w @ [(ww_time w, rp_reminder_type p, p)]\<rparr>)
     | Some e \<Rightarrow> (Inl e, w1))"

definition dispatch :: "reminder_payload \<Rightarrow> (wworld, exn, unit) op" where
  "dispatch p w =
     (case bindE (send_fn p) (\<lambda>_.
           bindE (modifyE (count_reminder (rp_reminder_type p) ''sent'')) (\<lambda>_.
           bindE (\<lambda>w. (clock_minus w (rp_scheduled_for p), w)) (\<lambda>d.
           modifyE (\<lambda>w. w\<lparr>ww_delays := ww_delays w @ [\<bar>d\<bar>]\<rparr>)))) w of
        (Inr _, w1) \<Rightarrow> (Inr (), w1)
      | (Inl e, w1) \<Rightarrow> (Inl e, if caught e then count_reminder (rp_reminder_type p) ''error'' w1 else w1))"

definition process_event :: "coercions \<Rightarrow> int \<Rightarrow> kafka_event \<Rightarrow> wworld \<Rightarrow> ((exn + unit) \<times> wworld) option" where
  "process_event P tol ev w =
     (case validate_payload P (ev_payload ev) of
        Inl e \<Rightarrow> Some (Inl e, w)
      | Inr p \<Rightarrow>
          if \<not> should_dispatch p then Some (Inr (), count_reminder (rp_reminder_type p) ''skipped'' w)
          else (case wait_until tol (wait_target (rp_scheduled_for p)) w of
                  None \<Rightarrow> None
                | Some w1 \<Rightarrow> Some (dispatch p w1)))"

section \<open>Waiting\<close>

lemma wait_now: "target \<le> ww_time w \<Longrightarrow> wait_until tol target w = Some w"
  by (subst wait_until.simps) (simp add: Let_def)

lemma wait_sleep: "ww_time w < target \<Longrightarrow> wait_until tol target w =
    wait_until tol target (sleep (if target - ww_time w \<le> tol then target - ww_time w else target - ww_time w - tol) w)"
  by (subst wait_until.simps) (simp add: Let_def)

lemma wait_last:
  assumes lag: "\<forall>k. 0 \<le> ww_lag w k" and "ww_time w < target" and "target - ww_time w \<le> tol \<or> tol < 0"
  shows "\<exists>d \<ge> target - ww_time w. wait_until tol target w = Some (sleep d w) \<and> (0 \<le> tol \<longrightarrow> d = target - ww_time w)"
proof -
  let ?d = "if target - ww_time w \<le> tol then target - ww_time w else target - ww_time w - tol"
  have d: "?d \<ge> target - ww_time w" "0 \<le> tol \<longrightarrow> ?d = target - ww_time w" using assms by auto
  moreover have "target \<le> ww_time (sleep ?d w)"
    using d(1) lag by (simp add: sleep_def add_increasing2)
  ultimately show ?thesis
    using wait_sleep [OF assms(2), of tol] wait_now [of target "sleep ?d w" tol] by metis
qed

lemma wait_until_spec:
  assumes lag: "\<forall>k. 0 \<le> ww_lag w k"
  shows "\<exists>w'. wait_until tol target w = Some w' \<and> target \<le> ww_time w' \<and> ww_sleeps w' \<le> ww_sleeps w + 2
     \<and> w' = w\<lparr>ww_time := ww_time w', ww_sleeps := ww_sleeps w'\<rparr>
     \<and> (target \<le> ww_time w \<longrightarrow> w' = w)
     \<and> ((\<forall>k. ww_lag w k = 0) \<longrightarrow> 0 \<le> tol \<longrightarrow> ww_time w' = max target (ww_time w))"
proof (cases "target \<le> ww_time w")
  case True
  then show ?thesis by (simp add: wait_now)
next
  case False
  then have before: "ww_time w < target" by simp
  show ?thesis
  proof (cases "target - ww_time w \<le> tol \<or> tol < 0")
    case True
    then obtain d where "target - ww_time w \<le> d" "wait_until tol target w = Some (sleep d w)"
      "0 \<le> tol \<longrightarrow> d = target - ww_time w"
      using wait_last [OF lag before] by blast
    then show ?thesis using before lag by (auto simp: sleep_def add_increasing2)
  next
    case far: False
    let ?w = "sleep (target - ww_time w - tol) w"
    have first: "wait_until tol target w = wait_until tol target ?w"
      using wait_sleep [OF before, of tol] far by simp
    have lag': "\<forall>k. 0 \<le> ww_lag ?w k" using lag by (simp add: sleep_def)
    have t: "ww_time ?w = target - tol + ww_lag w (ww_sleeps w)" by (simp add: sleep_def)
    show ?thesis
    proof (cases "target \<le> ww_time ?w")
      case True
      then show ?thesis using first wait_now [OF True, of tol] before far t by (auto simp: sleep_def)
    next
      case near: False
      have "target - ww_time ?w \<le> tol" using t lag by simp
      then obtain d where "target - ww_time ?w \<le> d" "wait_until tol target ?w = Some (sleep d ?w)"
        "0 \<le> tol \<longrightarrow> d = target - ww_time ?w"
        using wait_last [OF lag'] near by fastforce
      then show ?thesis using first before near lag far by (auto simp: sleep_def add_increasing2)
    qed
  qed
qed

text \<open>
  Property C30. Waiting for a reminder ends, and never early: given sleeps that do not return before their time
  is over, the loop returns after at most two of them, at or after the scheduled time. It does not
  sleep at all when the time has passed, and with exact sleeps and a tolerance that is not
  negative it returns exactly on time.
\<close>

theorem wait_until_on_time:
  assumes lag: "\<forall>k. 0 \<le> ww_lag w k"
  shows "\<exists>w'. wait_until tol target w = Some w' \<and> target \<le> ww_time w' \<and> ww_sleeps w' \<le> ww_sleeps w + 2
     \<and> w' = w\<lparr>ww_time := ww_time w', ww_sleeps := ww_sleeps w'\<rparr>
     \<and> (target \<le> ww_time w \<longrightarrow> w' = w)
     \<and> ((\<forall>k. ww_lag w k = 0) \<longrightarrow> 0 \<le> tol \<longrightarrow> ww_time w' = max target (ww_time w))"
  by (rule wait_until_spec [OF lag])

definition fx_worker :: wworld where
  "fx_worker = \<lparr>ww_time = 0, ww_lag = (\<lambda>_. 0), ww_sleeps = 0, ww_send = (\<lambda>_. None), ww_took = (\<lambda>_. 0), ww_calls = 0,
     ww_sent = [], ww_metrics = [], ww_delays = []\<rparr>"

theorem wait_until_on_time_witness:
  "\<exists>w'. wait_until 60000000 300000000 fx_worker = Some w' \<and> ww_time w' = 300000000"
  using wait_until_on_time [of fx_worker 60000000 300000000] by (auto simp: fx_worker_def)

section \<open>Processing one reminder\<close>

lemma waited:
  assumes lag: "\<forall>k. 0 \<le> ww_lag w k"
  obtains w1 where "wait_until tol target w = Some w1" and "target \<le> ww_time w1" and "ww_time w \<le> ww_time w1"
    and "ww_calls w1 = ww_calls w" and "ww_send w1 = ww_send w" and "ww_sent w1 = ww_sent w"
    and "ww_metrics w1 = ww_metrics w" and "ww_delays w1 = ww_delays w" and "ww_lag w1 = ww_lag w"
    and "ww_took w1 = ww_took w"
    and "(\<forall>k. ww_lag w k = 0) \<longrightarrow> 0 \<le> tol \<longrightarrow> ww_time w1 = max target (ww_time w)"
proof -
  obtain w1 where w1: "wait_until tol target w = Some w1" "target \<le> ww_time w1" "target \<le> ww_time w \<longrightarrow> w1 = w"
    and exact: "(\<forall>k. ww_lag w k = 0) \<longrightarrow> 0 \<le> tol \<longrightarrow> ww_time w1 = max target (ww_time w)"
    and eq: "w1 = w\<lparr>ww_time := ww_time w1, ww_sleeps := ww_sleeps w1\<rparr>"
    using wait_until_spec [OF lag, of tol target] by blast
  have "ww_time w \<le> ww_time w1"
    using w1 by (cases "target \<le> ww_time w") auto
  moreover have "ww_calls w1 = ww_calls w" by (subst eq) simp
  moreover have "ww_send w1 = ww_send w" by (subst eq) simp
  moreover have "ww_sent w1 = ww_sent w" by (subst eq) simp
  moreover have "ww_metrics w1 = ww_metrics w" by (subst eq) simp
  moreover have "ww_delays w1 = ww_delays w" by (subst eq) simp
  moreover have "ww_lag w1 = ww_lag w" by (subst eq) simp
  moreover have "ww_took w1 = ww_took w" by (subst eq) simp
  ultimately show ?thesis using that w1 exact by blast
qed

section \<open>Scheduling\<close>

definition the_payload :: "string \<Rightarrow> channel_reminder_config \<Rightarrow> string option \<Rightarrow> datetime
    \<Rightarrow> reminder_type \<Rightarrow> string \<Rightarrow> string \<Rightarrow> reminder_payload" where
  "the_payload rid ch runner at ty corr i = \<lparr>rp_reminder_id = i, rp_run_id = rid, rp_channel_id = crc_channel_id ch,
     rp_runner_user_id = (if truthy runner then runner else None), rp_reminder_type = ty,
     rp_scheduled_for = at, rp_reminder_offset_minutes = crc_reminder_offset_minutes ch,
     rp_channel_reminders_enabled = crc_reminders_enabled ch,
     rp_last_call_enabled = crc_last_call_enabled ch, rp_correlation_id = Some corr\<rparr>"

definition the_event :: "sched \<Rightarrow> string \<Rightarrow> reminder_payload \<Rightarrow> string \<times> kafka_event" where
  "the_event s corr p = (topic_name REMINDER_EVENTS_TOPIC,
     \<lparr>ev_type = sch_event_type s, ev_correlation_id = corr, ev_payload = dump_payload p,
      ev_occurred_at = sch_clock s (sch_ticks s)\<rparr>)"

text \<open>The scheduler after one accepted reminder.\<close>

definition after_one :: "string \<Rightarrow> reminder_payload \<Rightarrow> sched \<Rightarrow> sched" where
  "after_one corr p s = s\<lparr>sch_drawn := Suc (sch_drawn s), sch_ticks := Suc (sch_ticks s),
     sch_calls := Suc (sch_calls s), sch_published := sch_published s @ [the_event s corr p]\<rparr>"

lemma schedule_one_run:
  assumes "minus_minutes aware m = Inr at" and "corr \<noteq> []" and "sch_publish s (sch_calls s) = None"
  shows "schedule_one rid ch runner aware m ty corr acc s
    = (let p = the_payload rid ch runner at ty corr (sch_ids s (sch_drawn s)) in (Inr (acc @ [p]), after_one corr p s))"
  using assms
  by (simp add: schedule_one_def build_payload_def publish_payload_def publish_def the_payload_def
      the_event_def after_one_def kafka_event_def bindE_def op_simps)

text \<open>What is due for a run: type, time and addressee of each reminder.\<close>

definition due_reminders :: "string option \<Rightarrow> channel_reminder_config \<Rightarrow> time \<Rightarrow> (reminder_type \<times> time \<times> string option) list" where
  "due_reminders runner ch t =
     (if crc_reminders_enabled ch \<and> truthy runner
      then [(RunnerReminder, t - crc_reminder_offset_minutes ch * 60000000, runner)] else [])
   @ (case crc_last_call_lead_minutes ch of None \<Rightarrow> []
      | Some n \<Rightarrow> if crc_reminders_enabled ch \<and> crc_last_call_enabled ch \<and> 0 < n
                  then [(LastCall, t - n * 60000000, None)] else [])"

definition as_due :: "reminder_payload \<Rightarrow> reminder_type \<times> datetime \<times> string option" where
  "as_due p = (rp_reminder_type p, rp_scheduled_for p, rp_runner_user_id p)"

definition due_utc :: "reminder_type \<times> time \<times> string option \<Rightarrow> reminder_type \<times> datetime \<times> string option" where
  "due_utc x = (fst x, Aware (fst (snd x)) 0, snd (snd x))"

lemma aware_utc: "datetime_range (wait_target d) \<Longrightarrow> scheduler_as_aware d = Inr (Aware (wait_target d) 0)"
  by (cases d) (simp_all add: scheduler_as_aware_def wait_target_def)

definition settings_of :: "reminder_payload \<Rightarrow> bool \<times> bool" where
  "settings_of p = (rp_channel_reminders_enabled p, rp_last_call_enabled p)"

lemma schedule_for_run_spec:
  assumes range: "datetime_range (wait_target d)" "\<forall>x \<in> set (due_reminders runner ch (wait_target d)). datetime_range (fst (snd x))"
    and corr: "corr \<noteq> []" and accepted: "\<forall>k. sch_publish s k = None"
  shows "\<exists>ps s'. schedule_for_run rid (Some d) runner ch corr s = (Inr ps, s')
     \<and> map as_due ps = map due_utc (due_reminders runner ch (wait_target d))
     \<and> (\<forall>p \<in> set ps. settings_of p = (crc_reminders_enabled ch, crc_last_call_enabled ch) \<and> rp_run_id p = rid)
     \<and> (\<exists>evs. sch_published s' = sch_published s @ evs
        \<and> map (\<lambda>(tp, e). (tp, ev_type e, ev_correlation_id e, ev_payload e)) evs
          = map (\<lambda>p. (topic_name REMINDER_EVENTS_TOPIC, sch_event_type s, corr, dump_payload p)) ps)"
proof -
  let ?t = "wait_target d"
  define p1 where "p1 = the_payload rid ch runner (Aware (?t - crc_reminder_offset_minutes ch * 60000000) 0)
    RunnerReminder corr (sch_ids s (sch_drawn s))"
  define first where "first \<longleftrightarrow> crc_reminders_enabled ch \<and> truthy runner"
  define ps1 where "ps1 = (if first then [p1] else [])"
  define s1 where "s1 = (if first then after_one corr p1 s else s)"
  have step1: "(if crc_reminders_enabled ch \<and> truthy runner
      then schedule_one rid ch runner (Aware ?t 0) (crc_reminder_offset_minutes ch) RunnerReminder corr []
      else returnE []) s = (Inr ps1, s1)"
  proof (cases first)
    case True
    then have at: "minus_minutes (Aware ?t 0) (crc_reminder_offset_minutes ch) = Inr (Aware (?t - crc_reminder_offset_minutes ch * 60000000) 0)"
      using range(2) by (simp add: first_def due_reminders_def minus_minutes_def)
    with True show ?thesis
      using schedule_one_run [OF at corr] accepted
      by (simp add: first_def ps1_def s1_def p1_def Let_def)
  next
    case False
    then show ?thesis by (auto simp: first_def ps1_def s1_def op_simps)
  qed
  have accepted1: "sch_publish s1 (sch_calls s1) = None" using accepted by (simp add: s1_def after_one_def)
  have type1: "sch_event_type s1 = sch_event_type s" by (simp add: s1_def after_one_def)
  have part1: "map as_due ps1 = map due_utc (if first then [(RunnerReminder, ?t - crc_reminder_offset_minutes ch * 60000000, runner)] else [])"
    "\<forall>p \<in> set ps1. settings_of p = (crc_reminders_enabled ch, crc_last_call_enabled ch) \<and> rp_run_id p = rid"
    "sch_published s1 = sch_published s @ (if first then [the_event s corr p1] else [])"
    by (auto simp: ps1_def p1_def s1_def as_due_def due_utc_def the_payload_def after_one_def settings_of_def first_def)
  show ?thesis
  proof (cases "\<exists>n. crc_last_call_lead_minutes ch = Some n \<and> crc_reminders_enabled ch \<and> crc_last_call_enabled ch \<and> 0 < n")
    case True
    then obtain n where n: "crc_last_call_lead_minutes ch = Some n" "crc_reminders_enabled ch" "crc_last_call_enabled ch" "0 < n"
      by blast
    define p2 where "p2 = the_payload rid ch None (Aware (?t - n * 60000000) 0) LastCall corr (sch_ids s1 (sch_drawn s1))"
    have "minus_minutes (Aware ?t 0) n = Inr (Aware (?t - n * 60000000) 0)"
      using range(2) n by (simp add: due_reminders_def minus_minutes_def)
    from schedule_one_run [OF this corr accepted1] have
      run: "schedule_for_run rid (Some d) runner ch corr s = (Inr (ps1 @ [p2]), after_one corr p2 s1)"
      using step1 n aware_utc [OF range(1)] by (simp add: schedule_for_run_def op_simps p2_def Let_def)
    show ?thesis
      by (intro exI [of _ "ps1 @ [p2]"] exI [of _ "after_one corr p2 s1"] conjI run
          exI [of _ "(if first then [the_event s corr p1] else []) @ [the_event s1 corr p2]"])
        (use part1 n type1 in \<open>auto simp: due_reminders_def first_def as_due_def due_utc_def p2_def the_payload_def
            truthy_def settings_of_def after_one_def the_event_def ps1_def\<close>)
  next
    case False
    then have run: "schedule_for_run rid (Some d) runner ch corr s = (Inr ps1, s1)"
      using step1 aware_utc [OF range(1)]
      by (auto simp: schedule_for_run_def op_simps bindE_Inr [where m = "\<lambda>s. (if _ then _ else _) s"] split: option.splits)
    show ?thesis
      by (intro exI [of _ ps1] exI [of _ s1] conjI run exI [of _ "if first then [the_event s corr p1] else []"])
        (use part1 False in \<open>auto simp: due_reminders_def first_def the_event_def ps1_def split: option.splits\<close>)
  qed
qed

text \<open>
  Property C31. Scheduling a run publishes exactly the reminders that are due: nothing without a pickup time;
  otherwise one for the runner, if reminders are enabled and there is a runner, at the pickup time less the
  channel's offset, and one last call, if reminders and last calls are enabled and the lead is positive, at the
  pickup time less that lead. Each is published once, in this order, on the reminder topic, as the dump of
  the payload that is returned and under the correlation id given; a naive pickup time is read as UTC.
\<close>

theorem schedule_for_run_publishes:
  assumes range: "datetime_range (wait_target d)" "\<forall>x \<in> set (due_reminders runner ch (wait_target d)). datetime_range (fst (snd x))"
    and corr: "corr \<noteq> []" and accepted: "\<forall>k. sch_publish s k = None"
  shows "schedule_for_run rid None runner ch corr s = (Inr [], s)
    \<and> (\<exists>ps s'. schedule_for_run rid (Some d) runner ch corr s = (Inr ps, s')
     \<and> map as_due ps = map due_utc (due_reminders runner ch (wait_target d))
     \<and> (\<forall>p \<in> set ps. settings_of p = (crc_reminders_enabled ch, crc_last_call_enabled ch) \<and> rp_run_id p = rid)
     \<and> (\<exists>evs. sch_published s' = sch_published s @ evs
        \<and> map (\<lambda>(tp, e). (tp, ev_type e, ev_correlation_id e, ev_payload e)) evs
          = map (\<lambda>p. (topic_name REMINDER_EVENTS_TOPIC, sch_event_type s, corr, dump_payload p)) ps))"
proof -
  have "schedule_for_run rid None runner ch corr s = (Inr [], s)"
    by (simp add: schedule_for_run_def op_simps)
  with schedule_for_run_spec [OF range corr accepted, of rid] show ?thesis by blast
qed

definition fx_sched :: sched where
  "fx_sched = \<lparr>sch_event_type = ''reminder_scheduled'', sch_ids = (\<lambda>k. CHR ''r'' # nat_str k), sch_drawn = 0,
     sch_clock = (\<lambda>_. 0), sch_ticks = 0, sch_publish = (\<lambda>_. None), sch_calls = 0, sch_published = []\<rparr>"

definition fx_channel_config :: channel_reminder_config where
  "fx_channel_config = \<lparr>crc_channel_id = ''C1'', crc_reminders_enabled = True, crc_reminder_offset_minutes = 5,
     crc_last_call_enabled = True, crc_last_call_lead_minutes = Some 2\<rparr>"

theorem schedule_for_run_publishes_witness:
  "\<exists>ps s'. schedule_for_run ''run1'' (Some (Naive 600000000)) (Some ''U1'') fx_channel_config ''c1'' fx_sched = (Inr ps, s')
     \<and> map as_due ps = [(RunnerReminder, Aware 300000000 0, Some ''U1''), (LastCall, Aware 480000000 0, None)]
     \<and> length (sch_published s') = 2"
proof -
  have due: "due_reminders (Some ''U1'') fx_channel_config (wait_target (Naive 600000000))
      = [(RunnerReminder, 300000000, Some ''U1''), (LastCall, 480000000, None)]"
    by (simp add: due_reminders_def fx_channel_config_def truthy_def wait_target_def)
  have range: "datetime_range (wait_target (Naive 600000000))"
    "\<forall>x \<in> set (due_reminders (Some ''U1'') fx_channel_config (wait_target (Naive 600000000))). datetime_range (fst (snd x))"
    by (simp_all add: due) (simp_all add: wait_target_def datetime_range_def datetime_min_def datetime_max_def)
  have "''c1'' \<noteq> ([]::string)" and "\<forall>k. sch_publish fx_sched k = None" and "sch_published fx_sched = []"
    by (simp_all add: fx_sched_def)
  with schedule_for_run_publishes [OF range, of "''c1''" fx_sched "''run1''"]
  show ?thesis
    unfolding due by (fastforce simp: due_utc_def dest: map_eq_imp_length_eq)
qed

section \<open>What the worker does with a reminder\<close>

lemma dispatch_run: "dispatch p w =
    (let w0 = w\<lparr>ww_calls := Suc (ww_calls w), ww_time := ww_time w + ww_took w (ww_calls w)\<rparr> in
     case ww_send w (ww_calls w) of
       Some e \<Rightarrow> (Inl e, if caught e then count_reminder (rp_reminder_type p) ''error'' w0 else w0)
     | None \<Rightarrow>
        (let w1 = count_reminder (rp_reminder_type p) ''sent'' (w0\<lparr>ww_sent := ww_sent w @ [(ww_time w, rp_reminder_type p, p)]\<rparr>)
         in case rp_scheduled_for p of
              Aware t off \<Rightarrow> (Inr (), w1\<lparr>ww_delays := ww_delays w @ [\<bar>ww_time w0 - t\<bar>]\<rparr>)
            | Naive t \<Rightarrow> (Inl TypeError, count_reminder (rp_reminder_type p) ''error'' w1)))"
  by (simp add: dispatch_def send_fn_def clock_minus_def caught_def count_reminder_def bindE_def op_simps
      split: option.splits datetime.splits)

text \<open>A reminder that is not skipped is handed over after the wait, which changes the clock only.\<close>

lemma handed_over:
  assumes lag: "\<forall>k. 0 \<le> ww_lag w k" and valid: "validate_payload P (ev_payload ev) = Inr p" and go: "should_dispatch p"
  obtains w1 where "process_event P tol ev w = Some (dispatch p w1)"
    and "wait_target (rp_scheduled_for p) \<le> ww_time w1" and "ww_time w \<le> ww_time w1"
    and "ww_calls w1 = ww_calls w" and "ww_send w1 = ww_send w" and "ww_sent w1 = ww_sent w"
    and "ww_metrics w1 = ww_metrics w" and "ww_delays w1 = ww_delays w" and "ww_lag w1 = ww_lag w"
    and "ww_took w1 = ww_took w"
    and "(\<forall>k. ww_lag w k = 0) \<longrightarrow> 0 \<le> tol \<longrightarrow> ww_time w1 = max (wait_target (rp_scheduled_for p)) (ww_time w)"
proof -
  have run: "process_event P tol ev w = Some (dispatch p w1)"
    if "wait_until tol (wait_target (rp_scheduled_for p)) w = Some w1" for w1
    using valid go that by (simp add: process_event_def)
  show thesis
    by (rule waited [OF lag, of tol "wait_target (rp_scheduled_for p)"]) (rule that [OF run], assumption+)
qed

text \<open>
  Property C32. The worker accounts for every reminder. A payload that does not validate raises and changes
  nothing. A reminder the channel's settings switch off is counted as skipped, at once and without a call of
  the sender. Any other is handed to the sender exactly once, never before its time: if the sender
  takes it, it is counted as sent, with the delay from its time to the end of the call; if the sender fails, it is
  counted as an error, nothing is recorded as sent and the exception is raised again. Only a reminder whose time carries
  no zone is booked twice: the wait reads its time as UTC, the sender takes it and it is counted as sent, and then the
  delay is computed from the aware clock and the naive time, which raises a TypeError inside the same \<open>try\<close>, so that it
  is counted as an error, too, and the caller sees an exception. This holds for sleeps that last as long as asked and
  calls that do not turn the clock back.
\<close>

theorem process_event_accounting:
  assumes lag: "\<forall>k. 0 \<le> ww_lag w k" and took: "\<forall>k. 0 \<le> ww_took w k"
  shows "(\<forall>e. validate_payload P (ev_payload ev) = Inl e \<longrightarrow> process_event P tol ev w = Some (Inl e, w))
    \<and> (\<forall>p. validate_payload P (ev_payload ev) = Inr p \<longrightarrow> \<not> should_dispatch p \<longrightarrow>
           process_event P tol ev w = Some (Inr (), count_reminder (rp_reminder_type p) ''skipped'' w))
    \<and> (\<forall>p t off. validate_payload P (ev_payload ev) = Inr p \<longrightarrow> rp_scheduled_for p = Aware t off \<longrightarrow> should_dispatch p \<longrightarrow>
        (\<exists>at w' r. process_event P tol ev w = Some (r, w')
           \<and> t \<le> at \<and> ww_time w \<le> at \<and> at \<le> ww_time w' \<and> ww_calls w' = Suc (ww_calls w)
           \<and> (ww_send w (ww_calls w) = None \<longrightarrow> r = Inr () \<and> ww_sent w' = ww_sent w @ [(at, rp_reminder_type p, p)]
               \<and> ww_metrics w' = ww_metrics w @ [(reminder_type_value (rp_reminder_type p), ''sent'')]
               \<and> ww_delays w' = ww_delays w @ [ww_time w' - t])
           \<and> (\<forall>e. ww_send w (ww_calls w) = Some e \<longrightarrow> e \<noteq> CancelledError \<longrightarrow> r = Inl e \<and> ww_sent w' = ww_sent w
               \<and> ww_metrics w' = ww_metrics w @ [(reminder_type_value (rp_reminder_type p), ''error'')]
               \<and> ww_delays w' = ww_delays w)))
    \<and> (\<forall>p t. validate_payload P (ev_payload ev) = Inr p \<longrightarrow> rp_scheduled_for p = Naive t \<longrightarrow> should_dispatch p \<longrightarrow>
        ww_send w (ww_calls w) = None \<longrightarrow>
        (\<exists>at w'. process_event P tol ev w = Some (Inl TypeError, w') \<and> t \<le> at
           \<and> ww_sent w' = ww_sent w @ [(at, rp_reminder_type p, p)] \<and> ww_delays w' = ww_delays w
           \<and> ww_metrics w' = ww_metrics w @ [(reminder_type_value (rp_reminder_type p), ''sent''),
                                              (reminder_type_value (rp_reminder_type p), ''error'')]))"
proof (intro conjI allI impI)
  show "process_event P tol ev w = Some (Inl e, w)" if "validate_payload P (ev_payload ev) = Inl e" for e
    using that by (simp add: process_event_def)
next
  fix p
  assume valid: "validate_payload P (ev_payload ev) = Inr p"
  then show "process_event P tol ev w = Some (Inr (), count_reminder (rp_reminder_type p) ''skipped'' w)"
    if "\<not> should_dispatch p"
    using that by (simp add: process_event_def)
  assume go: "should_dispatch p"
  obtain w1 where run: "process_event P tol ev w = Some (dispatch p w1)"
    and w1: "wait_target (rp_scheduled_for p) \<le> ww_time w1" "ww_time w \<le> ww_time w1"
    and same: "ww_calls w1 = ww_calls w" "ww_send w1 = ww_send w" "ww_sent w1 = ww_sent w"
      "ww_metrics w1 = ww_metrics w" "ww_delays w1 = ww_delays w" "ww_took w1 = ww_took w"
    by (rule handed_over [OF lag valid go, of tol])
  show "\<exists>at w'. process_event P tol ev w = Some (Inl TypeError, w') \<and> t \<le> at
           \<and> ww_sent w' = ww_sent w @ [(at, rp_reminder_type p, p)] \<and> ww_delays w' = ww_delays w
           \<and> ww_metrics w' = ww_metrics w @ [(reminder_type_value (rp_reminder_type p), ''sent''),
                                              (reminder_type_value (rp_reminder_type p), ''error'')]"
    if "rp_scheduled_for p = Naive t" "ww_send w (ww_calls w) = None" for t
    using w1(1) that by (intro exI [of _ "ww_time w1"]) (simp add: run dispatch_run same count_reminder_def Let_def wait_target_def)
  fix t off
  assume at: "rp_scheduled_for p = Aware t off"
  have later: "ww_time w1 \<le> ww_time w1 + ww_took w (ww_calls w)" using took by simp
  then have "\<bar>ww_time w1 + ww_took w (ww_calls w) - t\<bar> = ww_time w1 + ww_took w (ww_calls w) - t"
    using w1(1) by (simp add: at wait_target_def)
  then show "\<exists>at w' r. process_event P tol ev w = Some (r, w')
           \<and> t \<le> at \<and> ww_time w \<le> at \<and> at \<le> ww_time w' \<and> ww_calls w' = Suc (ww_calls w)
           \<and> (ww_send w (ww_calls w) = None \<longrightarrow> r = Inr () \<and> ww_sent w' = ww_sent w @ [(at, rp_reminder_type p, p)]
               \<and> ww_metrics w' = ww_metrics w @ [(reminder_type_value (rp_reminder_type p), ''sent'')]
               \<and> ww_delays w' = ww_delays w @ [ww_time w' - t])
           \<and> (\<forall>e. ww_send w (ww_calls w) = Some e \<longrightarrow> e \<noteq> CancelledError \<longrightarrow> r = Inl e \<and> ww_sent w' = ww_sent w
               \<and> ww_metrics w' = ww_metrics w @ [(reminder_type_value (rp_reminder_type p), ''error'')]
               \<and> ww_delays w' = ww_delays w)"
    using w1 later at
    by (intro exI [of _ "ww_time w1"], cases "ww_send w (ww_calls w)")
      (simp_all add: run dispatch_run same count_reminder_def caught_def Let_def wait_target_def)
qed

text \<open>The settings of the channel decide again when the reminder is processed.\<close>

definition plain_coercions :: coercions where
  "plain_coercions = \<lparr>co_str = (\<lambda>v. case v of PStr s \<Rightarrow> Some s | _ \<Rightarrow> None),
     co_int = (\<lambda>v. case v of PInt i \<Rightarrow> Some i | _ \<Rightarrow> None),
     co_bool = (\<lambda>v. case v of PBool b \<Rightarrow> Some b | _ \<Rightarrow> None),
     co_datetime = (\<lambda>v. case v of PDatetime d \<Rightarrow> Some d | PStr s \<Rightarrow> map_option (\<lambda>t. Aware t 0) (py_int 10 s) | _ \<Rightarrow> None)\<rparr>"

definition fx_event :: "datetime \<Rightarrow> kafka_event" where
  "fx_event d = \<lparr>ev_type = ''reminder_scheduled'', ev_correlation_id = ''c1'', ev_payload = dump_payload
     (the_payload ''run1'' fx_channel_config (Some ''U1'') d RunnerReminder ''c1'' ''r0''), ev_occurred_at = 0\<rparr>"

lemma fx_event_valid: "validate_payload plain_coercions (ev_payload (fx_event d))
    = Inr (the_payload ''run1'' fx_channel_config (Some ''U1'') d RunnerReminder ''c1'' ''r0'')"
  by (simp add: fx_event_def validate_payload_def dump_payload_def the_payload_def plain_coercions_def
      field_def field_or_def co_opt_str_def co_reminder_type_def opt_str_def truthy_def)

theorem process_event_accounting_witness:
  "(\<exists>w'. process_event plain_coercions 60000000 (fx_event (Aware 300000000 0)) fx_worker = Some (Inr (), w')
      \<and> 300000000 \<le> ww_time w' \<and> ww_metrics w' = [(''runner'', ''sent'')])
   \<and> (\<exists>w'. process_event plain_coercions 60000000 (fx_event (Naive 300000000)) fx_worker = Some (Inl TypeError, w')
      \<and> ww_metrics w' = [(''runner'', ''sent''), (''runner'', ''error'')])"
proof -
  let ?p = "\<lambda>d. the_payload ''run1'' fx_channel_config (Some ''U1'') d RunnerReminder ''c1'' ''r0''"
  have facts: "rp_scheduled_for (?p d) = d" "should_dispatch (?p d)" "rp_reminder_type (?p d) = RunnerReminder" for d
    by (simp_all add: the_payload_def should_dispatch_def fx_channel_config_def truthy_def)
  have lag: "\<forall>k. 0 \<le> ww_lag fx_worker k" "\<forall>k. 0 \<le> ww_took fx_worker k"
    and took: "ww_send fx_worker (ww_calls fx_worker) = None" "ww_metrics fx_worker = []"
    by (simp_all add: fx_worker_def)
  show ?thesis
    using process_event_accounting [OF lag, of plain_coercions "fx_event (Aware 300000000 0)" 60000000]
      process_event_accounting [OF lag, of plain_coercions "fx_event (Naive 300000000)" 60000000] facts took
    by (fastforce simp: fx_event_valid)
qed

end
