(* ===== verification/ReminderFlow.thy ===== *)
theory ReminderFlow
  imports Reminders
begin

text \<open>
  The way of a reminder through the whole program: scheduled (\<open>jobs/reminders/scheduler.py\<close>), written to the
  topic as JSON, read by the consumer loop (\<open>infra/kafka/consumer.py\<close>) and handed to the worker
  (\<open>infra/kafka/reminder_worker.py\<close>).

  JSON keeps strings, numbers and booleans and writes a datetime as text; which text is the argument \<open>fmt\<close>,
  and that pydantic reads each of these back is \<open>json_codec\<close>.
\<close>

section \<open>A payload as JSON\<close>

definition json_val :: "(datetime \<Rightarrow> string) \<Rightarrow> pyval \<Rightarrow> pyval" where
  "json_val fmt v = (case v of PDatetime d \<Rightarrow> PStr (fmt d) | _ \<Rightarrow> v)"

definition json_payload :: "(datetime \<Rightarrow> string) \<Rightarrow> pydict \<Rightarrow> pydict" where
  "json_payload fmt d = map (\<lambda>(k, v). (k, json_val fmt v)) d"

definition json_event :: "(datetime \<Rightarrow> string) \<Rightarrow> kafka_event \<Rightarrow> kafka_event" where
  "json_event fmt e = e\<lparr>ev_payload := json_payload fmt (ev_payload e)\<rparr>"

definition json_codec :: "coercions \<Rightarrow> (datetime \<Rightarrow> string) \<Rightarrow> bool" where
  "json_codec P fmt \<longleftrightarrow> (\<forall>s. co_str P (PStr s) = Some s) \<and> (\<forall>i. co_int P (PInt i) = Some i)
     \<and> (\<forall>b. co_bool P (PBool b) = Some b)
     \<and> (\<forall>t. datetime_range t \<longrightarrow> co_datetime P (PStr (fmt (Aware t 0))) = Some (Aware t 0))"

lemma validate_json:
  assumes "json_codec P fmt" and "rp_scheduled_for p = Aware t 0" and "datetime_range t"
  shows "validate_payload P (json_payload fmt (dump_payload p)) = Inr p"
  using assms
  by (cases "rp_runner_user_id p"; cases "rp_correlation_id p"; cases "rp_reminder_type p")
    (simp_all add: json_codec_def validate_payload_def json_payload_def dump_payload_def json_val_def
      field_def field_or_def co_opt_str_def opt_str_def co_reminder_type_def)

section \<open>The worker as the handler of the consumer\<close>

definition worker_handler :: "coercions \<Rightarrow> int \<Rightarrow> kafka_event \<Rightarrow> (wworld, exn, unit) op" where
  "worker_handler P tol ev w = the (process_event P tol ev w)"

text \<open>Sleeps and calls that take exactly the time they should.\<close>

definition exact_clock :: "int \<Rightarrow> wworld \<Rightarrow> bool" where
  "exact_clock tol w \<longleftrightarrow> 0 \<le> tol \<and> (\<forall>k. ww_lag w k = 0) \<and> (\<forall>k. ww_took w k = 0)"

definition forward_clock :: "wworld \<Rightarrow> bool" where
  "forward_clock w \<longleftrightarrow> (\<forall>k. 0 \<le> ww_lag w k) \<and> (\<forall>k. 0 \<le> ww_took w k)"

lemma worker_sends:
  assumes forward: "forward_clock w" and valid: "validate_payload P (ev_payload ev) = Inr p"
    and at: "rp_scheduled_for p = Aware t off" and go: "should_dispatch p" and accepted: "\<forall>k. ww_send w k = None"
  obtains x w' where "process_event P tol ev w = Some (Inr (), w')" and "t \<le> x" and "x \<le> ww_time w'"
    and "ww_sent w' = ww_sent w @ [(x, rp_reminder_type p, p)]"
    and "ww_lag w' = ww_lag w" and "ww_took w' = ww_took w" and "ww_send w' = ww_send w"
    and "exact_clock tol w \<Longrightarrow> x = max t (ww_time w) \<and> ww_time w' = x"
proof -
  have lag: "\<forall>k. 0 \<le> ww_lag w k" and took: "0 \<le> ww_took w (ww_calls w)" using forward by (simp_all add: forward_clock_def)
  obtain w1 where run: "process_event P tol ev w = Some (dispatch p w1)"
    and w1: "wait_target (rp_scheduled_for p) \<le> ww_time w1" "ww_time w \<le> ww_time w1"
    and same: "ww_calls w1 = ww_calls w" "ww_send w1 = ww_send w" "ww_sent w1 = ww_sent w" "ww_lag w1 = ww_lag w" "ww_took w1 = ww_took w"
    and exact: "(\<forall>k. ww_lag w k = 0) \<longrightarrow> 0 \<le> tol \<longrightarrow> ww_time w1 = max (wait_target (rp_scheduled_for p)) (ww_time w)"
    by (rule handed_over [OF lag valid go, of tol])
  let ?w = "snd (dispatch p w1)"
  have sent: "dispatch p w1 = (Inr (), ?w)" "ww_time ?w = ww_time w1 + ww_took w (ww_calls w)"
    "ww_sent ?w = ww_sent w @ [(ww_time w1, rp_reminder_type p, p)]"
    "ww_lag ?w = ww_lag w" "ww_took ?w = ww_took w" "ww_send ?w = ww_send w"
    using accepted same by (simp_all add: dispatch_run at count_reminder_def Let_def)
  show thesis
  proof (rule that [of ?w "ww_time w1"])
    show "process_event P tol ev w = Some (Inr (), ?w)" using run sent(1) by simp
    show "t \<le> ww_time w1" using w1(1) at by (simp add: wait_target_def)
    show "ww_time w1 = max t (ww_time w) \<and> ww_time ?w = ww_time w1" if "exact_clock tol w"
      using that exact at sent(2) by (simp add: exact_clock_def wait_target_def)
  qed (use sent took in simp_all)
qed

text \<open>
  The loop handles one message after the other, and the worker waits in the handler: a reminder goes out at the latest of its
  own time, the times of those before it, and the start.
\<close>

fun send_times :: "time \<Rightarrow> time list \<Rightarrow> time list" where
  "send_times t [] = []"
| "send_times t (d # ds) = max d t # send_times (max d t) ds"

abbreviation due_time :: "reminder_payload \<Rightarrow> time" where
  "due_time p \<equiv> wait_target (rp_scheduled_for p)"

abbreviation sent_at :: "time \<Rightarrow> reminder_payload \<Rightarrow> time \<times> reminder_type \<times> reminder_payload" where
  "sent_at x p \<equiv> (x, rp_reminder_type p, p)"

definition arrives :: "coercions \<Rightarrow> (datetime \<Rightarrow> string) \<Rightarrow> (kafka_event \<Rightarrow> bytes) \<Rightarrow> (bytes \<Rightarrow> exn + kafka_event)
    \<Rightarrow> string \<times> kafka_event \<Rightarrow> reminder_payload \<Rightarrow> bool" where
  "arrives P fmt dump parse x p \<longleftrightarrow> ev_payload (snd x) = dump_payload p
     \<and> parse (dump (snd x)) = Inr (json_event fmt (snd x)) \<and> should_dispatch p
     \<and> (\<exists>t. rp_scheduled_for p = Aware t 0 \<and> datetime_range t)"

lemma consume_reminders:
  assumes codec: "json_codec P fmt" and "list_all2 (arrives P fmt dump parse) evs ps"
    and "forward_clock w" and "\<forall>k. ww_send w k = None"
  shows "\<exists>xs w'. consume_loop parse (worker_handler P tol) topic (map (\<lambda>x. Message False (dump (snd x))) evs) (w, ms)
      = (Inr (), (w', ms @ map (\<lambda>_. (topic, ''success'')) evs))
    \<and> ww_sent w' = ww_sent w @ map2 sent_at xs ps \<and> list_all2 (\<lambda>x p. due_time p \<le> x) xs ps
    \<and> (exact_clock tol w \<longrightarrow> xs = send_times (ww_time w) (map due_time ps))"
  using assms(2-)
proof (induction evs ps arbitrary: w ms rule: list_all2_induct)
  case Nil
  then show ?case by (intro exI [of _ "[]"]) (simp add: op_simps)
next
  case (Cons e evs p ps)
  from Cons.hyps obtain t where at: "rp_scheduled_for p = Aware t 0" "datetime_range t"
    and e: "ev_payload (snd e) = dump_payload p" "parse (dump (snd e)) = Inr (json_event fmt (snd e))" "should_dispatch p"
    by (auto simp: arrives_def)
  have valid: "validate_payload P (ev_payload (json_event fmt (snd e))) = Inr p"
    using validate_json [OF codec at] e(1) by (simp add: json_event_def)
  obtain x w1 where w1: "process_event P tol (json_event fmt (snd e)) w = Some (Inr (), w1)" "t \<le> x"
    "ww_sent w1 = ww_sent w @ [sent_at x p]"
    and same: "ww_lag w1 = ww_lag w" "ww_took w1 = ww_took w" "ww_send w1 = ww_send w"
    and exact: "exact_clock tol w \<Longrightarrow> x = max t (ww_time w) \<and> ww_time w1 = x"
    using worker_sends [OF Cons.prems(1) valid at(1) e(3) Cons.prems(2)] by metis
  have "forward_clock w1" "\<forall>k. ww_send w1 k = None"
    using Cons.prems same by (simp_all add: forward_clock_def)
  from Cons.IH [OF this, of "ms @ [(topic, ''success'')]"] obtain xs w2
    where w2: "consume_loop parse (worker_handler P tol) topic (map (\<lambda>x. Message False (dump (snd x))) evs)
        (w1, ms @ [(topic, ''success'')]) = (Inr (), (w2, (ms @ [(topic, ''success'')]) @ map (\<lambda>_. (topic, ''success'')) evs))"
      "ww_sent w2 = ww_sent w1 @ map2 sent_at xs ps" "list_all2 (\<lambda>x p. due_time p \<le> x) xs ps"
      "exact_clock tol w1 \<longrightarrow> xs = send_times (ww_time w1) (map due_time ps)" by blast
  have handled: "worker_handler P tol (json_event fmt (snd e)) w = (Inr (), w1)"
    using w1(1) by (simp add: worker_handler_def)
  have "exact_clock tol w \<longrightarrow> x # xs = send_times (ww_time w) (map due_time (p # ps))"
    using exact w2(4) at(1) same by (simp add: exact_clock_def wait_target_def)
  then show ?case
    using w1 w2 at e(2) handled
    by (intro exI [of _ "x # xs"] exI [of _ w2]) (simp add: consume_step wait_target_def del: consume_loop.simps)
qed

lemma due_dispatched:
  assumes "x \<in> set (due_reminders runner ch t)" and "as_due p = due_utc x"
    and "settings_of p = (crc_reminders_enabled ch, crc_last_call_enabled ch)"
  shows "should_dispatch p" and "rp_scheduled_for p = Aware (fst (snd x)) 0"
  using assms
  by (cases x; cases runner; fastforce simp: due_utc_def as_due_def settings_of_def should_dispatch_def due_reminders_def
      truthy_def split: option.splits if_splits)+

text \<open>
  Property C34. Every reminder that is scheduled is delivered, once and not too early: the events which
  \<open>schedule_for_run\<close> publishes, written as JSON and read again by the consumer loop with the worker as its
  handler, validate to the very payloads that were scheduled, each is handed to the sender exactly once, in the order
  of the topic and not before its time, and every message is counted as a success. But the worker waits inside the loop: whatever
  reminders the topic holds, of this run and of others, each goes out, with sleeps and calls that take exactly as long
  as they should, at the latest of its own time and the times of all that stand before it. So a last call whose lead is longer
  than the offset, which is published after the runner's reminder, is sent together with it, too late, and a reminder
  for a pickup in hours delays all that were scheduled after it. This holds for a transport that reads back what was
  written and a sender that takes what it is given.
\<close>

theorem scheduled_reminders_arrive:
  assumes range: "datetime_range (wait_target d)" "\<forall>x \<in> set (due_reminders runner ch (wait_target d)). datetime_range (fst (snd x))"
    and corr: "corr \<noteq> []" and published: "\<forall>k. sch_publish s k = None"
    and transport: "\<forall>x \<in> set (sch_published (snd (schedule_for_run rid (Some d) runner ch corr s))).
      parse (dump (snd x)) = Inr (json_event fmt (snd x))"
    and codec: "json_codec P fmt"
    and forward: "forward_clock w" and accepted: "\<forall>k. ww_send w k = None"
  shows "(\<exists>ps s' evs xs w'. schedule_for_run rid (Some d) runner ch corr s = (Inr ps, s')
      \<and> map as_due ps = map due_utc (due_reminders runner ch (wait_target d))
      \<and> sch_published s' = sch_published s @ evs
      \<and> consume_loop parse (worker_handler P tol) topic (map (\<lambda>x. Message False (dump (snd x))) evs) (w, ms)
          = (Inr (), (w', ms @ map (\<lambda>_. (topic, ''success'')) ps))
      \<and> ww_sent w' = ww_sent w @ map2 sent_at xs ps \<and> list_all2 (\<lambda>x p. due_time p \<le> x) xs ps
      \<and> (exact_clock tol w \<longrightarrow> xs = send_times (ww_time w) (map due_time ps)))
    \<and> (\<forall>evs ps. list_all2 (arrives P fmt dump parse) evs ps \<longrightarrow>
        (\<exists>xs w'. consume_loop parse (worker_handler P tol) topic (map (\<lambda>x. Message False (dump (snd x))) evs) (w, ms)
            = (Inr (), (w', ms @ map (\<lambda>_. (topic, ''success'')) evs))
          \<and> ww_sent w' = ww_sent w @ map2 sent_at xs ps \<and> list_all2 (\<lambda>x p. due_time p \<le> x) xs ps
          \<and> (exact_clock tol w \<longrightarrow> xs = send_times (ww_time w) (map due_time ps))))"
proof -
  obtain ps s' evs where run: "schedule_for_run rid (Some d) runner ch corr s = (Inr ps, s')"
    and due: "map as_due ps = map due_utc (due_reminders runner ch (wait_target d))"
    and settings: "\<forall>p \<in> set ps. settings_of p = (crc_reminders_enabled ch, crc_last_call_enabled ch)"
    and evs: "sch_published s' = sch_published s @ evs"
    and dumped: "map (\<lambda>(tp, e). (tp, ev_type e, ev_correlation_id e, ev_payload e)) evs
          = map (\<lambda>p. (topic_name REMINDER_EVENTS_TOPIC, sch_event_type s, corr, dump_payload p)) ps"
    using schedule_for_run_spec [OF range corr published, of rid] by blast
  have each: "should_dispatch p \<and> (\<exists>t. rp_scheduled_for p = Aware t 0 \<and> datetime_range t)" if "p \<in> set ps" for p
  proof -
    have "as_due p \<in> set (map as_due ps)" using that by simp
    then obtain x where x: "x \<in> set (due_reminders runner ch (wait_target d))" "as_due p = due_utc x"
      unfolding due set_map by (rule imageE)
    have "settings_of p = (crc_reminders_enabled ch, crc_last_call_enabled ch)" using that settings by blast
    note facts = due_dispatched [OF x this]
    have "datetime_range (fst (snd x))" using x(1) range(2) by (rule bspec [rotated])
    with facts show ?thesis by simp
  qed
  have "length evs = length ps" using arg_cong [OF dumped, of length] by simp
  moreover have "ev_payload (snd (evs ! i)) = dump_payload (ps ! i)" if "i < length ps" for i
    using arg_cong [OF dumped, of "\<lambda>xs. xs ! i"] that calculation by (simp split: prod.splits)
  ultimately have "list_all2 (arrives P fmt dump parse) evs ps"
    using each transport evs run by (simp add: list_all2_conv_all_nth arrives_def)
  from consume_reminders [OF codec this forward accepted, of tol topic ms]
  obtain xs w' where w': "consume_loop parse (worker_handler P tol) topic (map (\<lambda>x. Message False (dump (snd x))) evs) (w, ms)
      = (Inr (), (w', ms @ map (\<lambda>_. (topic, ''success'')) evs))"
    "ww_sent w' = ww_sent w @ map2 sent_at xs ps \<and> list_all2 (\<lambda>x p. due_time p \<le> x) xs ps
      \<and> (exact_clock tol w \<longrightarrow> xs = send_times (ww_time w) (map due_time ps))" by blast
  have "map (\<lambda>_. (topic, ''success'')) evs = map (\<lambda>_. (topic, ''success'')) ps"
    using \<open>length evs = length ps\<close> by (simp add: map_replicate_const)
  with w'(1) have "consume_loop parse (worker_handler P tol) topic (map (\<lambda>x. Message False (dump (snd x))) evs) (w, ms)
      = (Inr (), (w', ms @ map (\<lambda>_. (topic, ''success'')) ps))" by (simp only:)
  with run due evs w'(2) consume_reminders [OF codec _ forward accepted, of dump parse _ _ tol topic ms]
  show ?thesis by blast
qed

section \<open>A concrete run\<close>

definition fx_fmt :: "datetime \<Rightarrow> string" where
  "fx_fmt d = int_str (wait_target d)"

lemma fx_codec: "json_codec plain_coercions fx_fmt"
  by (simp add: json_codec_def plain_coercions_def fx_fmt_def wait_target_def py_int_int_str)

definition fx_dump :: "kafka_event \<Rightarrow> bytes" where
  "fx_dump e = (case map_of (ev_payload e) ''reminder_id'' of Some (PStr s) \<Rightarrow> s | _ \<Rightarrow> [])"

definition fx_read :: "(string \<times> kafka_event) list \<Rightarrow> bytes \<Rightarrow> exn + kafka_event" where
  "fx_read evs b = (case find (\<lambda>x. fx_dump (snd x) = b) evs of Some x \<Rightarrow> Inr (json_event fx_fmt (snd x)) | None \<Rightarrow> Inl ValueError)"

lemma fx_read_dump:
  assumes "distinct (map (\<lambda>x. fx_dump (snd x)) evs)" and "x \<in> set evs"
  shows "fx_read evs (fx_dump (snd x)) = Inr (json_event fx_fmt (snd x))"
  using lookup_by_in [OF assms] by (simp add: fx_read_def lookup_by_def)

text \<open>A last call eight minutes before the pickup, a reminder five minutes before it.\<close>

definition fx_early_call :: channel_reminder_config where
  "fx_early_call = fx_channel_config\<lparr>crc_last_call_lead_minutes := Some 8\<rparr>"

definition fx_topic :: "(string \<times> kafka_event) list" where
  "fx_topic = sch_published (snd (schedule_for_run ''run1'' (Some (Naive 600000000)) (Some ''U1'') fx_early_call ''c1'' fx_sched))"

lemma fx_topic_ids: "map (\<lambda>x. fx_dump (snd x)) fx_topic = [''r0'', ''r1'']"
  by (simp add: fx_topic_def schedule_for_run_def scheduler_as_aware_def schedule_one_run minus_minutes_def
      fx_early_call_def fx_channel_config_def fx_sched_def truthy_def bindE_def op_simps after_one_def the_event_def the_payload_def
      dump_payload_def fx_dump_def datetime_range_def datetime_min_def datetime_max_def nat_str.simps digit_char_def)

theorem scheduled_reminders_arrive_witness:
  "\<exists>w'. consume_loop (fx_read fx_topic) (worker_handler plain_coercions 60000000) ''t''
      (map (\<lambda>x. Message False (fx_dump (snd x))) fx_topic) (fx_worker, []) = (Inr (), (w', [(''t'', ''success''), (''t'', ''success'')]))
    \<and> map (\<lambda>(x, ty, p). (x, ty, due_time p)) (ww_sent w')
        = [(300000000, RunnerReminder, 300000000), (300000000, LastCall, 120000000)]"
proof -
  have due: "due_reminders (Some ''U1'') fx_early_call (wait_target (Naive 600000000))
      = [(RunnerReminder, 300000000, Some ''U1''), (LastCall, 120000000, None)]"
    by (simp add: due_reminders_def fx_early_call_def fx_channel_config_def truthy_def wait_target_def)
  have range: "datetime_range (wait_target (Naive 600000000))"
    "\<forall>x \<in> set (due_reminders (Some ''U1'') fx_early_call (wait_target (Naive 600000000))). datetime_range (fst (snd x))"
    by (simp_all add: due) (simp_all add: wait_target_def datetime_range_def datetime_min_def datetime_max_def)
  have dist: "distinct (map (\<lambda>x. fx_dump (snd x)) fx_topic)" unfolding fx_topic_ids by simp
  have transport: "\<forall>x \<in> set (sch_published (snd (schedule_for_run ''run1'' (Some (Naive 600000000)) (Some ''U1'') fx_early_call ''c1'' fx_sched))).
      fx_read fx_topic (fx_dump (snd x)) = Inr (json_event fx_fmt (snd x))"
    unfolding fx_topic_def [symmetric] by (intro ballI fx_read_dump [OF dist])
  have "''c1'' \<noteq> ([]::string)" and "\<forall>k. sch_publish fx_sched k = None" and "forward_clock fx_worker"
    and "\<forall>k. ww_send fx_worker k = None" and empty: "sch_published fx_sched = []" "ww_sent fx_worker = []"
    and exact: "exact_clock 60000000 fx_worker" and start: "ww_time fx_worker = 0"
    by (simp_all add: fx_sched_def fx_worker_def forward_clock_def exact_clock_def)
  from conjunct1 [OF scheduled_reminders_arrive [OF range this(1,2) transport fx_codec this(3,4), of 60000000 "''t''" "[]"]]
  obtain ps s' evs xs w' where *: "schedule_for_run ''run1'' (Some (Naive 600000000)) (Some ''U1'') fx_early_call ''c1'' fx_sched = (Inr ps, s')"
    "map as_due ps = map due_utc (due_reminders (Some ''U1'') fx_early_call (wait_target (Naive 600000000)))"
    "sch_published s' = sch_published fx_sched @ evs"
    "consume_loop (fx_read fx_topic) (worker_handler plain_coercions 60000000) ''t'' (map (\<lambda>x. Message False (fx_dump (snd x))) evs) (fx_worker, [])
        = (Inr (), (w', [] @ map (\<lambda>_. (''t'', ''success'')) ps))"
    "ww_sent w' = ww_sent fx_worker @ map2 sent_at xs ps" "xs = send_times (ww_time fx_worker) (map due_time ps)"
    using exact by blast
  have evs: "evs = fx_topic" using *(1,3) empty by (simp add: fx_topic_def)
  from *(2) obtain p q where ps: "ps = [p, q]" "as_due p = (RunnerReminder, Aware 300000000 0, Some ''U1'')"
    "as_due q = (LastCall, Aware 120000000 0, None)"
    unfolding due by (auto simp: due_utc_def map_eq_Cons_conv)
  have "map (\<lambda>(x, ty, p). (x, ty, due_time p)) (ww_sent w')
      = [(300000000, RunnerReminder, 300000000), (300000000, LastCall, 120000000)]"
    using *(5,6) ps empty start by (simp add: as_due_def wait_target_def)
  with *(4) show ?thesis unfolding evs ps(1) by (intro exI [of _ w'] conjI) simp_all
qed

end
