(* ===== verification/ReminderKit.thy ===== *)
theory ReminderKit
  imports Reminders
begin

text \<open>
  The reminder worker as it was delivered in \<open>runs/kit/REQ-007\<close>: it does not wait, records the delay first and
  decides by one flag per type. Before it sends it evaluates \<open>ReminderType("runner")\<close> or
  \<open>ReminderType("last_call")\<close>, a call of \<open>typing.Literal\<close>, which raises a TypeError.
\<close>

definition observe_delay :: "int \<Rightarrow> wworld \<Rightarrow> wworld" where
  "observe_delay d w = w\<lparr>ww_delays := ww_delays w @ [d]\<rparr>"

definition literal_call :: "string \<Rightarrow> exn + reminder_type" where
  "literal_call name = Inl TypeError"

definition kit_dispatch :: "reminder_payload \<Rightarrow> reminder_type \<Rightarrow> (wworld, exn, unit) op" where
  "kit_dispatch p ty w =
     (case bindE (send_fn p) (\<lambda>_. modifyE (count_reminder ty ''sent'')) w of
        (Inr _, w1) \<Rightarrow> (Inr (), w1)
      | (Inl e, w1) \<Rightarrow> (Inl e, if caught e then count_reminder ty ''error'' w1 else w1))"

definition kit_process_event :: "coercions \<Rightarrow> kafka_event \<Rightarrow> (wworld, exn, unit) op" where
  "kit_process_event P ev =
     bindE (liftE (validate_payload P (ev_payload ev))) (\<lambda>p.
     bindE (\<lambda>w. (clock_minus w (rp_scheduled_for p), w)) (\<lambda>d.
     bindE (modifyE (observe_delay \<bar>d\<bar>)) (\<lambda>_.
     case rp_reminder_type p of
       RunnerReminder \<Rightarrow>
         if \<not> rp_channel_reminders_enabled p
         then modifyE (count_reminder RunnerReminder ''skipped_disabled'')
         else bindE (liftE (literal_call ''runner'')) (kit_dispatch p)
     | LastCall \<Rightarrow>
         if \<not> rp_last_call_enabled p
         then modifyE (count_reminder LastCall ''skipped_disabled'')
         else bindE (liftE (literal_call ''last_call'')) (kit_dispatch p))))"

text \<open>This version never sends a reminder; each one it should send ends in a TypeError and is counted nowhere.\<close>

lemma kit_never_sends:
  "ww_sent (snd (kit_process_event P ev w)) = ww_sent w \<and> ww_calls (snd (kit_process_event P ev w)) = ww_calls w"
  by (simp add: kit_process_event_def literal_call_def clock_minus_def observe_delay_def count_reminder_def bindE_def op_simps
      split: sum.splits datetime.splits reminder_type.splits)

lemma kit_should_send:
  assumes "validate_payload P (ev_payload ev) = Inr p" and "rp_scheduled_for p = Aware t off" and "should_dispatch p"
  shows "kit_process_event P ev w = (Inl TypeError, observe_delay \<bar>ww_time w - t\<bar> w)"
  using assms
  by (cases "rp_reminder_type p")
    (simp_all add: kit_process_event_def literal_call_def clock_minus_def should_dispatch_def bindE_def op_simps)

end
