(* ===== verification/Dates.thy ===== *)
theory Dates
  imports Kafka
begin

text \<open>
  The texts of a timestamp: \<open>datetime.isoformat()\<close> and the \<open>strftime\<close> of the Slack message, with the calendar of
  Python's \<open>datetime\<close> module. Day 1 is 0001-01-01, and 1970-01-01 is day 719163.
\<close>

section \<open>The calendar\<close>

definition days_before_month :: "int list" where
  "days_before_month = [0, 0, 31, 59, 90, 120, 151, 181, 212, 243, 273, 304, 334]"

definition is_leap :: "int \<Rightarrow> bool" where
  "is_leap y \<longleftrightarrow> y mod 4 = 0 \<and> (y mod 100 \<noteq> 0 \<or> y mod 400 = 0)"

definition before_month :: "bool \<Rightarrow> int \<Rightarrow> int" where
  "before_month leap m = days_before_month ! nat m + (if m > 2 \<and> leap then 1 else 0)"

definition ord_to_ymd :: "int \<Rightarrow> int \<times> int \<times> int" where
  "ord_to_ymd ordinal =
     (let n = ordinal - 1;
          n400 = n div 146097; n = n mod 146097;
          n100 = n div 36524; n = n mod 36524;
          n4 = n div 1461; n = n mod 1461;
          n1 = n div 365; n = n mod 365;
          year = n400 * 400 + 1 + n100 * 100 + n4 * 4 + n1
      in if n1 = 4 \<or> n100 = 4 then (year - 1, 12, 31)
         else (let leap = (n1 = 3 \<and> (n4 \<noteq> 24 \<or> n100 = 3));
                   guess = (n + 50) div 32;
                   month = (if before_month leap guess > n then guess - 1 else guess)
               in (year, month, n - before_month leap month + 1)))"

definition microseconds_per_day :: int where
  "microseconds_per_day = 86400000000"

definition epoch_ordinal :: int where
  "epoch_ordinal = 719163"

text \<open>\<open>f"{i:0kd}"\<close>.\<close>

definition padded :: "nat \<Rightarrow> int \<Rightarrow> string" where
  "padded k i = replicate (k - length (int_str i)) (CHR ''0'') @ int_str i"

section \<open>isoformat and strftime\<close>

definition iso_date :: "time \<Rightarrow> string" where
  "iso_date t = (case ord_to_ymd (t div microseconds_per_day + epoch_ordinal) of (y, m, d) \<Rightarrow>
     padded 4 y @ ''-'' @ padded 2 m @ ''-'' @ padded 2 d)"

definition iso_time :: "time \<Rightarrow> string" where
  "iso_time t =
     (let r = t mod microseconds_per_day; us = r mod 1000000; s = r div 1000000 in
      padded 2 (s div 3600) @ '':'' @ padded 2 (s div 60 mod 60) @ '':'' @ padded 2 (s mod 60)
      @ (if us = 0 then [] else ''.'' @ padded 6 us))"

definition iso_offset :: "int \<Rightarrow> string" where
  "iso_offset off =
     (let a = \<bar>off\<bar>; us = a mod 1000000; s = a div 1000000 in
      (if off < 0 then ''-'' else ''+'') @ padded 2 (s div 3600) @ '':'' @ padded 2 (s div 60 mod 60)
      @ (if s mod 60 = 0 \<and> us = 0 then [] else '':'' @ padded 2 (s mod 60) @ (if us = 0 then [] else ''.'' @ padded 6 us)))"

definition isoformat :: "datetime \<Rightarrow> string" where
  "isoformat d = (case d of
       Naive t \<Rightarrow> iso_date t @ ''T'' @ iso_time t
     | Aware t off \<Rightarrow> iso_date (t + off) @ ''T'' @ iso_time (t + off) @ iso_offset off)"

text \<open>\<open>strftime("%Y-%m-%d %H:%M UTC")\<close> of a time in UTC; the C library does not pad the year.\<close>

definition pickup_display :: "time \<Rightarrow> string" where
  "pickup_display t = (case ord_to_ymd (t div microseconds_per_day + epoch_ordinal) of (y, m, d) \<Rightarrow>
     (let s = t mod microseconds_per_day div 1000000 in
      int_str y @ ''-'' @ padded 2 m @ ''-'' @ padded 2 d @ '' '' @ padded 2 (s div 3600) @ '':'' @ padded 2 (s div 60 mod 60)
      @ '' UTC''))"

text \<open>
  \<open>SerializableMixin.to_dict\<close> of \<open>infra/db/models.py\<close>, on the columns of a row in their order: timestamps as text,
  everything else as it is.
\<close>

definition serialized :: "pyval \<Rightarrow> pyval" where
  "serialized v = (case v of PDatetime d \<Rightarrow> PStr (isoformat d) | _ \<Rightarrow> v)"

definition to_dict :: "pydict \<Rightarrow> pydict" where
  "to_dict columns = map (\<lambda>(key, v). (key, serialized v)) columns"

lemma to_dict_keys: "map fst (to_dict columns) = map fst columns"
  by (induction columns) (auto simp: to_dict_def)

lemma to_dict_no_datetime: "PDatetime d \<notin> snd ` set (to_dict columns)"
  by (auto simp: to_dict_def serialized_def split: pyval.splits)

lemma calendar_check:
  "ord_to_ymd 719163 = (1970, 1, 1)" "ord_to_ymd 730179 = (2000, 2, 29)" "ord_to_ymd 730180 = (2000, 3, 1)"
  "ord_to_ymd 738885 = (2023, 12, 31)" "ord_to_ymd 1 = (1, 1, 1)" "ord_to_ymd 3652059 = (9999, 12, 31)"
  by (simp_all add: ord_to_ymd_def before_month_def days_before_month_def Let_def)

end
