(* ===== verification/IsoDates.thy ===== *)
theory IsoDates
  imports Dates Urls
begin

text \<open>
  Reading a timestamp: \<open>datetime.fromisoformat\<close> of the Python versions the program runs on (3.11 and 3.12), with the
  calendar both ways. The reader works on the bytes of the text: a date, as \<open>YYYY-MM-DD\<close>, \<open>YYYYMMDD\<close> or in
  one of the week forms, one character of any kind, a time of day that may end early, and an offset. \<open>None\<close> is
  its ValueError. What \<open>isoformat\<close> writes is read back to the same timestamp, but for offsets of less than a second, which
  no zone has (\<open>datetime_ok\<close>).
\<close>

section \<open>Days of the calendar\<close>

definition days_before_year :: "int \<Rightarrow> int" where
  "days_before_year y = (let p = y - 1 in p * 365 + p div 4 - p div 100 + p div 400)"

definition ymd_to_ord :: "int \<Rightarrow> int \<Rightarrow> int \<Rightarrow> int" where
  "ymd_to_ord y m d = days_before_year y + before_month (is_leap y) m + d"

definition days_in_month :: "bool \<Rightarrow> int \<Rightarrow> int" where
  "days_in_month leap m =
     (if m = 2 then (if leap then 29 else 28) else if m \<in> {4, 6, 9, 11} then 30 else 31)"

definition max_ordinal :: int where
  "max_ordinal = 3652059"

definition check_date :: "int \<Rightarrow> int \<Rightarrow> int \<Rightarrow> int option" where
  "check_date y m d =
     (if 1 \<le> y \<and> y \<le> 9999 \<and> 1 \<le> m \<and> m \<le> 12 \<and> 1 \<le> d \<and> d \<le> days_in_month (is_leap y) m
      then Some (ymd_to_ord y m d) else None)"

text \<open>The day of an ISO week: week 1 is the one with the first Thursday of the year.\<close>

definition week_to_ord :: "int \<Rightarrow> int \<Rightarrow> int \<Rightarrow> int option" where
  "week_to_ord y w d =
     (let first = ymd_to_ord y 1 1; weekday = (first + 6) mod 7;
          monday = first - weekday + (if weekday > 3 then 7 else 0);
          n = monday + (w - 1) * 7 + (d - 1)
      in if \<not> (1 \<le> y \<and> y \<le> 9999) then None
         else if \<not> (0 < w \<and> w < 53) \<and> \<not> (w = 53 \<and> (first mod 7 = 4 \<or> first mod 7 = 3 \<and> is_leap y)) then None
         else if \<not> (0 < d \<and> d < 8) then None
         else if 1 \<le> n \<and> n \<le> max_ordinal then Some n else None)"

section \<open>The reader\<close>

definition is_digit :: "char \<Rightarrow> bool" where
  "is_digit c \<longleftrightarrow> c \<in> set ''0123456789''"

fun parse_digits :: "nat \<Rightarrow> int \<Rightarrow> string \<Rightarrow> (int \<times> string) option" where
  "parse_digits 0 acc s = Some (acc, s)"
| "parse_digits (Suc k) acc [] = None"
| "parse_digits (Suc k) acc (c # s) =
     (if is_digit c then parse_digits k (10 * acc + (of_char c - 48)) s else None)"

text \<open>The text is a C string: a zero byte follows its last character.\<close>

definition c_first :: "char \<Rightarrow> string \<Rightarrow> char" where
  "c_first e s = (case s of [] \<Rightarrow> e | c # _ \<Rightarrow> c)"

abbreviation nul :: char where
  "nul \<equiv> CHR 0x00"

text \<open>Where the date ends. A week date that is written without dashes is told from its time by counting digits.\<close>

definition date_end :: "string \<Rightarrow> nat option" where
  "date_end s =
     (if length s = 7 then Some 7
      else if s ! 4 = CHR ''-'' then
        (if s ! 5 = CHR ''W'' then
           (if length s > 8 \<and> s ! 8 = CHR ''-'' then
              (if length s = 9 then None
               else if length s > 10 \<and> is_digit (s ! 10) then Some 8 else Some 10)
            else Some 8)
         else Some 10)
      else if s ! 4 = CHR ''W'' then
        (let i = 7 + length (takeWhile is_digit (drop 7 s))
         in if i < 9 then Some i else if even i then Some 7 else Some 8)
      else Some 8)"

definition drop_dash :: "bool \<Rightarrow> string \<Rightarrow> string option" where
  "drop_dash dash s = (if \<not> dash then Some s else if c_first nul s = CHR ''-'' then Some (tl s) else None)"

text \<open>The ordinal of the date in the first \<open>n\<close> characters of \<open>s\<close>.\<close>

definition read_date :: "nat \<Rightarrow> string \<Rightarrow> int option" where
  "read_date n s =
     (case parse_digits 4 0 s of
        None \<Rightarrow> None
      | Some (y, t) \<Rightarrow>
          (let dash = (c_first nul t = CHR ''-''); t = (if dash then tl t else t) in
           if c_first nul t = CHR ''W'' then
             (case parse_digits 2 0 (tl t) of
                None \<Rightarrow> None
              | Some (w, t) \<Rightarrow>
                  if length s - length t < n
                  then (case drop_dash dash t of
                      None \<Rightarrow> None
                    | Some t \<Rightarrow> (case parse_digits 1 0 t of None \<Rightarrow> None | Some (d, _) \<Rightarrow> week_to_ord y w d))
                  else week_to_ord y w 1)
           else (case parse_digits 2 0 t of
               None \<Rightarrow> None
             | Some (m, t) \<Rightarrow> (case drop_dash dash t of
                   None \<Rightarrow> None
                 | Some t \<Rightarrow> (case parse_digits 2 0 t of
                     None \<Rightarrow> None
                   | Some (d, t) \<Rightarrow> if length s - length t = n then check_date y m d else None)))))"

text \<open>
  \<open>HH[:?MM[:?SS[{.,}fff]]]\<close> up to the character \<open>e\<close>, as hours, minutes, seconds and microseconds; the flag says that
  something is left over. Digits of the fraction after the sixth are skipped.
\<close>

definition clock_of :: "int list \<Rightarrow> int \<Rightarrow> int \<times> int \<times> int \<times> int" where
  "clock_of vs us = (case vs of
       [h] \<Rightarrow> (h, 0, 0, us) | [h, m] \<Rightarrow> (h, m, 0, us) | h # m # s # _ \<Rightarrow> (h, m, s, us) | [] \<Rightarrow> (0, 0, 0, us))"

definition read_fraction :: "char \<Rightarrow> int list \<Rightarrow> string \<Rightarrow> (bool \<times> int \<times> int \<times> int \<times> int) option" where
  "read_fraction e vs s =
     (let k = min 6 (length s) in
      case parse_digits k 0 s of
        None \<Rightarrow> None
      | Some (us, t) \<Rightarrow> Some (c_first e (dropWhile is_digit t) \<noteq> nul, clock_of vs (us * 10 ^ (6 - k))))"

fun read_clock :: "char \<Rightarrow> nat \<Rightarrow> bool \<Rightarrow> int list \<Rightarrow> string \<Rightarrow> (bool \<times> int \<times> int \<times> int \<times> int) option" where
  "read_clock e 0 colon vs s = read_fraction e vs s"
| "read_clock e (Suc k) colon vs s =
     (case parse_digits 2 0 s of
        None \<Rightarrow> None
      | Some (v, t) \<Rightarrow>
          (let c = c_first e t; colon = (if vs = [] then c = CHR '':'' else colon); vs = vs @ [v] in
           if length t \<le> 1 then Some (c \<noteq> nul, clock_of vs 0)
           else if colon \<and> c = CHR '':'' then read_clock e k colon vs (tl t)
           else if c = CHR ''.'' \<or> c = CHR '','' then read_fraction e vs (tl t)
           else if \<not> colon then read_clock e k colon vs t
           else None))"

text \<open>A time of day with its offset in microseconds, if there is one; a whole-second offset of zero is UTC.\<close>

definition offset_sign :: "char \<Rightarrow> bool" where
  "offset_sign c \<longleftrightarrow> c \<in> {CHR ''+'', CHR ''-'', CHR ''Z''}"

definition read_offset :: "char \<Rightarrow> string \<Rightarrow> int option" where
  "read_offset sg s =
     (if sg = CHR ''Z'' then (if c_first nul s = nul then Some 0 else None)
      else (case read_clock nul 3 True [] s of
          None \<Rightarrow> None
        | Some (left_over, h, m, sec, us) \<Rightarrow>
            if left_over then None
            else (let secs = h * 3600 + m * 60 + sec; factor = (if sg = CHR ''-'' then -1 else 1) in
                  Some (if secs = 0 then 0 else factor * (secs * 1000000 + us)))))"

definition read_time :: "string \<Rightarrow> ((int \<times> int \<times> int \<times> int) \<times> int option) option" where
  "read_time s =
     (let t = takeWhile (\<lambda>c. \<not> offset_sign c) s; z = dropWhile (\<lambda>c. \<not> offset_sign c) s in
      case read_clock (c_first nul z) 3 True [] t of
        None \<Rightarrow> None
      | Some (left_over, clock) \<Rightarrow>
          if z = [] then (if left_over then None else Some (clock, None))
          else (case read_offset (hd z) (tl z) of None \<Rightarrow> None | Some off \<Rightarrow> Some (clock, Some off)))"

definition make_datetime :: "int \<Rightarrow> int \<times> int \<times> int \<times> int \<Rightarrow> int option \<Rightarrow> datetime option" where
  "make_datetime n clock off =
     (case clock of (h, m, s, us) \<Rightarrow>
        (let t = (n - epoch_ordinal) * microseconds_per_day + ((h * 60 + m) * 60 + s) * 1000000 + us in
         if \<not> (h \<le> 23 \<and> m \<le> 59 \<and> s \<le> 59) then None
         else (case off of
             None \<Rightarrow> Some (Naive t)
           | Some z \<Rightarrow> if \<bar>z\<bar> < microseconds_per_day then Some (Aware (t - z) z) else None)))"

text \<open>The character between date and time may be any; one above 127 takes two bytes.\<close>

definition fromiso_bytes :: "string \<Rightarrow> datetime option" where
  "fromiso_bytes s =
     (if length s < 7 then None
      else (case date_end s of
          None \<Rightarrow> None
        | Some p \<Rightarrow> (case read_date p s of
            None \<Rightarrow> None
          | Some n \<Rightarrow>
              if length s \<le> p then make_datetime n (0, 0, 0, 0) None
              else (case read_time (drop (if is_ascii (s ! p) then Suc p else p + 2) s) of
                  None \<Rightarrow> None
                | Some (clock, off) \<Rightarrow> make_datetime n clock off))))"

definition fromisoformat :: "string \<Rightarrow> datetime option" where
  "fromisoformat s = fromiso_bytes (utf8_encode s)"

section \<open>The calendar, both ways\<close>

text \<open>
  The year, month and day of an ordinal: the quotients by the lengths of 400, 100, 4 and 1 years say the
  year, and the rest of the division says month and day.
\<close>

lemma year_start:
  fixes a b c e :: int
  assumes "0 \<le> a" "0 \<le> b" "b \<le> 3" "0 \<le> c" "c \<le> 24" "0 \<le> e" "e \<le> 3"
  defines "y \<equiv> a * 400 + 1 + b * 100 + c * 4 + e"
  shows "days_before_year y = a * 146097 + b * 36524 + c * 1461 + e * 365"
    and "is_leap y \<longleftrightarrow> e = 3 \<and> (c \<noteq> 24 \<or> b = 3)"
proof -
  have "(y - 1) div 4 = 100 * a + 25 * b + c" "(y - 1) div 100 = 4 * a + b" "(y - 1) div 400 = a"
    using assms
    by (auto intro: int_div_pos_eq [where r = e] int_div_pos_eq [where r = "4 * c + e"] int_div_pos_eq [where r = "100 * b + 4 * c + e"])
  then show "days_before_year y = a * 146097 + b * 36524 + c * 1461 + e * 365"
    by (simp add: days_before_year_def y_def)
  have whole: "(k * n + x) mod n = 0 \<longleftrightarrow> x = n" if "1 \<le> x" "x \<le> n" for k n x :: int
    using that by (cases "x = n") auto
  have y: "y = (100 * a + 25 * b + c) * 4 + (e + 1)" "y = (4 * a + b) * 100 + (4 * c + e + 1)"
    "y = a * 400 + (100 * b + 4 * c + e + 1)"
    by (simp_all add: y_def)
  have m4: "y mod 4 = 0 \<longleftrightarrow> e + 1 = 4"
    unfolding y(1) by (rule whole) (use assms in linarith)+
  have m100: "y mod 100 = 0 \<longleftrightarrow> 4 * c + e + 1 = 100"
    unfolding y(2) by (rule whole) (use assms in linarith)+
  have m400: "y mod 400 = 0 \<longleftrightarrow> 100 * b + 4 * c + e + 1 = 400"
    unfolding y(3) by (rule whole) (use assms in linarith)+
  have "e + 1 = 4 \<longleftrightarrow> e = 3" "4 * c + e + 1 = 100 \<longleftrightarrow> e = 3 \<and> c = 24"
    "100 * b + 4 * c + e + 1 = 400 \<longleftrightarrow> e = 3 \<and> c = 24 \<and> b = 3"
    using assms(2-7) by presburger+
  then show "is_leap y \<longleftrightarrow> e = 3 \<and> (c \<noteq> 24 \<or> b = 3)"
    unfolding is_leap_def m4 m100 m400 by blast
qed

lemma month_of_day:
  fixes r :: int and leap :: bool
  assumes "0 \<le> r" and "r \<le> 364"
  defines "guess \<equiv> (r + 50) div 32"
  defines "month \<equiv> (if before_month leap guess > r then guess - 1 else guess)"
  shows "1 \<le> month \<and> month \<le> 12 \<and> before_month leap month \<le> r \<and> r < before_month leap month + days_in_month leap month"
proof -
  have "1 \<le> guess" "guess \<le> 12" and r: "32 * guess \<le> r + 50" "r + 50 < 32 * guess + 32"
    using assms(1,2) unfolding guess_def by presburger+
  from this(1,2) have "guess \<in> {1, 2, 3, 4, 5, 6, 7, 8, 9, 10, 11, 12}"
    unfolding insert_iff empty_iff by presburger
  then show ?thesis
    using r assms(1,2) unfolding month_def
    by (elim insertE; cases leap) (simp_all add: before_month_def days_before_month_def days_in_month_def)
qed

lemma ord_to_ymd_spec:
  assumes "1 \<le> n" and "ord_to_ymd n = (y, m, d)"
  shows "ymd_to_ord y m d = n" and "1 \<le> m" and "m \<le> 12" and "1 \<le> d" and "d \<le> days_in_month (is_leap y) m"
proof -
  define N where "N = n - 1"
  define a where "a = N div 146097"
  define N1 where "N1 = N mod 146097"
  define b where "b = N1 div 36524"
  define N2 where "N2 = N1 mod 36524"
  define c where "c = N2 div 1461"
  define N3 where "N3 = N2 mod 1461"
  define e where "e = N3 div 365"
  define r where "r = N3 mod 365"
  define z where "z = a * 400 + 1 + b * 100 + c * 4 + e"
  have N: "N = a * 146097 + N1" "N1 = b * 36524 + N2" "N2 = c * 1461 + N3" "N3 = e * 365 + r"
    unfolding a_def N1_def b_def N2_def c_def N3_def e_def r_def by simp_all
  have bounds: "0 \<le> a" "0 \<le> N1" "N1 < 146097" "0 \<le> N2" "N2 < 36524" "0 \<le> N3" "N3 < 1461" "0 \<le> r" "r \<le> 364"
    using assms(1) unfolding N_def [symmetric] a_def N1_def N2_def N3_def r_def
    by (simp_all add: N_def pos_imp_zdiv_nonneg_iff)
  then have q: "0 \<le> b" "b \<le> 4" "0 \<le> c" "c \<le> 24" "0 \<le> e" "e \<le> 4" using N by linarith+
  have conv: "(y, m, d) = (if e = 4 \<or> b = 4 then (z - 1, 12, 31)
      else let leap = (e = 3 \<and> (c \<noteq> 24 \<or> b = 3)); guess = (r + 50) div 32;
               month = (if before_month leap guess > r then guess - 1 else guess)
           in (z, month, r - before_month leap month + 1))"
    using assms(2) unfolding ord_to_ymd_def Let_def z_def e_def r_def N3_def c_def N2_def b_def N1_def a_def N_def
    by (simp only:)
  have "ymd_to_ord y m d = n \<and> 1 \<le> m \<and> m \<le> 12 \<and> 1 \<le> d \<and> d \<le> days_in_month (is_leap y) m"
  proof (cases "e = 4 \<or> b = 4")
    case True
    then have ymd: "y = z - 1" "m = 12" "d = 31" using conv by simp_all
    have december: "before_month True 12 = 335" by (simp add: before_month_def days_before_month_def)
    show ?thesis
    proof (cases "b = 4")
      case True
      have N2: "N2 = 0" using N(2) bounds(3,4) True by linarith
      have c: "c = 0" using N(3) N2 bounds(6) q(3) by linarith
      have e: "e = 0" using N(3,4) N2 c bounds(8) q(5) by linarith
      note zero = N2 c e
      have r: "r = 0" using N(3,4) zero by linarith
      have "y = a * 400 + 1 + 3 * 100 + 24 * 4 + 3" using zero True ymd by (simp add: z_def)
      then have "days_before_year y = a * 146097 + 3 * 36524 + 24 * 1461 + 3 * 365" "is_leap y"
        using year_start [of a 3 24 3] bounds by simp_all
      then show ?thesis
        using N zero r True ymd december by (simp add: ymd_to_ord_def days_in_month_def N_def)
    next
      case False
      with True q(2) have e: "e = 4" "b \<le> 3" by simp_all
      have r: "r = 0" "N3 = 1460" using N(4) e(1) bounds(7,8) by linarith+
      have c: "c \<le> 23" using N(3) r bounds(5) by linarith
      have "y = a * 400 + 1 + b * 100 + c * 4 + 3" using e(1) ymd by (simp add: z_def)
      then have "days_before_year y = a * 146097 + b * 36524 + c * 1461 + 3 * 365" "is_leap y"
        using year_start [of a b c 3] bounds q e c by simp_all
      then show ?thesis
        using N e r ymd december by (simp add: ymd_to_ord_def days_in_month_def N_def)
    qed
  next
    case False
    then have lt: "e \<le> 3" "b \<le> 3" using q by simp_all
    have year: "days_before_year z = a * 146097 + b * 36524 + c * 1461 + e * 365" "is_leap z \<longleftrightarrow> e = 3 \<and> (c \<noteq> 24 \<or> b = 3)"
      using year_start [of a b c e] bounds q lt by (simp_all add: z_def)
    have "y = z" "m = (if before_month (is_leap z) ((r + 50) div 32) > r then (r + 50) div 32 - 1 else (r + 50) div 32)"
      "d = r - before_month (is_leap z) m + 1"
      using conv False year(2) by (simp_all add: Let_def)
    then show ?thesis
      using month_of_day [OF bounds(8,9), of "is_leap z"] N year(1) by (simp add: ymd_to_ord_def N_def)
  qed
  then show "ymd_to_ord y m d = n" "1 \<le> m" "m \<le> 12" "1 \<le> d" "d \<le> days_in_month (is_leap y) m"
    by blast+
qed

lemma ord_to_ymd_year:
  assumes "1 \<le> n" and "n \<le> max_ordinal" and "ord_to_ymd n = (y, m, d)"
  shows "1 \<le> y" and "y \<le> 9999"
proof -
  note spec = ord_to_ymd_spec [OF assms(1,3)]
  have month: "0 \<le> before_month leap m \<and> before_month leap m + days_in_month leap m \<le> 366" for leap
  proof -
    from spec(2,3) have "m \<in> {1, 2, 3, 4, 5, 6, 7, 8, 9, 10, 11, 12}" unfolding insert_iff empty_iff by presburger
    then show ?thesis by (elim insertE) (simp_all add: before_month_def days_before_month_def days_in_month_def)
  qed
  have low: "days_before_year y + 1 \<le> n" and high: "n \<le> days_before_year y + 366"
    using spec(1,4,5) month [of "is_leap y"] by (auto simp: ymd_to_ord_def)
  show "1 \<le> y"
  proof (rule ccontr)
    assume "\<not> 1 \<le> y"
    then have "y - 1 \<le> -1" by simp
    then have "(y - 1) div 4 \<le> (y - 1) div 100" "(y - 1) div 400 \<le> -1" by linarith+
    moreover have "p * 365 + a - b + c \<le> -366" if "p \<le> -1" "a \<le> b" "c \<le> -1" for p a b c :: int
      using that by linarith
    ultimately have "days_before_year y \<le> -366"
      unfolding days_before_year_def Let_def using \<open>y - 1 \<le> -1\<close> by blast
    with high assms(1) show False by linarith
  qed
  show "y \<le> 9999"
  proof (rule ccontr)
    assume "\<not> y \<le> 9999"
    then have "9999 \<le> y - 1" by simp
    have "3652059 \<le> days_before_year y"
    proof (cases "y - 1 = 9999")
      case True
      then show ?thesis by (simp add: days_before_year_def)
    next
      case False
      with \<open>9999 \<le> y - 1\<close> have "10000 \<le> y - 1" by simp
      then have "25 * ((y - 1) div 100) \<le> (y - 1) div 4" "100 \<le> (y - 1) div 100" "25 \<le> (y - 1) div 400" by linarith+
      moreover have "3652059 \<le> p * 365 + a - b + c" if "10000 \<le> p" "25 * b \<le> a" "100 \<le> b" "25 \<le> c" for p a b c :: int
        using that by linarith
      ultimately show ?thesis
        unfolding days_before_year_def Let_def using \<open>10000 \<le> y - 1\<close> by blast
    qed
    with low assms(2) show False by (simp add: max_ordinal_def)
  qed
qed

section \<open>Reading digits\<close>

fun decimal :: "nat \<Rightarrow> nat \<Rightarrow> string" where
  "decimal 0 n = []"
| "decimal (Suc k) n = decimal k (n div 10) @ [digit_char (n mod 10)]"

lemma decimal_zero: "decimal k 0 = replicate k (CHR ''0'')"
  by (induction k) (simp_all add: digit_char_def replicate_append_same)

lemma length_decimal [simp]: "length (decimal k n) = k"
  by (induction k arbitrary: n) simp_all

lemma padded_decimal: "0 < k \<Longrightarrow> n < 10 ^ k \<Longrightarrow> padded k (int n) = decimal k n"
proof (induction k arbitrary: n)
  case (Suc k)
  show ?case
  proof (cases "n < 10")
    case True
    then show ?thesis
      by (simp add: padded_def int_str_def nat_str.simps [of n] decimal_zero)
  next
    case False
    with Suc.prems have "0 < k" "n div 10 < 10 ^ k" by (cases k; simp add: div_less_iff_less_mult)+
    then have "padded k (int (n div 10)) = decimal k (n div 10)" by (rule Suc.IH)
    then show ?thesis
      using False by (simp add: padded_def int_str_def nat_str.simps [of n])
  qed
qed simp

lemma digit_char_range: "list_all (\<lambda>d. is_digit (digit_char d) \<and> (of_char (digit_char d) :: int) = 48 + int d
    \<and> is_ascii (digit_char d) \<and> \<not> offset_sign (digit_char d) \<and> digit_char d \<noteq> CHR ''W'' \<and> digit_char d \<noteq> nul) [0..<10]"
  by (simp add: upt_rec digit_char_def is_digit_def is_ascii_def offset_sign_def)

lemma digit_chars:
  assumes "d < 10"
  shows "is_digit (digit_char d)" and "(of_char (digit_char d) :: int) = 48 + int d" and "is_ascii (digit_char d)"
    and "\<not> offset_sign (digit_char d)" and "digit_char d \<noteq> CHR ''W''"
  using digit_char_range assms by (auto simp: list_all_iff)

lemma parse_digits_more:
  "parse_digits k acc s = Some (v, c # t) \<Longrightarrow> is_digit c \<Longrightarrow> parse_digits (Suc k) acc s = Some (10 * v + (of_char c - 48), t)"
proof (induction k acc s rule: parse_digits.induct)
  case (3 k acc c' s)
  then show ?case by (auto split: if_splits)
qed simp_all

lemma parse_digits_decimal:
  "n < 10 ^ k \<Longrightarrow> parse_digits k acc (decimal k n @ rest) = Some (10 ^ k * acc + int n, rest)"
proof (induction k arbitrary: n rest)
  case (Suc k)
  then have "n div 10 < 10 ^ k" by (simp add: div_less_iff_less_mult)
  from Suc.IH [OF this, of "digit_char (n mod 10) # rest"]
  have "parse_digits k acc (decimal (Suc k) n @ rest) = Some (10 ^ k * acc + int (n div 10), digit_char (n mod 10) # rest)"
    by simp
  from parse_digits_more [OF this] digit_chars [of "n mod 10"]
  have "parse_digits (Suc k) acc (decimal (Suc k) n @ rest)
      = Some (10 * (10 ^ k * acc + int (n div 10)) + int (n mod 10), rest)"
    by (simp del: parse_digits.simps)
  moreover have "10 * int (n div 10) + int (n mod 10) = int n" by presburger
  ultimately show ?case by (simp add: algebra_simps del: parse_digits.simps)
qed simp

lemma parse_digits_padded:
  assumes "0 < k" and "0 \<le> v" and "v < 10 ^ k"
  shows "parse_digits k 0 (padded k v @ rest) = Some (v, rest)"
proof -
  from assms(2,3) have small: "nat v < 10 ^ k" by (simp add: nat_less_iff)
  then have "padded k v = decimal k (nat v)" using padded_decimal [OF assms(1) small] assms(2) by simp
  with small assms(2) show ?thesis by (simp add: parse_digits_decimal)
qed

section \<open>isoformat, read back\<close>

lemma read_two: "0 \<le> v \<Longrightarrow> v < 100 \<Longrightarrow> parse_digits 2 0 (padded 2 v @ rest) = Some (v, rest)"
  by (rule parse_digits_padded) simp_all

lemma length_padded: "0 < k \<Longrightarrow> 0 \<le> v \<Longrightarrow> v < 10 ^ k \<Longrightarrow> length (padded k v) = k"
  using padded_decimal [of k "nat v"] by (simp add: nat_less_iff)

lemma padded_nonempty [simp]: "padded k v \<noteq> []"
  by (simp add: padded_def int_str_def)

lemma clock_next:
  assumes "0 \<le> v" "v < 100" "t \<noteq> []" "vs = [] \<or> colon"
  shows "read_clock e (Suc k) colon vs (padded 2 v @ CHR '':'' # t) = read_clock e k True (vs @ [v]) t"
  using assms(3,4) by (auto simp: read_two [OF assms(1,2)] c_first_def Let_def)

lemma clock_stop:
  assumes "0 \<le> v" "v < 100"
  shows "read_clock e (Suc k) colon vs (padded 2 v) = Some (e \<noteq> nul, clock_of (vs @ [v]) 0)"
  using read_two [OF assms, of "[]"] by (simp add: c_first_def)

lemma clock_fraction:
  assumes "0 \<le> v" "v < 100" "vs \<noteq> []" "0 \<le> us" "us < 1000000"
  shows "read_clock e (Suc k) True vs (padded 2 v @ CHR ''.'' # padded 6 us) = Some (e \<noteq> nul, clock_of (vs @ [v]) us)"
proof -
  have "parse_digits 6 0 (padded 6 us) = Some (us, [])"
    using parse_digits_padded [of 6 us "[]"] assms(4,5) by simp
  then show ?thesis
    using assms(3) length_padded [of 6 us] assms(4,5)
    by (simp add: read_two [OF assms(1,2)] c_first_def read_fraction_def)
qed

text \<open>The clock part of a text, and the offset part, with the seconds and the fraction when they are written.\<close>

definition clock_text :: "int \<Rightarrow> int \<Rightarrow> string \<Rightarrow> string" where
  "clock_text h m rest = padded 2 h @ CHR '':'' # padded 2 m @ rest"

lemma read_clock_text:
  assumes "0 \<le> h" "h < 100" "0 \<le> m" "m < 100" "0 \<le> s" "s < 100" "0 \<le> us" "us < 1000000"
  shows "read_clock e 3 True [] (clock_text h m []) = Some (e \<noteq> nul, (h, m, 0, 0))"
    and "read_clock e 3 True [] (clock_text h m (CHR '':'' # padded 2 s)) = Some (e \<noteq> nul, (h, m, s, 0))"
    and "read_clock e 3 True [] (clock_text h m (CHR '':'' # padded 2 s @ CHR ''.'' # padded 6 us)) = Some (e \<noteq> nul, (h, m, s, us))"
  unfolding clock_text_def numeral_3_eq_3 append_Nil2
  using assms by (simp_all add: clock_next clock_stop clock_fraction clock_of_def del: read_clock.simps)

lemma read_iso_time:
  defines "day t \<equiv> t mod microseconds_per_day"
  shows "read_clock e 3 True [] (iso_time t)
    = Some (e \<noteq> nul, (day t div 3600000000, day t div 60000000 mod 60, day t div 1000000 mod 60, day t mod 1000000))"
proof -
  have bounds: "0 \<le> day t" "day t < 86400000000" by (simp_all add: day_def microseconds_per_day_def)
  have "day t div 1000000 div 3600 = day t div 3600000000" "day t div 1000000 div 60 = day t div 60000000"
    by (simp_all add: zdiv_zmult2_eq [symmetric])
  then have written: "iso_time t = clock_text (day t div 3600000000) (day t div 60000000 mod 60)
      (CHR '':'' # padded 2 (day t div 1000000 mod 60) @ (if day t mod 1000000 = 0 then [] else CHR ''.'' # padded 6 (day t mod 1000000)))"
    unfolding iso_time_def clock_text_def Let_def day_def [symmetric] by simp
  have fits: "0 \<le> day t div 3600000000" "day t div 3600000000 < 100" "0 \<le> day t div 60000000 mod 60" "day t div 60000000 mod 60 < 100"
    "0 \<le> day t div 1000000 mod 60" "day t div 1000000 mod 60 < 100" "0 \<le> day t mod 1000000" "day t mod 1000000 < 1000000"
    using bounds by (simp_all add: pos_imp_zdiv_nonneg_iff)
  show ?thesis
    unfolding written using read_clock_text(2,3) [OF fits, of e]
    by (cases "day t mod 1000000 = 0") (simp_all del: read_clock.simps)
qed

text \<open>Offsets that are read back: none, or at least one second, and less than a day.\<close>

definition offset_ok :: "int \<Rightarrow> bool" where
  "offset_ok off \<longleftrightarrow> \<bar>off\<bar> < microseconds_per_day \<and> (off = 0 \<or> 1000000 \<le> \<bar>off\<bar>)"

lemma seconds_split: "x div 3600 * 3600 + x div 60 mod 60 * 60 + x mod 60 = (x :: int)"
proof -
  have "x div 3600 = x div 60 div 60" by (simp add: zdiv_zmult2_eq [symmetric])
  moreover define q where "q = x div 60"
  ultimately have "x div 3600 * 60 + q mod 60 = q" "q * 60 + x mod 60 = x" by simp_all
  then show ?thesis unfolding q_def [symmetric] by (simp add: algebra_simps)
qed

lemma read_iso_offset:
  assumes "offset_ok off"
  shows "\<exists>sg z. iso_offset off = sg # z \<and> (sg = CHR ''+'' \<or> sg = CHR ''-'') \<and> read_offset sg z = Some off"
proof -
  define sg where "sg = (if off < 0 then CHR ''-'' else CHR ''+'')"
  define h m s us where "h = \<bar>off\<bar> div 1000000 div 3600" and "m = \<bar>off\<bar> div 1000000 div 60 mod 60"
    and "s = \<bar>off\<bar> div 1000000 mod 60" and "us = \<bar>off\<bar> mod 1000000"
  define z where "z = clock_text h m (if s = 0 \<and> us = 0 then [] else CHR '':'' # padded 2 s @ (if us = 0 then [] else CHR ''.'' # padded 6 us))"
  have written: "iso_offset off = sg # z"
    unfolding iso_offset_def z_def clock_text_def sg_def h_def m_def s_def us_def Let_def by simp
  have "\<bar>off\<bar> div 1000000 < 86400"
    using assms unfolding offset_ok_def microseconds_per_day_def by linarith
  then have "\<bar>off\<bar> div 1000000 div 3600 < 24" by linarith
  then have fits: "0 \<le> h" "h < 100" "0 \<le> m" "m < 100" "0 \<le> s" "s < 100" "0 \<le> us" "us < 1000000"
    unfolding h_def m_def s_def us_def by (simp_all add: pos_imp_zdiv_nonneg_iff)
  have clock: "read_clock nul 3 True [] z = Some (False, (h, m, s, us))"
    using read_clock_text [OF fits, of nul] unfolding z_def
    by (cases "us = 0"; cases "s = 0") (simp_all del: read_clock.simps)
  have secs: "h * 3600 + m * 60 + s = \<bar>off\<bar> div 1000000" unfolding h_def m_def s_def by (rule seconds_split)
  have "(\<bar>off\<bar> div 1000000) * 1000000 + us = \<bar>off\<bar>" unfolding us_def by simp
  moreover have "\<bar>off\<bar> div 1000000 = 0 \<longleftrightarrow> off = 0"
    using assms unfolding offset_ok_def by (auto simp: zdiv_eq_0_iff)
  ultimately have "read_offset sg z = Some off"
    unfolding read_offset_def clock by (auto simp: secs sg_def Let_def)
  with written show ?thesis unfolding sg_def by auto
qed

lemma ascii_encode: "list_all is_ascii s \<Longrightarrow> utf8_encode s = s"
  by (induction s) (auto simp: utf8_encode_def utf8_char_def is_ascii_def)

lemma padded_chars:
  assumes "0 \<le> v" "c \<in> set (padded k v)"
  shows "\<exists>d < 10. c = digit_char d"
  using assms nat_str_digits [of c "nat v"]
  by (auto simp: padded_def int_str_def digit_char_def intro: exI [of _ 0])

text \<open>The characters of a written timestamp.\<close>

definition iso_char :: "char \<Rightarrow> bool" where
  "iso_char c \<longleftrightarrow> c \<in> set ''-T:.+'' \<or> (\<exists>d < 10. c = digit_char d)"

lemma iso_char_padded: "0 \<le> v \<Longrightarrow> list_all iso_char (padded k v)"
  using padded_chars by (fastforce simp: iso_char_def list_all_iff)

lemma iso_char_literal [simp]:
  "iso_char (CHR ''-'')" "iso_char (CHR ''T'')" "iso_char (CHR '':'')" "iso_char (CHR ''.'')" "iso_char (CHR ''+'')"
  by (simp_all add: iso_char_def)

lemma iso_char_ascii: "iso_char c \<Longrightarrow> is_ascii c"
  by (auto simp: iso_char_def digit_chars) (simp_all add: is_ascii_def)

lemma iso_time_chars: "list_all iso_char (iso_time t)"
  by (simp add: iso_time_def Let_def iso_char_padded pos_imp_zdiv_nonneg_iff microseconds_per_day_def)

lemma iso_offset_chars: "list_all iso_char (iso_offset off)"
  by (simp add: iso_offset_def Let_def iso_char_padded pos_imp_zdiv_nonneg_iff)

lemma iso_time_no_sign: "c \<in> set (iso_time t) \<Longrightarrow> \<not> offset_sign c"
proof -
  assume c: "c \<in> set (iso_time t)"
  have "0 \<le> t mod microseconds_per_day" by (simp add: microseconds_per_day_def)
  then have "c \<in> {CHR '':'', CHR ''.''} \<or> (\<exists>v k. 0 \<le> v \<and> c \<in> set (padded k v))"
    using c unfolding iso_time_def Let_def
    by (auto split: if_splits simp: pos_imp_zdiv_nonneg_iff intro: exI [where x = "t mod microseconds_per_day mod 1000000"])
  then show ?thesis
    using padded_chars digit_chars(4) by (fastforce simp: offset_sign_def)
qed

definition date_ok :: "time \<Rightarrow> bool" where
  "date_ok t \<longleftrightarrow> 1 \<le> t div microseconds_per_day + epoch_ordinal \<and> t div microseconds_per_day + epoch_ordinal \<le> max_ordinal"

definition datetime_ok :: "datetime \<Rightarrow> bool" where
  "datetime_ok d \<longleftrightarrow> (case d of Naive t \<Rightarrow> date_ok t | Aware t off \<Rightarrow> date_ok (t + off) \<and> offset_ok off)"

lemma days_in_month_le: "days_in_month leap m \<le> 31"
  by (simp add: days_in_month_def)

lemma read_iso_date:
  assumes "date_ok t"
  shows "date_end (iso_date t @ CHR ''T'' # rest) = Some 10"
    and "read_date 10 (iso_date t @ CHR ''T'' # rest) = Some (t div microseconds_per_day + epoch_ordinal)"
    and "length (iso_date t) = 10" and "list_all iso_char (iso_date t)"
proof -
  define n where "n = t div microseconds_per_day + epoch_ordinal"
  obtain y m d where ymd: "ord_to_ymd n = (y, m, d)" by (cases "ord_to_ymd n")
  have n: "1 \<le> n" "n \<le> max_ordinal" using assms by (simp_all add: date_ok_def n_def)
  note spec = ord_to_ymd_spec [OF n(1) ymd] and year = ord_to_ymd_year [OF n ymd]
  have written: "iso_date t = padded 4 y @ CHR ''-'' # padded 2 m @ CHR ''-'' # padded 2 d"
    by (simp add: iso_date_def n_def [symmetric] ymd)
  have d: "d < 100" using spec(5) days_in_month_le [of "is_leap y" m] by linarith
  have len: "length (padded 4 y) = 4" "length (padded 2 m) = 2" "length (padded 2 d) = 2"
    using length_padded [of 4 y] length_padded [of 2 m] length_padded [of 2 d] spec year d by simp_all
  then show "length (iso_date t) = 10" by (simp add: written)
  have digits: "is_ascii c \<and> c \<noteq> CHR ''W''" if "0 \<le> v" "c \<in> set (padded k v)" for k v c
    using padded_chars [OF that] by (auto simp: digit_chars)
  show "list_all iso_char (iso_date t)"
    using spec(2,4) year(1) by (simp add: written iso_char_padded)
  obtain c1 c2 where m2: "padded 2 m = [c1, c2]" using len(2) by (auto simp: length_Suc_conv numeral_2_eq_2)
  have c1: "c1 \<noteq> CHR ''W''" using digits [of m c1 2] m2 spec(2) by simp
  show "date_end (iso_date t @ CHR ''T'' # rest) = Some 10"
    using len c1 by (simp add: written m2 date_end_def nth_append)
  have parts: "parse_digits 4 0 (padded 4 y @ r) = Some (y, r)" "parse_digits 2 0 (padded 2 m @ r) = Some (m, r)"
    "parse_digits 2 0 (padded 2 d @ r) = Some (d, r)" for r
    using parse_digits_padded [of 4 y r] read_two [of m r] read_two [of d r] spec year d by simp_all
  have head: "c_first nul (padded 2 m @ r) \<noteq> CHR ''W''" for r
    using c1 by (simp add: m2 c_first_def)
  have "check_date y m d = Some n"
    using spec year by (simp add: check_date_def)
  then show "read_date 10 (iso_date t @ CHR ''T'' # rest) = Some (t div microseconds_per_day + epoch_ordinal)"
    unfolding read_date_def written n_def [symmetric]
    by (simp add: parts head len drop_dash_def c_first_def [of nul "CHR ''-'' # _"])
qed

lemma make_day_time:
  assumes "date_ok t"
  defines "r \<equiv> t mod microseconds_per_day"
  shows "make_datetime (t div microseconds_per_day + epoch_ordinal)
      (r div 3600000000, r div 60000000 mod 60, r div 1000000 mod 60, r mod 1000000) off
    = (case off of None \<Rightarrow> Some (Naive t) | Some z \<Rightarrow> if \<bar>z\<bar> < microseconds_per_day then Some (Aware (t - z) z) else None)"
proof -
  have r: "0 \<le> r" "r < 86400000000" by (simp_all add: r_def microseconds_per_day_def)
  have hours: "r div 3600000000 \<le> 23" using r by linarith
  have "r div 1000000 div 3600 * 3600 + r div 1000000 div 60 mod 60 * 60 + r div 1000000 mod 60 = r div 1000000"
    by (rule seconds_split)
  then have "((r div 3600000000 * 60 + r div 60000000 mod 60) * 60 + r div 1000000 mod 60) * 1000000 + r mod 1000000 = r"
    by (simp add: zdiv_zmult2_eq [symmetric] algebra_simps)
  moreover have "t div microseconds_per_day * microseconds_per_day + r = t" by (simp add: r_def)
  ultimately have whole: "(t div microseconds_per_day + epoch_ordinal - epoch_ordinal) * microseconds_per_day
      + ((r div 3600000000 * 60 + r div 60000000 mod 60) * 60 + r div 1000000 mod 60) * 1000000 + r mod 1000000 = t"
    by (simp only: add_diff_cancel_right' add.assoc)
  have "r div 60000000 mod 60 \<le> 59" "r div 1000000 mod 60 \<le> 59" by simp_all
  with hours show ?thesis
    unfolding make_datetime_def Let_def prod.case whole by simp
qed

lemma fromiso_naive:
  assumes "date_ok t"
  shows "fromisoformat (iso_date t @ CHR ''T'' # iso_time t) = Some (Naive t)"
proof -
  note date = read_iso_date [OF assms]
  have "list_all iso_char (iso_date t @ CHR ''T'' # iso_time t)"
    using date(4) iso_time_chars by simp
  then have ascii: "list_all is_ascii (iso_date t @ CHR ''T'' # iso_time t)"
    by (rule list.pred_mono_strong) (rule iso_char_ascii)
  have T: "is_ascii (CHR ''T'')" by (simp add: is_ascii_def)
  have whole: "takeWhile (\<lambda>c. \<not> offset_sign c) (iso_time t) = iso_time t" "dropWhile (\<lambda>c. \<not> offset_sign c) (iso_time t) = []"
    using iso_time_no_sign by (simp_all add: takeWhile_eq_all_conv dropWhile_eq_Nil_conv)
  show ?thesis
    using make_day_time [OF assms, of None]
    by (simp add: fromisoformat_def ascii_encode [OF ascii] fromiso_bytes_def date nth_append T read_time_def whole
        read_iso_time c_first_def [of nul "[]"] del: read_clock.simps)
qed

lemma fromiso_aware:
  assumes "date_ok t" and "offset_ok off"
  shows "fromisoformat (iso_date t @ CHR ''T'' # iso_time t @ iso_offset off) = Some (Aware (t - off) off)"
proof -
  note date = read_iso_date [OF assms(1)]
  obtain sg z where z: "iso_offset off = sg # z" "sg = CHR ''+'' \<or> sg = CHR ''-''" "read_offset sg z = Some off"
    using read_iso_offset [OF assms(2)] by blast
  have "list_all iso_char (iso_date t @ CHR ''T'' # iso_time t @ iso_offset off)"
    using date(4) iso_time_chars iso_offset_chars by simp
  then have ascii: "list_all is_ascii (iso_date t @ CHR ''T'' # iso_time t @ iso_offset off)"
    by (rule list.pred_mono_strong) (rule iso_char_ascii)
  have T: "is_ascii (CHR ''T'')" by (simp add: is_ascii_def)
  have sg: "offset_sign sg" "sg \<noteq> nul" using z(2) by (auto simp: offset_sign_def)
  have parts: "takeWhile (\<lambda>c. \<not> offset_sign c) (iso_time t @ iso_offset off) = iso_time t"
    "dropWhile (\<lambda>c. \<not> offset_sign c) (iso_time t @ iso_offset off) = sg # z"
    using iso_time_no_sign sg by (simp_all add: z(1) takeWhile_append2 dropWhile_append2)
  have "\<bar>off\<bar> < microseconds_per_day" using assms(2) by (simp add: offset_ok_def)
  then show ?thesis
    using make_day_time [OF assms(1), of "Some off"]
    by (simp add: fromisoformat_def ascii_encode [OF ascii] fromiso_bytes_def date nth_append T read_time_def parts
        read_iso_time c_first_def [of nul "sg # z"] z(3) del: read_clock.simps)
qed

theorem fromisoformat_isoformat: "datetime_ok d \<Longrightarrow> fromisoformat (isoformat d) = Some d"
  by (cases d) (simp_all add: isoformat_def datetime_ok_def fromiso_naive fromiso_aware)

lemma isoformat_chars: "datetime_ok d \<Longrightarrow> list_all iso_char (isoformat d)"
  by (cases d) (simp_all add: isoformat_def datetime_ok_def read_iso_date(4) iso_time_chars iso_offset_chars)

lemma isoformat_long: "datetime_ok d \<Longrightarrow> 10 < length (isoformat d)"
  by (cases d) (simp_all add: isoformat_def datetime_ok_def read_iso_date(3))

section \<open>What is read can be written\<close>

lemma digit_value: "is_digit c \<Longrightarrow> 0 \<le> (of_char c :: int) - 48 \<and> (of_char c :: int) - 48 \<le> 9"
  by (auto simp: is_digit_def)

lemma parse_digits_range:
  "parse_digits k acc s = Some (v, t) \<Longrightarrow> 0 \<le> acc \<Longrightarrow> acc * 10 ^ k \<le> v \<and> v < (acc + 1) * 10 ^ k"
proof (induction k acc s rule: parse_digits.induct)
  case (3 k acc c s)
  then have c: "is_digit c" and read: "parse_digits k (10 * acc + (of_char c - 48)) s = Some (v, t)"
    by (simp_all split: if_splits)
  note bounds = digit_value [OF c]
  then have "0 \<le> 10 * acc + (of_char c - 48)" using "3.prems"(2) by simp
  from "3.IH" [OF c read this]
  have le: "(10 * acc + (of_char c - 48)) * 10 ^ k \<le> v" and lt: "v < (10 * acc + (of_char c - 48) + 1) * 10 ^ k" by auto
  have "10 * acc * 10 ^ k \<le> (10 * acc + (of_char c - 48)) * 10 ^ k"
    using bounds by (intro mult_right_mono) simp_all
  from this le have "10 * acc * 10 ^ k \<le> v" by (rule order_trans)
  moreover have "(10 * acc + (of_char c - 48) + 1) * 10 ^ k \<le> (10 * acc + 10) * 10 ^ k"
    using bounds by (intro mult_right_mono) simp_all
  from lt this have "v < (10 * acc + 10) * 10 ^ k" by (rule less_le_trans)
  ultimately show ?case by (simp add: algebra_simps)
qed simp_all

lemma parse_digits_below: "parse_digits k 0 s = Some (v, t) \<Longrightarrow> 0 \<le> v \<and> v < 10 ^ k"
  using parse_digits_range [of k 0 s v t] by simp

lemma year_end: "1 \<le> m \<Longrightarrow> m \<le> 12 \<Longrightarrow> 0 \<le> before_month leap m \<and> before_month leap m + days_in_month leap m \<le> (if leap then 366 else 365)"
proof -
  assume "1 \<le> m" "m \<le> 12"
  then have "m \<in> {1, 2, 3, 4, 5, 6, 7, 8, 9, 10, 11, 12}" unfolding insert_iff empty_iff by presburger
  then show ?thesis by (elim insertE) (simp_all add: before_month_def days_before_month_def days_in_month_def)
qed

lemma check_date_range: "check_date y m d = Some n \<Longrightarrow> 1 \<le> n \<and> n \<le> max_ordinal"
proof -
  assume "check_date y m d = Some n"
  then have y: "1 \<le> y" "y \<le> 9999" and m: "1 \<le> m" "m \<le> 12" and d: "1 \<le> d" "d \<le> days_in_month (is_leap y) m"
    and n: "n = days_before_year y + before_month (is_leap y) m + d"
    by (simp_all add: check_date_def ymd_to_ord_def split: if_splits)
  note month = year_end [OF m, of "is_leap y"]
  have "0 \<le> days_before_year y"
  proof -
    have "0 \<le> y - 1" using y(1) by simp
    then have "(y - 1) div 100 \<le> (y - 1) div 4" "0 \<le> (y - 1) div 400" by linarith+
    with \<open>0 \<le> y - 1\<close> show ?thesis unfolding days_before_year_def Let_def by (simp add: add_nonneg_nonneg)
  qed
  then have "1 \<le> n" using n month d(1) by linarith
  moreover have "n \<le> max_ordinal"
  proof (cases "y = 9999")
    case True
    then have "\<not> is_leap y" "days_before_year y = 3651694" by (simp_all add: is_leap_def days_before_year_def)
    then show ?thesis using n month d(2) by (simp add: max_ordinal_def)
  next
    case False
    have bound: "p * 365 + a - b + c \<le> 3651600" if "p \<le> 9997" "4 * a \<le> p" "p \<le> 100 * b + 99" "400 * c \<le> p" for p a b c :: int
      using that by linarith
    have "4 * ((y - 1) div 4) \<le> y - 1" "y - 1 \<le> 100 * ((y - 1) div 100) + 99" "400 * ((y - 1) div 400) \<le> y - 1" by linarith+
    with False y(2) have "days_before_year y \<le> 3651600" unfolding days_before_year_def Let_def by (intro bound) simp_all
    then show ?thesis using n month d(2) by (simp add: max_ordinal_def split: if_splits)
  qed
  ultimately show ?thesis ..
qed

lemma week_range: "week_to_ord y w d = Some n \<Longrightarrow> 1 \<le> n \<and> n \<le> max_ordinal"
  by (auto simp: week_to_ord_def Let_def split: if_splits)

lemma read_date_range: "read_date k s = Some n \<Longrightarrow> 1 \<le> n \<and> n \<le> max_ordinal"
proof -
  assume read: "read_date k s = Some n"
  then obtain y t where y: "parse_digits 4 0 s = Some (y, t)"
    by (cases "parse_digits 4 0 s") (auto simp: read_date_def)
  define t1 where "t1 = (if c_first nul t = CHR ''-'' then tl t else t)"
  show ?thesis
  proof (cases "c_first nul t1 = CHR ''W''")
    case True
    then show ?thesis
      using read unfolding read_date_def y option.case prod.case Let_def t1_def [symmetric]
      by (simp split: option.splits if_splits prod.splits) (blast dest: week_range)+
  next
    case False
    then show ?thesis
      using read unfolding read_date_def y option.case prod.case Let_def t1_def [symmetric]
      by (simp split: option.splits if_splits prod.splits) (blast dest: check_date_range)+
  qed
qed

definition clock_fits :: "int \<times> int \<times> int \<times> int \<Rightarrow> bool" where
  "clock_fits c \<longleftrightarrow> (case c of (h, m, s, us) \<Rightarrow> 0 \<le> h \<and> 0 \<le> m \<and> 0 \<le> s \<and> 0 \<le> us \<and> us < 1000000)"

lemma clock_of_fits: "\<forall>v \<in> set vs. 0 \<le> v \<Longrightarrow> 0 \<le> us \<Longrightarrow> us < 1000000 \<Longrightarrow> clock_fits (clock_of vs us)"
  by (auto simp: clock_of_def clock_fits_def split: list.splits)

lemma read_fraction_fits: "read_fraction e vs s = Some (b, c) \<Longrightarrow> \<forall>v \<in> set vs. 0 \<le> v \<Longrightarrow> clock_fits c"
proof -
  assume read: "read_fraction e vs s = Some (b, c)" and vs: "\<forall>v \<in> set vs. 0 \<le> v"
  define k where "k = min 6 (length s)"
  obtain us t where us: "parse_digits k 0 s = Some (us, t)" and c: "c = clock_of vs (us * 10 ^ (6 - k))"
    using read by (auto simp: read_fraction_def k_def Let_def split: option.splits)
  have range: "0 \<le> us" "us < 10 ^ k" using parse_digits_below [OF us] by auto
  then have "us * 10 ^ (6 - k) < 10 ^ k * 10 ^ (6 - k)" by (intro mult_strict_right_mono) simp_all
  also have "\<dots> = (1000000 :: int)" by (simp add: k_def power_add [symmetric])
  finally show ?thesis unfolding c using vs range(1) by (intro clock_of_fits) simp_all
qed

lemma read_clock_fits: "read_clock e k colon vs s = Some (b, c) \<Longrightarrow> \<forall>v \<in> set vs. 0 \<le> v \<Longrightarrow> clock_fits c"
proof (induction e k colon vs s rule: read_clock.induct)
  case (1 e colon vs s)
  then show ?case by (simp add: read_fraction_fits)
next
  case (2 e k colon vs s)
  obtain v t where vt: "parse_digits 2 0 s = Some (v, t)" using "2.prems"(1) by (auto split: option.splits)
  have vs: "\<forall>x \<in> set (vs @ [v]). 0 \<le> x" using "2.prems"(2) parse_digits_below [OF vt] by auto
  show ?case
    using "2.prems"(1) vs "2.IH" [OF vt refl refl refl refl] clock_of_fits [of "vs @ [v]" 0] read_fraction_fits [of e "vs @ [v]" "tl t" b c]
    by (auto simp: vt Let_def split: if_splits)
qed

lemma read_offset_range: "read_offset sg s = Some off \<Longrightarrow> off = 0 \<or> 1000000 \<le> \<bar>off\<bar>"
proof -
  assume read: "read_offset sg s = Some off"
  show ?thesis
  proof (cases "sg = CHR ''Z''")
    case True
    then show ?thesis using read by (simp add: read_offset_def split: if_splits)
  next
    case False
    then obtain h m sec us where c: "read_clock nul 3 True [] s = Some (False, h, m, sec, us)"
      and off: "off = (let secs = h * 3600 + m * 60 + sec; factor = (if sg = CHR ''-'' then -1 else 1)
         in if secs = 0 then 0 else factor * (secs * 1000000 + us))"
      using read by (auto simp: read_offset_def Let_def split: option.splits if_splits)
    from read_clock_fits [OF c] have "0 \<le> h * 3600 + m * 60 + sec" "0 \<le> us" by (simp_all add: clock_fits_def)
    then show ?thesis unfolding off Let_def by (auto simp: abs_mult)
  qed
qed

lemma make_datetime_ok:
  assumes made: "make_datetime n c off = Some d" and n: "1 \<le> n" "n \<le> max_ordinal" and c: "clock_fits c"
    and off: "\<And>z. off = Some z \<Longrightarrow> z = 0 \<or> 1000000 \<le> \<bar>z\<bar>"
  shows "datetime_ok d"
proof -
  obtain h m s us where c': "c = (h, m, s, us)" by (cases c)
  define x where "x = ((h * 60 + m) * 60 + s) * 1000000 + us"
  define t where "t = (n - epoch_ordinal) * microseconds_per_day + x"
  from made have small: "h \<le> 23" "m \<le> 59" "s \<le> 59"
    and d: "d = Naive t \<or> (\<exists>z. off = Some z \<and> \<bar>z\<bar> < microseconds_per_day \<and> d = Aware (t - z) z)"
    by (auto simp: make_datetime_def c' Let_def x_def t_def add.assoc split: if_splits option.splits)
  have "0 \<le> h" "0 \<le> m" "0 \<le> s" "0 \<le> us" "us < 1000000" using c by (simp_all add: clock_fits_def c')
  moreover have "x = 3600000000 * h + 60000000 * m + 1000000 * s + us" by (simp add: x_def algebra_simps)
  ultimately have "0 \<le> x" "x < microseconds_per_day" using small unfolding microseconds_per_day_def by linarith+
  then have "t div microseconds_per_day = n - epoch_ordinal"
    unfolding t_def by (simp add: microseconds_per_day_def)
  then have "date_ok t" using n by (simp add: date_ok_def)
  then show ?thesis using d off by (auto simp: datetime_ok_def offset_ok_def)
qed

lemma read_clock_start: "read_clock e k colon [] s = Some (b, c) \<Longrightarrow> clock_fits c"
  by (erule read_clock_fits) simp

lemma read_time_fits: "read_time s = Some (c, off) \<Longrightarrow> clock_fits c \<and> (\<forall>z. off = Some z \<longrightarrow> z = 0 \<or> 1000000 \<le> \<bar>z\<bar>)"
  unfolding read_time_def Let_def
  by (auto split: option.splits if_splits dest: read_offset_range read_clock_start)

text \<open>Whatever is read is a timestamp that \<open>isoformat\<close> writes and the reader reads back.\<close>

theorem fromisoformat_ok:
  assumes "fromisoformat s = Some d"
  shows "datetime_ok d"
proof -
  define b where "b = utf8_encode s"
  from assms have read: "fromiso_bytes b = Some d" by (simp add: fromisoformat_def b_def)
  then obtain p where p: "date_end b = Some p" by (auto simp: fromiso_bytes_def split: if_splits option.splits)
  with read obtain n where date: "read_date p b = Some n" by (auto simp: fromiso_bytes_def split: if_splits option.splits)
  have rest: "length b \<le> p \<and> make_datetime n (0, 0, 0, 0) None = Some d
      \<or> (\<exists>c off t. read_time t = Some (c, off) \<and> make_datetime n c off = Some d)"
    using read p date
    by (cases "read_time (drop (if is_ascii (b ! p) then Suc p else p + 2) b)")
      (fastforce simp: fromiso_bytes_def split: if_splits)+
  note n = read_date_range [OF date]
  have zero: "clock_fits (0, 0, 0, 0)" by (simp add: clock_fits_def)
  from rest show ?thesis
  proof (elim disjE exE conjE)
    assume "make_datetime n (0, 0, 0, 0) None = Some d"
    then show ?thesis using n zero by (intro make_datetime_ok [where off = None]) auto
  next
    fix c off t assume "read_time t = Some (c, off)" "make_datetime n c off = Some d"
    then show ?thesis using n read_time_fits [of t c off] by (intro make_datetime_ok [of n c off d]) auto
  qed
qed

end
