(* ===== verification/SlackCommand.thy ===== *)
theory SlackCommand
  imports IsoDates
begin

text \<open>
  The front of the Slack command: the request's signature (\<open>api/slack_runs/signature.py\<close>), its form body
  (\<open>_parse_form_payload\<close> in \<open>api/slack_runs/router.py\<close>) and the text of the command
  (\<open>api/slack_runs/parsers.py\<close>) with \<open>shlex.split\<close>, the reader of shell words it uses.

  Arguments are what the standard library computes outside this model: decoding of UTF-8 and the
  keyed hash (\<open>codec\<close>).
\<close>

record codec =
  c_decode :: "bytes \<Rightarrow> string option"
  c_replace :: "bytes \<Rightarrow> string"
  c_mac :: "bytes \<Rightarrow> bytes \<Rightarrow> string"

section \<open>SlackSignatureVerifier\<close>

record verifier =
  sv_secret :: bytes
  sv_tolerance :: int

definition make_verifier :: "string \<Rightarrow> int \<Rightarrow> verifier" where
  "make_verifier secret tol = \<lparr>sv_secret = utf8_encode secret, sv_tolerance = tol\<rparr>"

text \<open>
  \<open>f"v0:{timestamp}:{body.decode()}".encode()\<close>: a body that is not UTF-8 raises UnicodeDecodeError, a
  ValueError; for any other, encoding what was decoded gives the body again.
\<close>

definition compute_signature :: "codec \<Rightarrow> verifier \<Rightarrow> string \<Rightarrow> bytes \<Rightarrow> exn + string" where
  "compute_signature c V ts body = (case c_decode c body of
       None \<Rightarrow> Inl ValueError
     | Some _ \<Rightarrow> Inr (''v0='' @ c_mac c (sv_secret V) (utf8_encode (''v0:'' @ ts @ '':'') @ body)))"

text \<open>\<open>hmac.compare_digest\<close> takes ASCII strings only.\<close>

definition compare_digest :: "string \<Rightarrow> string \<Rightarrow> exn + bool" where
  "compare_digest a b = (if list_all is_ascii a \<and> list_all is_ascii b then Inr (a = b) else Inl TypeError)"

text \<open>
  \<open>time.time() - int(timestamp)\<close> subtracts an integer from a float; an integer beyond the largest float raises
  OverflowError. The wall clock \<open>clk\<close> is in microseconds.
\<close>

definition float_bound :: int where
  "float_bound = 2 ^ 1024 - 2 ^ 970"

definition verify :: "codec \<Rightarrow> verifier \<Rightarrow> time \<Rightarrow> string option \<Rightarrow> string option \<Rightarrow> bytes \<Rightarrow> exn + unit" where
  "verify c V clk ts sig body =
     (case (ts, sig) of
        (Some t, Some s) \<Rightarrow>
          if t = [] \<or> s = [] then Inl (SlackVerificationError ''Missing Slack signature headers.'')
          else (case py_int 10 t of
              None \<Rightarrow> Inl ValueError
            | Some i \<Rightarrow>
                if float_bound \<le> \<bar>i\<bar> then Inl OverflowError
                else if \<bar>clk - i * 1000000\<bar> > sv_tolerance V * 1000000
                then Inl (SlackVerificationError ''Stale Slack request timestamp.'')
                else (case compute_signature c V t body of
                    Inl e \<Rightarrow> Inl e
                  | Inr expected \<Rightarrow> (case compare_digest expected s of
                        Inl e \<Rightarrow> Inl e
                      | Inr ok \<Rightarrow> if ok then Inr () else Inl (SlackVerificationError ''Slack signature mismatch.''))))
      | _ \<Rightarrow> Inl (SlackVerificationError ''Missing Slack signature headers.''))"

text \<open>
  Property C35. Who passes the signature check: a request is accepted if and only if it has both headers,
  its timestamp reads as an integer within the tolerance of the clock, its body is UTF-8, and its signature is
  \<open>v0=\<close> followed by the keyed hash, under the configured secret, of exactly this timestamp and this body. Nothing
  else passes, and what the check raises for a wrong signature does not depend on the expected one.
\<close>

theorem verify_accepts_iff:
  assumes mac: "\<forall>k m. list_all is_ascii (c_mac c k m)"
  shows "(verify c (make_verifier secret tol) clk ts sig body = Inr () \<longleftrightarrow>
     (\<exists>t i. ts = Some t \<and> t \<noteq> [] \<and> py_int 10 t = Some i \<and> \<bar>i\<bar> < float_bound
        \<and> \<bar>clk - i * 1000000\<bar> \<le> tol * 1000000 \<and> c_decode c body \<noteq> None
        \<and> sig = Some (''v0='' @ c_mac c (utf8_encode secret) (utf8_encode (''v0:'' @ t @ '':'') @ body))))
    \<and> (\<forall>t i s s'. ts = Some t \<longrightarrow> t \<noteq> [] \<longrightarrow> py_int 10 t = Some i \<longrightarrow> \<bar>i\<bar> < float_bound
        \<longrightarrow> \<bar>clk - i * 1000000\<bar> \<le> tol * 1000000 \<longrightarrow> c_decode c body \<noteq> None \<longrightarrow> list_all is_ascii s \<longrightarrow> s \<noteq> []
        \<longrightarrow> verify c (make_verifier secret tol) clk ts (Some s) body
          \<in> {Inr (), Inl (SlackVerificationError ''Slack signature mismatch.'')})"
proof -
  have prefix: "list_all is_ascii ''v0=''" by (simp add: is_ascii_def)
  show ?thesis
    using mac prefix
    by (cases ts; cases sig)
      (auto simp: verify_def make_verifier_def compute_signature_def compare_digest_def split: option.splits sum.splits)
qed

section \<open>The form body\<close>

text \<open>\<open>urllib.parse.parse_qs\<close> with its default arguments, as the list of its fields.\<close>

definition form_field :: "(bytes \<Rightarrow> string) \<Rightarrow> string \<Rightarrow> (string \<times> string) list" where
  "form_field dec nv =
     (if CHR ''='' \<in> set nv \<and> snd (split_once (CHR ''='') nv) \<noteq> []
      then [(unquote_plus dec (fst (split_once (CHR ''='') nv)), unquote_plus dec (snd (split_once (CHR ''='') nv)))]
      else [])"

definition parse_qs :: "(bytes \<Rightarrow> string) \<Rightarrow> string \<Rightarrow> (string \<times> string) list" where
  "parse_qs dec qs = concat (map (form_field dec) (split_on (CHR ''&'') qs))"

text \<open>The first value of each key: \<open>map_of\<close> of the result reads it.\<close>

definition parse_form_payload :: "codec \<Rightarrow> bytes \<Rightarrow> exn + (string \<times> string) list" where
  "parse_form_payload c body = (case c_decode c body of
       None \<Rightarrow> Inl ValueError
     | Some text \<Rightarrow> Inr (parse_qs (c_replace c) text))"

section \<open>shlex.split\<close>

text \<open>
  The reader of POSIX shell words, with \<open>whitespace_split\<close> and without comments. \<open>Blank\<close> is the state
  between words; \<open>quoted\<close> records that the current word had quotes and so exists even when it is empty.
  \<open>Escape (Some q)\<close> is a backslash inside double quotes.
\<close>

datatype lex_state = Blank | InWord | InQuote char | Escape "char option"

definition lex_blank :: "char \<Rightarrow> bool" where
  "lex_blank c \<longleftrightarrow> c \<in> {CHR '' '', CHR 0x09, CHR 0x0D, CHR 0x0A}"

definition lex_quote :: "char \<Rightarrow> bool" where
  "lex_quote c \<longleftrightarrow> c \<in> {CHR 0x27, CHR 0x22}"

definition backslash :: char where "backslash = CHR 0x5C"

definition end_word :: "bool \<Rightarrow> string \<Rightarrow> string list" where
  "end_word quoted tok = (if tok \<noteq> [] \<or> quoted then [tok] else [])"

fun shlex :: "lex_state \<Rightarrow> bool \<Rightarrow> string \<Rightarrow> string \<Rightarrow> exn + string list" where
  "shlex Blank quoted tok [] = Inr []"
| "shlex Blank quoted tok (c # cs) =
     (if lex_blank c then shlex Blank False [] cs
      else if c = backslash then shlex (Escape None) False [] cs
      else if lex_quote c then shlex (InQuote c) False [] cs
      else shlex InWord False [c] cs)"
| "shlex (InQuote q) quoted tok [] = Inl ValueError"
| "shlex (InQuote q) quoted tok (c # cs) =
     (if c = q then shlex InWord True tok cs
      else if c = backslash \<and> q = CHR 0x22 then shlex (Escape (Some q)) True tok cs
      else shlex (InQuote q) True (tok @ [c]) cs)"
| "shlex (Escape from) quoted tok [] = Inl ValueError"
| "shlex (Escape from) quoted tok (c # cs) =
     (case from of
        None \<Rightarrow> shlex InWord quoted (tok @ [c]) cs
      | Some q \<Rightarrow> shlex (InQuote q) quoted ((if c \<noteq> backslash \<and> c \<noteq> q then tok @ [backslash] else tok) @ [c]) cs)"
| "shlex InWord quoted tok [] = Inr (end_word quoted tok)"
| "shlex InWord quoted tok (c # cs) =
     (if lex_blank c then map_sum id (\<lambda>ts. end_word quoted tok @ ts) (shlex Blank False [] cs)
      else if lex_quote c then shlex (InQuote c) quoted tok cs
      else if c = backslash then shlex (Escape None) quoted tok cs
      else shlex InWord quoted (tok @ [c]) cs)"

definition shlex_split :: "string \<Rightarrow> exn + string list" where
  "shlex_split s = shlex Blank False [] s"

definition plain_codec :: codec where
  "plain_codec = \<lparr>c_decode = (\<lambda>b. if list_all is_ascii b then Some b else None), c_replace = utf8_latin,
     c_mac = (\<lambda>k m. filter is_ascii (k @ m))\<rparr>"

lemma plain_mac: "\<forall>k m. list_all is_ascii (c_mac plain_codec k m)"
  by (auto simp: plain_codec_def list_all_iff)

theorem verify_accepts_iff_witness:
  "verify plain_codec (make_verifier ''k'' 300) 400000000 (Some ''99'') (Some ''v0=kv0:99:a'') ''a'' = Inl (SlackVerificationError ''Stale Slack request timestamp.'')
   \<and> verify plain_codec (make_verifier ''k'' 300) 399000000 (Some ''99'') (Some ''v0=kv0:99:a'') ''a'' = Inr ()"
proof
  have int: "py_int 10 ''99'' = Some 99"
    by (simp add: py_int_def py_strip_def strip_by_def py_isspace_def int_prefix_def digit_val_def Let_def)
  then show "verify plain_codec (make_verifier ''k'' 300) 400000000 (Some ''99'') (Some ''v0=kv0:99:a'') ''a''
      = Inl (SlackVerificationError ''Stale Slack request timestamp.'')"
    by (simp add: verify_def make_verifier_def float_bound_def)
  have "c_decode plain_codec ''a'' \<noteq> None" "utf8_encode ''k'' = ''k''" "utf8_encode ''v0:99:'' = ''v0:99:''"
    "c_mac plain_codec ''k'' ''v0:99:a'' = ''kv0:99:a''"
    by (simp_all add: plain_codec_def is_ascii_def utf8_encode_def utf8_char_def)
  then show "verify plain_codec (make_verifier ''k'' 300) 399000000 (Some ''99'') (Some ''v0=kv0:99:a'') ''a'' = Inr ()"
    using verify_accepts_iff [OF plain_mac, of "''k''" 300 399000000 "Some ''99''" "Some ''v0=kv0:99:a''" "''a''"] int
    by (simp add: float_bound_def)
qed

section \<open>RunCommandOptions and parse_command_text\<close>

record run_command_options =
  opt_pickup_time :: "datetime option"
  opt_pickup_note :: "string option"
  opt_errors :: "string list option"

definition has_errors :: "run_command_options \<Rightarrow> bool" where
  "has_errors o' \<longleftrightarrow> (case opt_errors o' of None \<Rightarrow> False | Some es \<Rightarrow> es \<noteq> [])"

definition add_error :: "string \<Rightarrow> run_command_options \<Rightarrow> run_command_options" where
  "add_error e o' = o'\<lparr>opt_errors := map_option (\<lambda>es. es @ [e]) (opt_errors o')\<rparr>"

text \<open>
  \<open>HH:MM\<close> is a time of the current day in UTC; anything else is left to \<open>fromisoformat\<close> (IsoDates). \<open>None\<close> is a ValueError:
  of \<open>int\<close>, of the unpacking into two variables, or of \<open>time\<close>, which checks the ranges.
\<close>

definition midnight :: "time \<Rightarrow> time" where
  "midnight clk = clk - clk mod 86400000000"

definition parse_pickup_time :: "time \<Rightarrow> string \<Rightarrow> datetime option" where
  "parse_pickup_time clk v =
     (if length v = 5 \<and> v ! 2 = CHR '':''
      then (case map (py_int 10) (split_on (CHR '':'') v) of
          [Some h, Some m] \<Rightarrow>
            if 0 \<le> h \<and> h \<le> 23 \<and> 0 \<le> m \<and> m \<le> 59
            then Some (Aware (midnight clk + (h * 60 + m) * 60000000) 0) else None
        | _ \<Rightarrow> None)
      else (case fromisoformat v of
          None \<Rightarrow> None
        | Some (Aware t off) \<Rightarrow> Some (Aware t off)
        | Some (Naive t) \<Rightarrow> Some (Aware t 0)))"

definition bad_pickup_time :: string where
  "bad_pickup_time = ''pickup_time must be ISO-8601 date-time or HH:MM (24h).''"

definition apply_pickup_time :: "time \<Rightarrow> string \<Rightarrow> run_command_options \<Rightarrow> run_command_options" where
  "apply_pickup_time clk v o' = (case parse_pickup_time clk v of
       Some d \<Rightarrow> o'\<lparr>opt_pickup_time := Some d\<rparr>
     | None \<Rightarrow> add_error bad_pickup_time o')"

definition long_note :: string where
  "long_note = ''Pickup note must be <= 120 characters.''"

definition unknown_parameter :: "string \<Rightarrow> string" where
  "unknown_parameter key = ''Unknown parameter '' @ [CHR 0x27] @ key @ [CHR 0x27] @ ''.''"

definition parse_token :: "time \<Rightarrow> run_command_options \<Rightarrow> string \<Rightarrow> run_command_options" where
  "parse_token clk o' tok =
     (if CHR ''='' \<notin> set tok then o'
      else (let key = py_lower (fst (split_once (CHR ''='') tok));
                v = py_strip (snd (split_once (CHR ''='') tok))
            in if key \<in> {''pickup'', ''pickup_time''} then apply_pickup_time clk v o'
               else if key \<in> {''note'', ''pickup_note''}
               then (if length v > 120 then add_error long_note o' else o'\<lparr>opt_pickup_note := Some v\<rparr>)
               else add_error (unknown_parameter key) o'))"

definition no_options :: run_command_options where
  "no_options = \<lparr>opt_pickup_time = None, opt_pickup_note = None, opt_errors = Some []\<rparr>"

definition parse_command_text :: "time \<Rightarrow> string \<Rightarrow> exn + run_command_options" where
  "parse_command_text clk text =
     (let normalized = py_strip text in
      if normalized = [] then Inr no_options
      else (case shlex_split normalized of
          Inl e \<Rightarrow> Inl e
        | Inr toks \<Rightarrow>
            (let o' = foldl (parse_token clk) no_options toks
             in Inr (if opt_errors o' = Some [] then o'\<lparr>opt_errors := None\<rparr> else o'))))"

section \<open>What a command means\<close>

text \<open>
  The same, said token by token: the errors of a token, and the setting a token makes. The last
  setting of each kind counts.
\<close>

definition key_of :: "string \<Rightarrow> string" where
  "key_of tok = py_lower (fst (split_once (CHR ''='') tok))"

definition value_of :: "string \<Rightarrow> string" where
  "value_of tok = py_strip (snd (split_once (CHR ''='') tok))"

definition token_pickup :: "time \<Rightarrow> string \<Rightarrow> datetime list" where
  "token_pickup clk tok =
     (if CHR ''='' \<in> set tok \<and> key_of tok \<in> {''pickup'', ''pickup_time''}
      then (case parse_pickup_time clk (value_of tok) of None \<Rightarrow> [] | Some d \<Rightarrow> [d]) else [])"

definition token_note :: "string \<Rightarrow> string list" where
  "token_note tok = (if CHR ''='' \<in> set tok \<and> key_of tok \<in> {''note'', ''pickup_note''} \<and> length (value_of tok) \<le> 120
     then [value_of tok] else [])"

definition token_error :: "time \<Rightarrow> string \<Rightarrow> string list" where
  "token_error clk tok =
     (if CHR ''='' \<notin> set tok then []
      else if key_of tok \<in> {''pickup'', ''pickup_time''}
      then (if parse_pickup_time clk (value_of tok) = None then [bad_pickup_time] else [])
      else if key_of tok \<in> {''note'', ''pickup_note''}
      then (if length (value_of tok) > 120 then [long_note] else [])
      else [unknown_parameter (key_of tok)])"

definition last_or :: "'a option \<Rightarrow> 'a list \<Rightarrow> 'a option" where
  "last_or d xs = (if xs = [] then d else Some (last xs))"

lemma last_or_append: "last_or d (xs @ ys) = last_or (last_or d xs) ys"
  by (simp add: last_or_def)

lemma last_or_simps [simp]: "last_or d [] = d" "last_or d [x] = Some x"
  by (simp_all add: last_or_def)

lemma parse_token_spec: "opt_errors o' = Some es \<Longrightarrow> parse_token clk o' tok =
    \<lparr>opt_pickup_time = last_or (opt_pickup_time o') (token_pickup clk tok),
     opt_pickup_note = last_or (opt_pickup_note o') (token_note tok),
     opt_errors = Some (es @ token_error clk tok)\<rparr>"
  by (cases o') (auto simp: parse_token_def apply_pickup_time_def add_error_def token_pickup_def token_note_def
      token_error_def key_of_def value_of_def Let_def split: option.splits)

lemma parse_tokens_spec: "opt_errors o' = Some es \<Longrightarrow> foldl (parse_token clk) o' toks =
    \<lparr>opt_pickup_time = last_or (opt_pickup_time o') (concat (map (token_pickup clk) toks)),
     opt_pickup_note = last_or (opt_pickup_note o') (concat (map token_note toks)),
     opt_errors = Some (es @ concat (map (token_error clk) toks))\<rparr>"
proof (induction toks arbitrary: o' es)
  case Nil
  then show ?case by (cases o') simp
next
  case (Cons tok toks)
  show ?case
    using Cons.IH [of "parse_token clk o' tok" "es @ token_error clk tok"]
    by (simp add: parse_token_spec [OF Cons.prems] last_or_append)
qed

lemma parse_command_spec: "parse_command_text clk text =
    (if py_strip text = [] then Inr no_options
     else map_sum id (\<lambda>toks.
       \<lparr>opt_pickup_time = last_or None (concat (map (token_pickup clk) toks)),
        opt_pickup_note = last_or None (concat (map token_note toks)),
        opt_errors = (let es = concat (map (token_error clk) toks) in if es = [] then None else Some es)\<rparr>)
      (shlex_split (py_strip text)))"
proof -
  have start: "opt_errors no_options = Some []" "opt_pickup_time no_options = None" "opt_pickup_note no_options = None"
    by (simp_all add: no_options_def)
  show ?thesis
    by (auto simp: parse_command_text_def parse_tokens_spec [OF start(1)] start Let_def split: sum.splits)
qed

lemma shlex_error: "shlex st quoted tok s = Inl e \<Longrightarrow> e = ValueError"
proof (induction st quoted tok s rule: shlex.induct)
  case (8 quoted tok c cs)
  show ?case
  proof (cases "lex_blank c")
    case True
    with "8.prems" obtain e' where "shlex Blank False [] cs = Inl e'" "e' = e"
      by (cases "shlex Blank False [] cs") auto
    with True "8.IH"(1) show ?thesis by blast
  next
    case False
    with "8" show ?thesis by (auto split: if_splits)
  qed
qed (auto split: if_splits option.splits)

section \<open>Reading a written command\<close>

definition two_digits :: "nat \<Rightarrow> string" where
  "two_digits n = [digit_char (n div 10), digit_char (n mod 10)]"

text \<open>Inside double quotes a backslash goes before a double quote and before a backslash.\<close>

definition shell_escape :: "string \<Rightarrow> string" where
  "shell_escape s = concat (map (\<lambda>c. if c = CHR 0x22 \<or> c = backslash then [backslash, c] else [c]) s)"

definition clock_word :: "nat \<Rightarrow> nat \<Rightarrow> string" where
  "clock_word h m = two_digits h @ '':'' @ two_digits m"

definition render_command :: "string \<Rightarrow> string \<Rightarrow> string" where
  "render_command pickup note = ''pickup='' @ pickup
     @ '' note='' @ [CHR 0x22] @ shell_escape note @ [CHR 0x22]"

definition plain_char :: "char \<Rightarrow> bool" where
  "plain_char c \<longleftrightarrow> \<not> lex_blank c \<and> \<not> lex_quote c \<and> c \<noteq> backslash"

lemmas lex_char_defs = plain_char_def lex_blank_def lex_quote_def backslash_def

lemma shlex_plain: "list_all plain_char w \<Longrightarrow> shlex InWord quoted tok (w @ rest) = shlex InWord quoted (tok @ w) rest"
  by (induction w arbitrary: tok) (auto simp: plain_char_def)

lemma shlex_plain_word: "list_all plain_char w \<Longrightarrow> w \<noteq> [] \<Longrightarrow> shlex Blank quoted tok (w @ rest) = shlex InWord False w rest"
  by (cases w) (auto simp: plain_char_def [symmetric] shlex_plain, auto simp: plain_char_def)

lemma shlex_quoted: "shlex (InQuote (CHR 0x22)) quoted tok (shell_escape s @ CHR 0x22 # rest) = shlex InWord True (tok @ s) rest"
  by (induction s arbitrary: quoted tok) (auto simp: shell_escape_def backslash_def)

lemma digit_plain_table: "list_all (\<lambda>d. plain_char (digit_char d) \<and> digit_char d \<noteq> CHR '':'' \<and> digit_char d \<noteq> CHR ''='') [0..<10]"
  by (simp add: upt_rec digit_char_def lex_char_defs)

lemma digit_plain: "d < 10 \<Longrightarrow> plain_char (digit_char d) \<and> digit_char d \<noteq> CHR '':'' \<and> digit_char d \<noteq> CHR ''=''"
  using digit_plain_table by (auto simp: list_all_iff)

lemma two_digits_int:
  assumes "n < 100"
  shows "py_int 10 (two_digits n) = Some (int n)"
proof -
  have d: "n div 10 < 10" "n mod 10 < 10" using assms by linarith simp
  have "py_int 10 (two_digits n) = map_option int (int_body 10 False 0 (two_digits n))"
  proof (rule py_int_digits)
    show "\<exists>d < 16. c = digit_char d" if "c \<in> set (two_digits n)" for c
    proof -
      have "n div 10 < 16" "n mod 10 < 16" using d by linarith+
      then show ?thesis using that by (auto simp: two_digits_def)
    qed
  qed (simp add: two_digits_def)
  then show ?thesis using d by (simp add: two_digits_def digit_char_facts)
qed

lemma clock_time:
  assumes "h < 100" and "m < 100"
  shows "split_on (CHR '':'') (two_digits h @ '':'' @ two_digits m) = [two_digits h, two_digits m]"
    and "py_strip (two_digits h @ '':'' @ two_digits m) = two_digits h @ '':'' @ two_digits m"
    and "list_all plain_char (two_digits h @ '':'' @ two_digits m)"
proof -
  have d: "h div 10 < 10" "h mod 10 < 10" "m div 10 < 10" "m mod 10 < 10" using assms by (linarith, simp, linarith, simp)
  then show "split_on (CHR '':'') (two_digits h @ '':'' @ two_digits m) = [two_digits h, two_digits m]"
    using digit_plain by (simp add: two_digits_def)
  show "list_all plain_char (two_digits h @ '':'' @ two_digits m)"
    using d digit_plain by (simp add: two_digits_def) (simp add: lex_char_defs)
  have "\<not> py_isspace (digit_char k)" if "k < 10" for k using that by (simp add: digit_char_facts)
  then show "py_strip (two_digits h @ '':'' @ two_digits m) = two_digits h @ '':'' @ two_digits m"
    using d by (intro py_strip_fixed) (auto simp: two_digits_def, simp add: py_isspace_def)
qed

lemma shlex_next: "shlex InWord quoted tok (CHR '' '' # cs) = map_sum id (\<lambda>ts. end_word quoted tok @ ts) (shlex Blank False [] cs)"
  by (simp add: lex_blank_def)

lemma shlex_open: "shlex InWord quoted tok (CHR 0x22 # cs) = shlex (InQuote (CHR 0x22)) quoted tok cs"
  by (simp add: lex_char_defs)

lemma shlex_render:
  assumes "list_all plain_char pickup"
  shows "shlex_split (render_command pickup note) = Inr [''pickup='' @ pickup, ''note='' @ note]"
proof -
  let ?p = "''pickup='' @ pickup"
  have p: "list_all plain_char ?p" "?p \<noteq> []" "list_all plain_char ''note=''" and note_eq: "''note='' \<noteq> ([] :: string)"
    using assms by (simp_all add: lex_char_defs)
  have ew: "end_word False ?p = [?p]" by (simp add: end_word_def)
  have "shlex_split (render_command pickup note)
      = shlex Blank False [] (?p @ CHR '' '' # ''note='' @ CHR 0x22 # shell_escape note @ CHR 0x22 # [])"
    by (simp add: shlex_split_def render_command_def)
  also have "\<dots> = map_sum id (\<lambda>ts. [?p] @ ts) (shlex Blank False [] (''note='' @ CHR 0x22 # shell_escape note @ CHR 0x22 # []))"
    unfolding shlex_plain_word [OF p(1,2)] shlex_next ew ..
  also have "\<dots> = map_sum id (\<lambda>ts. [?p] @ ts) (shlex InWord True (''note='' @ note) [])"
    unfolding shlex_plain_word [OF p(3) note_eq] shlex_open shlex_quoted ..
  finally show ?thesis by (simp add: end_word_def)
qed

lemma parse_render:
  assumes pickup: "list_all plain_char pickup" "py_strip pickup = pickup" "parse_pickup_time clk pickup = Some d"
    and remark: "py_strip note = note" "length note \<le> 120"
  shows "parse_command_text clk (render_command pickup note)
    = Inr \<lparr>opt_pickup_time = Some d, opt_pickup_note = Some note, opt_errors = None\<rparr>"
proof -
  have strip: "py_strip (render_command pickup note) = render_command pickup note"
    unfolding py_strip_def by (rule strip_by_fixed) (simp add: render_command_def py_isspace_def)
  have nonempty: "render_command pickup note \<noteq> []" by (simp add: render_command_def)
  have keys: "key_of (''pickup='' @ pickup) = ''pickup''" "value_of (''pickup='' @ pickup) = pickup"
    "key_of (''note='' @ note) = ''note''" "value_of (''note='' @ note) = note"
    using pickup(2) remark(1) by (simp_all add: key_of_def value_of_def split_once_def py_lower_def py_lower_char_def)
  have "token_pickup clk (''pickup='' @ pickup) = [d]" "token_note (''pickup='' @ pickup) = []"
    "token_error clk (''pickup='' @ pickup) = []"
    unfolding token_pickup_def token_note_def token_error_def keys pickup(3) by simp_all
  moreover have "token_pickup clk (''note='' @ note) = []"
    "token_note (''note='' @ note) = [note]" "token_error clk (''note='' @ note) = []"
    using remark(2) unfolding token_pickup_def token_note_def token_error_def keys by simp_all
  ultimately show ?thesis
    unfolding parse_command_spec strip shlex_render [OF pickup(1)] using nonempty by simp
qed

lemma parse_clock_word:
  assumes "h < 24" and "m < 60"
  shows "parse_pickup_time clk (clock_word h m) = Some (Aware (midnight clk + (int h * 60 + int m) * 60000000) 0)"
proof -
  have lt: "h < 100" "m < 100" using assms by simp_all
  have "length (clock_word h m) = 5" "clock_word h m ! 2 = CHR '':''" by (simp_all add: clock_word_def two_digits_def)
  then show ?thesis
    using clock_time(1) [OF lt] two_digits_int [OF lt(1)] two_digits_int [OF lt(2)] assms
    by (simp add: parse_pickup_time_def clock_word_def)
qed

lemma iso_char_plain: "iso_char c \<Longrightarrow> plain_char c \<and> \<not> py_isspace c"
  by (auto simp: iso_char_def digit_plain digit_char_facts(3)) (simp_all add: lex_char_defs py_isspace_def)

lemma isoformat_word:
  assumes "datetime_ok d"
  shows "list_all plain_char (isoformat d)" and "py_strip (isoformat d) = isoformat d"
    and "parse_pickup_time clk (isoformat d) = Some (case d of Aware t off \<Rightarrow> Aware t off | Naive t \<Rightarrow> Aware t 0)"
proof -
  show "list_all plain_char (isoformat d)"
    using isoformat_chars [OF assms] by (rule list.pred_mono_strong) (simp add: iso_char_plain)
  show "py_strip (isoformat d) = isoformat d"
    using isoformat_chars [OF assms] by (intro py_strip_fixed) (simp add: list_all_iff iso_char_plain)
  show "parse_pickup_time clk (isoformat d) = Some (case d of Aware t off \<Rightarrow> Aware t off | Naive t \<Rightarrow> Aware t 0)"
    using isoformat_long [OF assms] fromisoformat_isoformat [OF assms]
    by (simp add: parse_pickup_time_def split: datetime.splits)
qed

text \<open>
  Property C36. A command that is written is read back: for every note of at most 120 characters without blanks
  around it, whatever quotes, backslashes, equal signs and line breaks are in it, the text \<open>pickup=... note="..."\<close>,
  with the note escaped as the shell does, parses without an error into that very note and the pickup time that was
  written. Written as \<open>HH:MM\<close>, for every hour and minute of the day, it is that time of the current day in UTC; written
  with \<open>isoformat\<close>, for every timestamp of the years 1 to 9999 whose offset, if it has one, is none or at least a second and
  less than a day, it is the same instant with the same offset, or, without an offset, the same time in UTC.
\<close>

theorem command_roundtrip:
  assumes "py_strip note = note" and "length note \<le> 120"
  shows "(h < 24 \<and> m < 60 \<longrightarrow> parse_command_text clk (render_command (clock_word h m) note) = Inr
      \<lparr>opt_pickup_time = Some (Aware (midnight clk + (int h * 60 + int m) * 60000000) 0),
       opt_pickup_note = Some note, opt_errors = None\<rparr>)
    \<and> (datetime_ok d \<longrightarrow> parse_command_text clk (render_command (isoformat d) note) = Inr
      \<lparr>opt_pickup_time = Some (case d of Aware t off \<Rightarrow> Aware t off | Naive t \<Rightarrow> Aware t 0),
       opt_pickup_note = Some note, opt_errors = None\<rparr>)"
proof (intro conjI impI)
  assume hm: "h < 24 \<and> m < 60"
  then have lt: "h < 100" "m < 100" by simp_all
  show "parse_command_text clk (render_command (clock_word h m) note) = Inr
      \<lparr>opt_pickup_time = Some (Aware (midnight clk + (int h * 60 + int m) * 60000000) 0),
       opt_pickup_note = Some note, opt_errors = None\<rparr>"
    using clock_time(2,3) [OF lt] hm assms
    by (intro parse_render) (simp_all only: clock_word_def [symmetric] parse_clock_word)
next
  assume "datetime_ok d"
  then show "parse_command_text clk (render_command (isoformat d) note) = Inr
      \<lparr>opt_pickup_time = Some (case d of Aware t off \<Rightarrow> Aware t off | Naive t \<Rightarrow> Aware t 0),
       opt_pickup_note = Some note, opt_errors = None\<rparr>"
    using assms by (intro parse_render isoformat_word)
qed

theorem command_roundtrip_witness:
  "parse_command_text 0 (render_command (clock_word 9 30) ''a=b c'') = Inr
    \<lparr>opt_pickup_time = Some (Aware 34200000000 0), opt_pickup_note = Some ''a=b c'', opt_errors = None\<rparr>
   \<and> parse_command_text 0 (render_command (isoformat (Aware 1 19800000000)) ''a=b c'') = Inr
    \<lparr>opt_pickup_time = Some (Aware 1 19800000000), opt_pickup_note = Some ''a=b c'', opt_errors = None\<rparr>"
proof -
  have "py_strip ''a=b c'' = ''a=b c''" by (simp add: py_strip_def strip_by_def py_isspace_def)
  moreover have "datetime_ok (Aware 1 19800000000)"
    by (simp add: datetime_ok_def date_ok_def offset_ok_def microseconds_per_day_def epoch_ordinal_def max_ordinal_def)
  ultimately show ?thesis
    using command_roundtrip [of "''a=b c''" 9 30 0 "Aware 1 19800000000"] by (simp add: midnight_def)
qed

lemma parse_pickup_aware:
  assumes "parse_pickup_time clk v = Some d"
  shows "\<exists>t off. d = Aware t off"
proof (cases "length v = 5 \<and> v ! 2 = CHR '':''")
  case True
  then show ?thesis
    using assms unfolding parse_pickup_time_def
    by (cases "map (py_int 10) (split_on (CHR '':'') v)" rule: remdups_adj.cases)
      (auto split: if_splits option.splits list.splits)
next
  case False
  then show ?thesis
    using assms unfolding parse_pickup_time_def by (auto split: option.splits datetime.splits)
qed

lemma datetime_ok_utc: "date_ok t \<Longrightarrow> datetime_ok (Aware t 0)"
  by (simp add: datetime_ok_def offset_ok_def microseconds_per_day_def)

lemma parse_pickup_ok:
  assumes clk: "date_ok clk" and parsed: "parse_pickup_time clk v = Some d"
  shows "datetime_ok d"
proof (cases "length v = 5 \<and> v ! 2 = CHR '':''")
  case True
  then obtain h m where hm: "0 \<le> h" "h \<le> 23" "0 \<le> m" "m \<le> 59"
    and d: "d = Aware (midnight clk + (h * 60 + m) * 60000000) 0"
    using parsed unfolding parse_pickup_time_def
    by (cases "map (py_int 10) (split_on (CHR '':'') v)" rule: remdups_adj.cases)
      (auto split: if_splits option.splits list.splits)
  have "midnight clk = clk div microseconds_per_day * microseconds_per_day"
    unfolding midnight_def microseconds_per_day_def by (simp add: minus_mod_eq_div_mult)
  moreover have "0 \<le> (h * 60 + m) * 60000000" "(h * 60 + m) * 60000000 < microseconds_per_day"
    using hm by (simp_all add: microseconds_per_day_def)
  ultimately have "(midnight clk + (h * 60 + m) * 60000000) div microseconds_per_day = clk div microseconds_per_day"
    by (simp add: microseconds_per_day_def)
  then have "date_ok (midnight clk + (h * 60 + m) * 60000000)" using clk by (simp add: date_ok_def)
  then show ?thesis unfolding d by (rule datetime_ok_utc)
next
  case False
  then obtain d0 where read: "fromisoformat v = Some d0" and d: "d = (case d0 of Aware t off \<Rightarrow> Aware t off | Naive t \<Rightarrow> Aware t 0)"
    using parsed unfolding parse_pickup_time_def by (cases "fromisoformat v") (auto split: datetime.splits)
  from fromisoformat_ok [OF read] show ?thesis
    unfolding d by (cases d0) (auto simp: datetime_ok_def offset_ok_def microseconds_per_day_def)
qed

lemma last_or_in: "last_or None xs = Some x \<Longrightarrow> x \<in> set xs"
  by (auto simp: last_or_def split: if_splits)

lemma token_pickup_parsed: "d \<in> set (concat (map (token_pickup clk) toks)) \<Longrightarrow> \<exists>v. parse_pickup_time clk v = Some d"
  by (auto simp: token_pickup_def split: if_splits option.splits)

lemma token_note_short: "n \<in> set (concat (map token_note toks)) \<Longrightarrow> length n \<le> 120 \<and> py_strip n = n"
  by (auto simp: token_note_def value_of_def split: if_splits)

lemma parse_command_types:
  assumes "parse_command_text clk text = Inr o'"
  shows "opt_pickup_time o' = Some d \<Longrightarrow> \<exists>v. parse_pickup_time clk v = Some d"
    and "opt_pickup_note o' = Some n \<Longrightarrow> length n \<le> 120 \<and> py_strip n = n"
proof -
  have "o' = no_options \<or> (\<exists>toks. opt_pickup_time o' = last_or None (concat (map (token_pickup clk) toks))
      \<and> opt_pickup_note o' = last_or None (concat (map token_note toks)))"
    using assms by (auto simp: parse_command_spec split: if_splits) (cases "shlex_split (py_strip text)"; auto)
  then show "opt_pickup_time o' = Some d \<Longrightarrow> \<exists>v. parse_pickup_time clk v = Some d"
    and "opt_pickup_note o' = Some n \<Longrightarrow> length n \<le> 120 \<and> py_strip n = n"
    using last_or_in token_pickup_parsed token_note_short by (fastforce simp: no_options_def)+
qed

text \<open>
  Property C37. What a command text can come out as. Text that is not made of whole shell words, such as one with
  an unpaired apostrophe, raises a ValueError, and nothing else raises. Otherwise the settings are the last
  valid pickup time and the last valid note among the words that contain an equal sign, and the
  errors are exactly those of the words, in order: an unreadable time, a note above 120 characters, an unknown key.
  A time always carries its zone; a note is never longer than 120 characters and has no blanks around it.
\<close>

theorem parse_command_result:
  "(\<forall>e. parse_command_text clk text = Inl e \<longrightarrow> e = ValueError \<and> shlex_split (py_strip text) = Inl ValueError)
   \<and> (\<forall>o'. parse_command_text clk text = Inr o' \<longrightarrow>
        (py_strip text = [] \<and> o' = no_options
         \<or> (\<exists>toks. shlex_split (py_strip text) = Inr toks
            \<and> opt_pickup_time o' = last_or None (concat (map (token_pickup clk) toks))
            \<and> opt_pickup_note o' = last_or None (concat (map token_note toks))
            \<and> opt_errors o' = (let es = concat (map (token_error clk) toks) in if es = [] then None else Some es)))
      \<and> (has_errors o' \<longleftrightarrow> (\<exists>toks tok. shlex_split (py_strip text) = Inr toks \<and> tok \<in> set toks \<and> token_error clk tok \<noteq> []))
      \<and> (\<forall>d. opt_pickup_time o' = Some d \<longrightarrow> (\<exists>t off. d = Aware t off))
      \<and> (\<forall>n. opt_pickup_note o' = Some n \<longrightarrow> length n \<le> 120 \<and> py_strip n = n))"
proof (cases "py_strip text = []")
  case True
  then show ?thesis
    by (auto simp: parse_command_spec no_options_def has_errors_def shlex_split_def)
next
  case False
  show ?thesis
  proof (cases "shlex_split (py_strip text)")
    case (Inl e)
    then have "e = ValueError" by (auto simp: shlex_split_def dest: shlex_error)
    with False Inl show ?thesis by (simp add: parse_command_spec)
  next
    case (Inr toks)
    have times: "\<exists>t off. d = Aware t off" if "d \<in> set (concat (map (token_pickup clk) toks))" for d
      using token_pickup_parsed [OF that] parse_pickup_aware by blast
    show ?thesis
      using False Inr times token_note_short [of _ toks] last_or_in [of "concat (map (token_pickup clk) toks)"]
        last_or_in [of "concat (map token_note toks)"]
      by (auto simp: parse_command_spec has_errors_def Let_def)
  qed
qed

theorem parse_command_result_witness:
  "parse_command_text 0 [CHR 0x27] = Inl ValueError
   \<and> (\<exists>o'. parse_command_text 0 ''a=b note=x'' = Inr o' \<and> has_errors o' \<and> opt_pickup_note o' = Some ''x'')"
proof
  have apostrophe: "py_strip [CHR 0x27] = [CHR 0x27]" "shlex_split [CHR 0x27] = Inl ValueError"
    by (simp_all add: py_strip_def strip_by_def py_isspace_def shlex_split_def lex_char_defs)
  obtain e where e: "parse_command_text 0 [CHR 0x27] = Inl e"
    by (simp add: parse_command_text_def apostrophe)
  with parse_command_result [of 0 "[CHR 0x27]"]
  show "parse_command_text 0 [CHR 0x27] = Inl ValueError" by blast
  have toks: "py_strip ''a=b note=x'' = ''a=b note=x''" "shlex_split ''a=b note=x'' = Inr [''a=b'', ''note=x'']"
    by (simp_all add: py_strip_def strip_by_def py_isspace_def shlex_split_def lex_char_defs end_word_def)
  obtain o' where o': "parse_command_text 0 ''a=b note=x'' = Inr o'"
    by (simp add: parse_command_text_def toks Let_def)
  have "key_of ''a=b'' = ''a''" "key_of ''note=x'' = ''note''" "value_of ''note=x'' = ''x''"
    by (simp_all add: key_of_def value_of_def split_once_def py_lower_def py_lower_char_def py_strip_def strip_by_def py_isspace_def)
  then have "token_error 0 ''a=b'' \<noteq> []" "concat (map token_note [''a=b'', ''note=x'']) = [''x'']"
    by (simp_all add: token_error_def token_note_def)
  with parse_command_result [of 0 "''a=b note=x''"] o' toks
  have "has_errors o'" "opt_pickup_note o' = Some ''x''" by auto
  with o' show "\<exists>o'. parse_command_text 0 ''a=b note=x'' = Inr o' \<and> has_errors o' \<and> opt_pickup_note o' = Some ''x''"
    by blast
qed

end
