(* ===== verification/SlackRuns.thy ===== *)
theory SlackRuns
  imports SlackCommand Dates Reminders
begin

text \<open>
  Starting a run from Slack: the service (\<open>api/slack_runs/service.py\<close>) with the row it stores
  (\<open>models/run.py\<close>) and the event it publishes (\<open>events/run.py\<close>, \<open>infra/kafka.py\<close>), the message it answers with
  (\<open>api/slack_runs/messages.py\<close>), the session around a request (\<open>api/slack_runs/dependencies.py\<close>) and the
  endpoint (\<open>api/slack_runs/router.py\<close>), with the settings (\<open>config.py\<close>) and \<open>create_app\<close>.

  The state of a request is the table \<open>runs\<close> as committed and as the session sees it, the clock, the source of
  \<open>uuid4\<close>, and the broker with what it took. How the k-th call of the broker ends, and how the commit ends, are
  fields of the state.
\<close>

section \<open>Data\<close>

record slack_command =
  cmd_token :: string
  cmd_team_id :: string
  cmd_channel_id :: string
  cmd_channel_name :: string
  cmd_user_id :: string
  cmd_user_name :: string
  cmd_text :: string
  cmd_trigger_id :: string
  cmd_response_url :: string

record slack_run =
  sr_id :: string
  sr_channel_id :: string
  sr_initiator_user_id :: string
  sr_status :: string
  sr_pickup_time :: "datetime option"
  sr_pickup_note :: "string option"
  sr_correlation_id :: string
  sr_started_at :: time
  sr_created_at :: time
  sr_updated_at :: time

record run_created_event =
  rce_run_id :: string
  rce_channel_id :: string
  rce_initiator_user_id :: string
  rce_pickup_time :: "string option"
  rce_pickup_note :: "string option"
  rce_correlation_id :: string
  rce_created_at :: string

definition to_payload :: "run_created_event \<Rightarrow> (string \<times> json) list" where
  "to_payload e = [(''run_id'', JStr (rce_run_id e)), (''channel_id'', JStr (rce_channel_id e)),
     (''initiator_user_id'', JStr (rce_initiator_user_id e)), (''pickup_time'', opt_json (rce_pickup_time e)),
     (''pickup_note'', opt_json (rce_pickup_note e)), (''correlation_id'', JStr (rce_correlation_id e)),
     (''created_at'', JStr (rce_created_at e))]"

text \<open>
  How one call of the broker ends, \<open>send\<close> and then \<open>future.get(timeout=10)\<close>: acknowledged; refused with an exception; or with an
  exception although the broker took, or will still take, the event, as when the acknowledgement comes after the timeout.
\<close>

datatype delivery = Acknowledged | Refused exn | Unconfirmed exn

fun broker_took :: "delivery \<Rightarrow> bool" where
  "broker_took Acknowledged = True"
| "broker_took (Refused e) = False"
| "broker_took (Unconfirmed e) = True"

fun delivery_error :: "delivery \<Rightarrow> outcome" where
  "delivery_error Acknowledged = None"
| "delivery_error (Refused e) = Some e"
| "delivery_error (Unconfirmed e) = Some e"

lemma delivery_error_None: "delivery_error x = None \<longleftrightarrow> x = Acknowledged"
  by (cases x) simp_all

record request_state =
  sl_committed :: "slack_run list"
  sl_rows :: "slack_run list"
  sl_clock :: "nat \<Rightarrow> time"
  sl_ticks :: nat
  sl_uuids :: "nat \<Rightarrow> uuid"
  sl_drawn :: nat
  sl_publish :: "nat \<Rightarrow> delivery"
  sl_calls :: nat
  sl_published :: "(string \<times> bytes \<times> (string \<times> json) list) list"
  sl_commit :: outcome
  sl_closed :: nat

text \<open>
  \<open>KafkaRunEventPublisher\<close>: the arguments of its producer, and its serializer, \<open>json.dumps\<close> with compact separators, which
  escapes everything outside printable ASCII.
\<close>

definition publisher_arguments :: "string \<Rightarrow> (string \<times> json) list" where
  "publisher_arguments servers = [(''bootstrap_servers'', JStr servers), (''linger_ms'', JInt 10), (''retries'', JInt 5)]"

definition json_char :: "char \<Rightarrow> string" where
  "json_char c =
     (if c = CHR 0x22 \<or> c = backslash then [backslash, c]
      else if c = CHR 0x0A then [backslash, CHR ''n'']
      else if c = CHR 0x0D then [backslash, CHR ''r'']
      else if c = CHR 0x09 then [backslash, CHR ''t'']
      else if c = CHR 0x0C then [backslash, CHR ''f'']
      else if c = CHR 0x08 then [backslash, CHR ''b'']
      else if 32 \<le> (of_char c :: nat) \<and> (of_char c :: nat) < 127 then [c]
      else backslash # CHR ''u'' # hex_str 4 (of_char c))"

definition json_text :: "string \<Rightarrow> string" where
  "json_text s = CHR 0x22 # concat (map json_char s) @ [CHR 0x22]"

definition comma_join :: "string list \<Rightarrow> string" where
  "comma_join xs = (case xs of [] \<Rightarrow> [] | x # rest \<Rightarrow> x @ concat (map (\<lambda>y. CHR '','' # y) rest))"

fun json_dumps :: "json \<Rightarrow> string" where
  "json_dumps JNull = ''null''"
| "json_dumps (JBool b) = (if b then ''true'' else ''false'')"
| "json_dumps (JInt i) = int_str i"
| "json_dumps (JStr s) = json_text s"
| "json_dumps (JArr xs) = ''['' @ comma_join (map json_dumps xs) @ '']''"
| "json_dumps (JObj kvs) = ''{'' @ comma_join (map (\<lambda>kv. json_text (fst kv) @ '':'' @ json_dumps (snd kv)) kvs) @ ''}''"

definition serialize_event :: "(string \<times> json) list \<Rightarrow> bytes" where
  "serialize_event payload = utf8_encode (json_dumps (JObj payload))"

section \<open>The message\<close>

definition mrkdwn :: "string \<Rightarrow> json" where
  "mrkdwn t = JObj [(''type'', JStr ''mrkdwn''), (''text'', JStr t)]"

definition button :: "string \<Rightarrow> (string \<times> json) list \<Rightarrow> string \<Rightarrow> json" where
  "button label style action = JObj ([(''type'', JStr ''button''),
     (''text'', JObj [(''type'', JStr ''plain_text''), (''text'', JStr label)])] @ style @ [(''action_id'', JStr action)])"

definition newline :: string where "newline = [CHR 0x0A]"

text \<open>The cup in the header is written as its JSON escape: it lies above the characters of the model.\<close>

definition header_text :: string where
  "header_text = backslash # ''u2615 Coffee run started!''"

text \<open>
  \<open>astimezone(utc)\<close>: a naive time is read in the zone of the system, which \<open>zone\<close> gives; the result must be
  a \<open>datetime\<close>.
\<close>

definition to_utc :: "(time \<Rightarrow> time) \<Rightarrow> datetime \<Rightarrow> exn + time" where
  "to_utc zone d = (let t = (case d of Naive n \<Rightarrow> zone n | Aware i _ \<Rightarrow> i) in
     if datetime_range t then Inr t else Inl OverflowError)"

definition pickup_block :: "(time \<Rightarrow> time) \<Rightarrow> datetime option \<Rightarrow> exn + json list" where
  "pickup_block zone p = (case p of
       None \<Rightarrow> Inr []
     | Some d \<Rightarrow> map_sum id (\<lambda>t. [JObj [(''type'', JStr ''section''),
         (''fields'', JArr [mrkdwn (''*Pickup time*'' @ newline @ pickup_display t)])]]) (to_utc zone d))"

definition note_block :: "string option \<Rightarrow> json list" where
  "note_block n = (if truthy n then [JObj [(''type'', JStr ''section''),
     (''text'', mrkdwn (''*Pickup note*'' @ newline @ (case n of None \<Rightarrow> [] | Some s \<Rightarrow> s)))]] else [])"

definition code_span :: "string \<Rightarrow> string" where
  "code_span s = CHR 0x60 # s @ [CHR 0x60]"

definition build_run_created :: "(time \<Rightarrow> time) \<Rightarrow> slack_run \<Rightarrow> exn + json" where
  "build_run_created zone r =
     (case pickup_block zone (sr_pickup_time r) of
        Inl e \<Rightarrow> Inl e
      | Inr pickup \<Rightarrow> Inr (JObj [(''response_type'', JStr ''in_channel''), (''text'', JStr ''Coffee run is live.''),
          (''blocks'', JArr (
             [JObj [(''type'', JStr ''header''), (''text'', JObj [(''type'', JStr ''plain_text''),
                (''text'', JStr header_text), (''emoji'', JBool True)])],
              JObj [(''type'', JStr ''section''), (''fields'', JArr
                [mrkdwn (''*Channel*'' @ newline @ ''<'' @ sr_channel_id r @ ''>''),
                 mrkdwn (''*Initiator*'' @ newline @ ''<@'' @ sr_initiator_user_id r @ ''>'')])],
              JObj [(''type'', JStr ''context''), (''elements'', JArr
                [mrkdwn (''Run ID: '' @ code_span (sr_id r)), mrkdwn (''Correlation: '' @ code_span (sr_correlation_id r))])]]
             @ pickup @ note_block (sr_pickup_note r)
             @ [JObj [(''type'', JStr ''actions''), (''elements'', JArr
                  [button ''Place order'' [] ''order:new'', button ''Use last order'' [] ''order:reuse'',
                   button ''Close run'' [(''style'', JStr ''danger'')] ''run:close''])]]))]))"

section \<open>SlackRunCommandService\<close>

definition tick :: "(request_state, exn, time) op" where
  "tick s = (Inr (sl_clock s (sl_ticks s)), s\<lparr>sl_ticks := Suc (sl_ticks s)\<rparr>)"

definition draw_id :: "(request_state, exn, string) op" where
  "draw_id s = (Inr (uuid_str (sl_uuids s (sl_drawn s))), s\<lparr>sl_drawn := Suc (sl_drawn s)\<rparr>)"

text \<open>The INSERT of the flush: the primary key must be new, and each text must fit its column.\<close>

definition row_fits :: "slack_run \<Rightarrow> bool" where
  "row_fits r \<longleftrightarrow> length (sr_id r) \<le> 36 \<and> length (sr_channel_id r) \<le> 32 \<and> length (sr_initiator_user_id r) \<le> 32
     \<and> length (sr_status r) \<le> 16 \<and> (\<forall>n \<in> set_option (sr_pickup_note r). length n \<le> 200) \<and> length (sr_correlation_id r) \<le> 36"

definition add_run :: "slack_run \<Rightarrow> (request_state, exn, unit) op" where
  "add_run r s =
     (if lookup_by sr_id (sr_id r) (sl_rows s) \<noteq> None then (Inl IntegrityError, s)
      else if \<not> row_fits r then (Inl (ExternalError ''DataError''), s)
      else (Inr (), s\<lparr>sl_rows := append_row r (sl_rows s)\<rparr>))"

text \<open>\<open>KafkaRunEventPublisher.publish_run_created\<close>: send and wait for the broker.\<close>

definition publish_run_created :: "string \<Rightarrow> run_created_event \<Rightarrow> (request_state, exn, unit) op" where
  "publish_run_created topic ev s =
     (let result = sl_publish s (sl_calls s);
          message = (topic, utf8_encode (rce_run_id ev), to_payload ev);
          s1 = s\<lparr>sl_calls := Suc (sl_calls s), sl_published := sl_published s @ (if broker_took result then [message] else [])\<rparr>
      in case delivery_error result of None \<Rightarrow> (Inr (), s1) | Some e \<Rightarrow> (Inl e, s1))"

definition new_run :: "slack_command \<Rightarrow> run_command_options \<Rightarrow> time \<Rightarrow> string \<Rightarrow> string \<Rightarrow> slack_run" where
  "new_run cmd opts t i corr = \<lparr>sr_id = i, sr_channel_id = cmd_channel_id cmd, sr_initiator_user_id = cmd_user_id cmd,
     sr_status = ''open'', sr_pickup_time = opt_pickup_time opts, sr_pickup_note = opt_pickup_note opts,
     sr_correlation_id = corr, sr_started_at = t, sr_created_at = t, sr_updated_at = t\<rparr>"

definition created_event :: "slack_run \<Rightarrow> run_created_event" where
  "created_event r = \<lparr>rce_run_id = sr_id r, rce_channel_id = sr_channel_id r, rce_initiator_user_id = sr_initiator_user_id r,
     rce_pickup_time = map_option isoformat (sr_pickup_time r), rce_pickup_note = sr_pickup_note r,
     rce_correlation_id = sr_correlation_id r, rce_created_at = isoformat (Aware (sr_started_at r) 0)\<rparr>"

definition handle_command :: "(time \<Rightarrow> time) \<Rightarrow> string \<Rightarrow> slack_command \<Rightarrow> run_command_options \<Rightarrow> (request_state, exn, json) op" where
  "handle_command zone topic cmd opts =
     bindE tick (\<lambda>t.
     bindE draw_id (\<lambda>i.
     bindE draw_id (\<lambda>corr.
     let r = new_run cmd opts t i corr in
     bindE (add_run r) (\<lambda>_.
     bindE (publish_run_created topic (created_event r)) (\<lambda>_.
     liftE (build_run_created zone r))))))"

section \<open>The session of a request\<close>

text \<open>
  \<open>_session_manager\<close>: run the body, commit; on an Exception of the body or of the commit roll back and raise it again;
  close the session in every case, which discards what was not committed.
\<close>

definition close_session :: "request_state \<Rightarrow> request_state" where
  "close_session s = s\<lparr>sl_rows := sl_committed s, sl_closed := Suc (sl_closed s)\<rparr>"

definition rollback :: "request_state \<Rightarrow> request_state" where
  "rollback s = s\<lparr>sl_rows := sl_committed s\<rparr>"

definition commit :: "(request_state, exn, unit) op" where
  "commit s = (case sl_commit s of None \<Rightarrow> (Inr (), s\<lparr>sl_committed := sl_rows s\<rparr>) | Some e \<Rightarrow> (Inl e, s))"

definition with_session :: "(request_state, exn, 'a) op \<Rightarrow> (request_state, exn, 'a) op" where
  "with_session body s =
     (case bindE body (\<lambda>x. bindE commit (\<lambda>_. returnE x)) (s\<lparr>sl_rows := sl_committed s\<rparr>) of
        (Inr x, s1) \<Rightarrow> (Inr x, close_session s1)
      | (Inl e, s1) \<Rightarrow> (Inl e, close_session (if caught e then rollback s1 else s1)))"

section \<open>Settings and dependencies\<close>

record settings =
  slack_signing_secret :: string
  database_url :: string
  kafka_bootstrap_servers :: string
  run_events_topic :: string
  app_name :: string
  slack_timestamp_tolerance_seconds :: int

text \<open>
  The settings from the environment: required names, defaults, and the minimal length of the secret. A variable has
  the prefix \<open>COFFEEBUDDY_\<close>; \<open>env\<close> holds the rest of its name in upper case. How pydantic reads an integer is
  \<open>co_int\<close>.
\<close>

definition load_settings :: "coercions \<Rightarrow> env \<Rightarrow> exn + settings" where
  "load_settings P e =
     (case (map_of e ''SLACK_SIGNING_SECRET'', map_of e ''DATABASE_URL'', map_of e ''KAFKA_BOOTSTRAP_SERVERS'',
            case map_of e ''SLACK_TIMESTAMP_TOLERANCE_SECONDS'' of None \<Rightarrow> Some 300 | Some v \<Rightarrow> co_int P (PStr v)) of
        (Some secret, Some url, Some servers, Some tol) \<Rightarrow>
          if length secret < 16 then Inl ValueError
          else Inr \<lparr>slack_signing_secret = secret, database_url = url, kafka_bootstrap_servers = servers,
            run_events_topic = env_get e ''RUN_EVENTS_TOPIC'' ''coffeebuddy.run.events'',
            app_name = env_get e ''APP_NAME'' ''CoffeeBuddy'', slack_timestamp_tolerance_seconds = tol\<rparr>
      | _ \<Rightarrow> Inl ValueError)"

text \<open>
  The modules' state: the settings that \<open>get_settings\<close> of \<open>config.py\<close> has cached, and the dependencies. A factory is
  a database URL, a publisher is the topic it sends to.
\<close>

record dependencies =
  dep_cached :: "settings option"
  dep_settings :: "settings option"
  dep_factory :: "string option"
  dep_publisher :: "string option"

definition no_dependencies :: dependencies where
  "no_dependencies = \<lparr>dep_cached = None, dep_settings = None, dep_factory = None, dep_publisher = None\<rparr>"

definition configure_dependencies :: "settings \<Rightarrow> string \<Rightarrow> string \<Rightarrow> dependencies \<Rightarrow> dependencies" where
  "configure_dependencies st factory publisher d =
     d\<lparr>dep_settings := Some st, dep_factory := Some factory, dep_publisher := Some publisher\<rparr>"

definition get_settings :: "dependencies \<Rightarrow> exn + settings" where
  "get_settings d = (case dep_settings d of None \<Rightarrow> Inl (RuntimeError ''Slack run dependencies not configured'') | Some s \<Rightarrow> Inr s)"

definition get_run_event_publisher :: "dependencies \<Rightarrow> exn + string" where
  "get_run_event_publisher d = (case dep_publisher d of None \<Rightarrow> Inl (RuntimeError ''Run event publisher not configured'') | Some p \<Rightarrow> Inr p)"

definition get_session :: "dependencies \<Rightarrow> (request_state, exn, 'a) op \<Rightarrow> (request_state, exn, 'a) op" where
  "get_session d body = (case dep_factory d of
       None \<Rightarrow> raiseE (RuntimeError ''Session factory not configured'')
     | Some _ \<Rightarrow> with_session body)"

text \<open>\<open>lru_cache\<close>: settings that were loaded are kept; an exception is not.\<close>

definition cached_settings :: "coercions \<Rightarrow> env \<Rightarrow> (dependencies, exn, settings) op" where
  "cached_settings P e =
     bindE (getE dep_cached) (\<lambda>cached.
     case cached of
       Some st \<Rightarrow> returnE st
     | None \<Rightarrow>
         bindE (liftE (load_settings P e)) (\<lambda>st.
         bindE (modifyE (\<lambda>d. d\<lparr>dep_cached := Some st\<rparr>)) (\<lambda>_. returnE st)))"

text \<open>\<open>create_app\<close>: what is not given is built from the settings.\<close>

definition create_app :: "coercions \<Rightarrow> env \<Rightarrow> settings option \<Rightarrow> string option \<Rightarrow> string option \<Rightarrow> (dependencies, exn, unit) op" where
  "create_app P e given factory publisher =
     bindE (case given of Some st \<Rightarrow> returnE st | None \<Rightarrow> cached_settings P e) (\<lambda>st.
     modifyE (configure_dependencies st (case factory of Some f \<Rightarrow> f | None \<Rightarrow> database_url st)
       (case publisher of Some p \<Rightarrow> p | None \<Rightarrow> run_events_topic st)))"

text \<open>The environment is read once: a second app has the settings of the first, whatever the environment says then.\<close>

lemma create_app_cached:
  assumes "create_app P e None f p d = (Inr (), d1)"
  shows "dep_settings (snd (create_app P e' None f' p' d1)) = dep_settings d1"
  using assms
  by (auto simp: create_app_def cached_settings_def configure_dependencies_def bindE_def op_simps split: option.splits sum.splits)

section \<open>The endpoint\<close>

record slack_request =
  rq_timestamp :: "string option"
  rq_signature :: "string option"
  rq_body :: bytes

definition command_of :: "(string \<times> string) list \<Rightarrow> slack_command" where
  "command_of payload = (let get = (\<lambda>k. env_get payload k []) in
     \<lparr>cmd_token = get ''token'', cmd_team_id = get ''team_id'', cmd_channel_id = get ''channel_id'',
      cmd_channel_name = get ''channel_name'', cmd_user_id = get ''user_id'', cmd_user_name = get ''user_name'',
      cmd_text = get ''text'', cmd_trigger_id = get ''trigger_id'', cmd_response_url = get ''response_url''\<rparr>)"

definition join_lines :: "string list \<Rightarrow> string" where
  "join_lines ls = (case ls of [] \<Rightarrow> [] | l # rest \<Rightarrow> l @ concat (map (\<lambda>x. newline @ x) rest))"

definition ephemeral :: "string list \<Rightarrow> json" where
  "ephemeral es = JObj [(''response_type'', JStr ''ephemeral''), (''text'', JStr (join_lines es))]"

definition http_error :: "exn \<Rightarrow> exn" where
  "http_error e = (case e of SlackVerificationError m \<Rightarrow> HTTPException 401 m | _ \<Rightarrow> e)"

text \<open>
  What the standard library answers is one argument: the codec and the system's zone. \<open>t0\<close> and \<open>t1\<close>
  are the clock when the signature is checked and when the text is parsed.
\<close>

record environment =
  en_codec :: codec
  en_zone :: "time \<Rightarrow> time"

definition read_command :: "environment \<Rightarrow> time \<Rightarrow> time \<Rightarrow> settings \<Rightarrow> slack_request \<Rightarrow> exn + (slack_command \<times> run_command_options)" where
  "read_command en t0 t1 st rq =
     (case verify (en_codec en) (make_verifier (slack_signing_secret st) (slack_timestamp_tolerance_seconds st)) t0
             (rq_timestamp rq) (rq_signature rq) (rq_body rq) of
        Inl e \<Rightarrow> Inl (http_error e)
      | Inr _ \<Rightarrow> (case parse_form_payload (en_codec en) (rq_body rq) of
            Inl e \<Rightarrow> Inl e
          | Inr payload \<Rightarrow> (case parse_command_text t1 (cmd_text (command_of payload)) of
                Inl e \<Rightarrow> Inl e
              | Inr opts \<Rightarrow> Inr (command_of payload, opts))))"

definition handle_slack_command :: "environment \<Rightarrow> time \<Rightarrow> time \<Rightarrow> settings \<Rightarrow> string \<Rightarrow> slack_request \<Rightarrow> (request_state, exn, json) op" where
  "handle_slack_command en t0 t1 st topic rq =
     bindE (liftE (read_command en t0 t1 st rq)) (\<lambda>(cmd, opts).
     if has_errors opts
     then returnE (ephemeral (case opt_errors opts of None \<Rightarrow> [] | Some es \<Rightarrow> es))
     else handle_command (en_zone en) topic cmd opts)"

text \<open>The request as the framework runs it: the dependencies in the order of the parameters, then the handler.\<close>

definition post_slack_commands :: "environment \<Rightarrow> time \<Rightarrow> time \<Rightarrow> dependencies \<Rightarrow> slack_request \<Rightarrow> (request_state, exn, json) op" where
  "post_slack_commands en t0 t1 d rq =
     get_session d (
       bindE (liftE (get_run_event_publisher d)) (\<lambda>topic.
       bindE (liftE (get_settings d)) (\<lambda>st.
       handle_slack_command en t0 t1 st topic rq)))"

section \<open>What a request does\<close>

lemma handle_command_run: "handle_command zone topic cmd opts s =
    (let r = new_run cmd opts (sl_clock s (sl_ticks s)) (uuid_str (sl_uuids s (sl_drawn s))) (uuid_str (sl_uuids s (Suc (sl_drawn s))));
         s1 = s\<lparr>sl_ticks := Suc (sl_ticks s), sl_drawn := Suc (Suc (sl_drawn s))\<rparr>
     in if lookup_by sr_id (sr_id r) (sl_rows s) \<noteq> None then (Inl IntegrityError, s1)
        else if \<not> row_fits r then (Inl (ExternalError ''DataError''), s1)
        else let s2 = s1\<lparr>sl_rows := append_row r (sl_rows s), sl_calls := Suc (sl_calls s),
                     sl_published := sl_published s @ (if broker_took (sl_publish s (sl_calls s))
                       then [(topic, utf8_encode (sr_id r), to_payload (created_event r))] else [])\<rparr>
             in case delivery_error (sl_publish s (sl_calls s)) of
                  Some e \<Rightarrow> (Inl e, s2)
                | None \<Rightarrow> (build_run_created zone r, s2))"
  by (simp add: handle_command_def tick_def draw_id_def add_run_def publish_run_created_def created_event_def
      bindE_def op_simps split: option.splits)

lemma with_session_Inr: "body (s\<lparr>sl_rows := sl_committed s\<rparr>) = (Inr x, s1) \<Longrightarrow> with_session body s =
    (case sl_commit s1 of
       None \<Rightarrow> (Inr x, s1\<lparr>sl_committed := sl_rows s1, sl_closed := Suc (sl_closed s1)\<rparr>)
     | Some e \<Rightarrow> (Inl e, s1\<lparr>sl_rows := sl_committed s1, sl_closed := Suc (sl_closed s1)\<rparr>))"
  by (auto simp: with_session_def commit_def bindE_def close_session_def rollback_def op_simps split: option.splits)

lemma with_session_Inl: "body (s\<lparr>sl_rows := sl_committed s\<rparr>) = (Inl e, s1) \<Longrightarrow> with_session body s =
    (Inl e, s1\<lparr>sl_rows := sl_committed s1, sl_closed := Suc (sl_closed s1)\<rparr>)"
  by (auto simp: with_session_def commit_def bindE_def close_session_def rollback_def op_simps)

lemma with_session_run: "with_session body s =
    (case body (s\<lparr>sl_rows := sl_committed s\<rparr>) of
       (Inl e, s1) \<Rightarrow> (Inl e, s1\<lparr>sl_rows := sl_committed s1, sl_closed := Suc (sl_closed s1)\<rparr>)
     | (Inr x, s1) \<Rightarrow> (case sl_commit s1 of
         None \<Rightarrow> (Inr x, s1\<lparr>sl_committed := sl_rows s1, sl_closed := Suc (sl_closed s1)\<rparr>)
       | Some e \<Rightarrow> (Inl e, s1\<lparr>sl_rows := sl_committed s1, sl_closed := Suc (sl_closed s1)\<rparr>)))"
  by (auto simp: with_session_Inl with_session_Inr split: prod.splits sum.splits)

text \<open>The session is a unit of work for every handler that does not write past it.\<close>

definition writes_session_only :: "(request_state, exn, 'a) op \<Rightarrow> bool" where
  "writes_session_only f \<longleftrightarrow> (\<forall>s. sl_committed (snd (f s)) = sl_committed s)"

interpretation request: unit_of_work with_session sl_committed sl_rows
  "\<lambda>s. s\<lparr>sl_rows := sl_committed s\<rparr>" writes_session_only
proof unfold_locales
  fix f :: "(request_state, exn, 'a) op" and s assume "writes_session_only f"
  then have kept: "sl_committed (snd (f (s\<lparr>sl_rows := sl_committed s\<rparr>))) = sl_committed s"
    by (simp add: writes_session_only_def)
  show "\<exists>s1. f (s\<lparr>sl_rows := sl_committed s\<rparr>) = (Inr x, s1) \<and> sl_committed s' = sl_rows s1"
    if "with_session f s = (Inr x, s')" for x s'
    using that by (auto simp: with_session_run split: prod.splits sum.splits option.splits)
  show "sl_committed s' = sl_committed s" if "with_session f s = (Inl e, s')" for e s'
    using that kept by (auto simp: with_session_run split: prod.splits sum.splits option.splits)
qed

lemma handler_writes_session_only: "writes_session_only (handle_slack_command en t0 t1 st topic rq)"
  by (simp add: writes_session_only_def handle_slack_command_def handle_command_run bindE_def op_simps
      split: sum.splits prod.splits option.splits)

text \<open>No request makes a run identifier occur twice.\<close>

lemma requests_keep_ids:
  assumes "distinct (map sr_id (sl_committed s))"
  shows "distinct (map sr_id (sl_committed (snd (with_session (handle_slack_command en t0 t1 st topic rq) s))))"
proof (rule request.carries [where R = "\<lambda>_ d'. distinct (map sr_id d')", OF handler_writes_session_only assms])
  fix x s1
  assume run: "handle_slack_command en t0 t1 st topic rq (s\<lparr>sl_rows := sl_committed s\<rparr>) = (Inr x, s1)"
  then have "sl_rows s1 = sl_committed s \<or> (\<exists>r. lookup_by sr_id (sr_id r) (sl_committed s) = None \<and> sl_rows s1 = append_row r (sl_committed s))"
    by (auto simp: handle_slack_command_def handle_command_run bindE_def op_simps
        split: sum.splits prod.splits option.splits if_splits)
  then show "distinct (map sr_id (sl_rows s1))"
    using assms by (fastforce simp: lookup_by_None append_row_def image_iff)
qed

definition the_run :: "slack_command \<Rightarrow> run_command_options \<Rightarrow> request_state \<Rightarrow> slack_run" where
  "the_run cmd opts s = new_run cmd opts (sl_clock s (sl_ticks s)) (uuid_str (sl_uuids s (sl_drawn s)))
     (uuid_str (sl_uuids s (Suc (sl_drawn s))))"

definition event_message :: "string \<Rightarrow> slack_run \<Rightarrow> string \<times> bytes \<times> (string \<times> json) list" where
  "event_message topic r = (topic, utf8_encode (sr_id r), to_payload (created_event r))"

definition storable :: "slack_run \<Rightarrow> slack_run list \<Rightarrow> bool" where
  "storable r rows \<longleftrightarrow> lookup_by sr_id (sr_id r) rows = None \<and> row_fits r"

definition answered :: "exn + json \<Rightarrow> outcome \<Rightarrow> exn + json" where
  "answered r commit_result = (case r of Inl e \<Rightarrow> Inl e | Inr x \<Rightarrow> (case commit_result of None \<Rightarrow> Inr x | Some e \<Rightarrow> Inl e))"

lemma bindE_lifted: "bindE (liftE (Inr x)) f = f x"
  by (rule ext) (simp add: bindE_def liftE_def)

lemma post_configured:
  assumes "dep_settings d = Some st" and "dep_factory d = Some f" and "dep_publisher d = Some topic"
  shows "post_slack_commands en t0 t1 d rq s = with_session (handle_slack_command en t0 t1 st topic rq) s"
  using assms
  by (simp add: post_slack_commands_def get_session_def get_run_event_publisher_def get_settings_def bindE_lifted)

text \<open>How a request to start a run ends, once its command has been read without an error.\<close>

lemma request_started:
  assumes read: "read_command en t0 t1 st rq = Inr (cmd, opts)" and ok: "\<not> has_errors opts"
    and r: "r = the_run cmd opts s"
  shows "\<exists>s'. with_session (handle_slack_command en t0 t1 st topic rq) s
      = (if lookup_by sr_id (sr_id r) (sl_committed s) \<noteq> None then Inl IntegrityError
         else if \<not> row_fits r then Inl (ExternalError ''DataError'')
         else (case delivery_error (sl_publish s (sl_calls s)) of Some e \<Rightarrow> Inl e
              | None \<Rightarrow> answered (build_run_created (en_zone en) r) (sl_commit s)), s')
    \<and> sl_closed s' = Suc (sl_closed s) \<and> sl_rows s' = sl_committed s'
    \<and> sl_published s' = sl_published s @
        (if storable r (sl_committed s) \<and> broker_took (sl_publish s (sl_calls s)) then [event_message topic r] else [])
    \<and> sl_committed s' = sl_committed s @
        (if storable r (sl_committed s) \<and> sl_publish s (sl_calls s) = Acknowledged \<and> \<not> isl (build_run_created (en_zone en) r)
            \<and> sl_commit s = None then [r] else [])"
proof -
  let ?s = "s\<lparr>sl_rows := sl_committed s\<rparr>"
  have body: "handle_slack_command en t0 t1 st topic rq ?s = handle_command (en_zone en) topic cmd opts ?s"
    using read ok by (simp add: handle_slack_command_def bindE_def liftE_def)
  have r': "new_run cmd opts (sl_clock ?s (sl_ticks ?s)) (uuid_str (sl_uuids ?s (sl_drawn ?s))) (uuid_str (sl_uuids ?s (Suc (sl_drawn ?s)))) = r"
    by (simp add: r the_run_def)
  note run = handle_command_run [of "en_zone en" topic cmd opts ?s, unfolded r' Let_def]
  consider "lookup_by sr_id (sr_id r) (sl_committed s) \<noteq> None"
    | "lookup_by sr_id (sr_id r) (sl_committed s) = None" "\<not> row_fits r"
    | e where "storable r (sl_committed s)" "delivery_error (sl_publish s (sl_calls s)) = Some e" "sl_publish s (sl_calls s) \<noteq> Acknowledged"
    | e where "storable r (sl_committed s)" "sl_publish s (sl_calls s) = Acknowledged" "build_run_created (en_zone en) r = Inl e"
    | x where "storable r (sl_committed s)" "sl_publish s (sl_calls s) = Acknowledged" "build_run_created (en_zone en) r = Inr x"
    by (cases "lookup_by sr_id (sr_id r) (sl_committed s)"; cases "row_fits r";
        cases "build_run_created (en_zone en) r"; cases "sl_publish s (sl_calls s)") (auto simp: storable_def)
  then show ?thesis
    unfolding with_session_run body run
    by cases (auto simp: storable_def answered_def event_message_def append_row_def split: option.splits)
qed

text \<open>
  Property C38. A request either starts one run or leaves the table of runs as it was, and it always closes its
  session. A request that the signature check refuses stores nothing, publishes nothing and is answered with 401 and the check's
  message; one on which the check, the reading of the body or the splitting of the text raises anything else (a timestamp that
  is no number, say) stores and publishes nothing either and ends in that exception. One with mistakes in its options is
  answered privately and publishes nothing. Any other hands its event to the broker at most once, and commits
  its row only after the broker acknowledged the event, so there is never a committed run without its event; an event goes out for a
  run that is not stored exactly when the broker took it but the acknowledgement failed or timed out, the message cannot be built, or the
  commit fails.
\<close>

theorem slack_request_transaction:
  assumes d: "dep_settings d = Some st" "dep_factory d = Some f" "dep_publisher d = Some topic"
    and run: "post_slack_commands en t0 t1 d rq s = (r, s')"
  shows "sl_closed s' = Suc (sl_closed s) \<and> sl_rows s' = sl_committed s' \<and>
    (let nothing = (sl_committed s' = sl_committed s \<and> sl_published s' = sl_published s) in
     case verify (en_codec en) (make_verifier (slack_signing_secret st) (slack_timestamp_tolerance_seconds st)) t0
         (rq_timestamp rq) (rq_signature rq) (rq_body rq) of
       Inl e \<Rightarrow> nothing \<and> r = Inl (case e of SlackVerificationError m \<Rightarrow> HTTPException 401 m | _ \<Rightarrow> e)
     | Inr _ \<Rightarrow> (case parse_form_payload (en_codec en) (rq_body rq) of
         Inl e \<Rightarrow> nothing \<and> r = Inl e
       | Inr payload \<Rightarrow> (case parse_command_text t1 (cmd_text (command_of payload)) of
           Inl e \<Rightarrow> nothing \<and> r = Inl e
         | Inr opts \<Rightarrow>
             if has_errors opts then nothing \<and> r = answered (Inr (ephemeral (the (opt_errors opts)))) (sl_commit s)
             else (let row = the_run (command_of payload) opts s; result = sl_publish s (sl_calls s);
                       took = (storable row (sl_committed s) \<and> broker_took result);
                       built = build_run_created (en_zone en) row in
               sl_published s' = sl_published s @ (if took then [event_message topic row] else [])
             \<and> (\<not> isl r \<longrightarrow> took \<and> sl_committed s' = sl_committed s @ [row] \<and> r = built)
             \<and> (isl r \<longrightarrow> sl_committed s' = sl_committed s)
             \<and> (took \<and> isl r \<longleftrightarrow> took \<and> (result \<noteq> Acknowledged \<or> isl built \<or> sl_commit s \<noteq> None))))))"
proof -
  let ?verified = "verify (en_codec en) (make_verifier (slack_signing_secret st) (slack_timestamp_tolerance_seconds st)) t0
         (rq_timestamp rq) (rq_signature rq) (rq_body rq)"
  have body: "with_session (handle_slack_command en t0 t1 st topic rq) s = (r, s')"
    using run post_configured [OF d] by simp
  have refused: "sl_closed s' = Suc (sl_closed s) \<and> sl_rows s' = sl_committed s' \<and> sl_committed s' = sl_committed s
      \<and> sl_published s' = sl_published s \<and> r = Inl e" if e: "read_command en t0 t1 st rq = Inl e" for e
  proof -
    have "handle_slack_command en t0 t1 st topic rq (s\<lparr>sl_rows := sl_committed s\<rparr>) = (Inl e, s\<lparr>sl_rows := sl_committed s\<rparr>)"
      by (simp add: handle_slack_command_def e bindE_def liftE_def)
    from with_session_Inl [of "handle_slack_command en t0 t1 st topic rq", OF this] body show ?thesis by auto
  qed
  show ?thesis
  proof (cases ?verified)
    case (Inl e)
    then have "read_command en t0 t1 st rq = Inl (http_error e)" by (simp add: read_command_def)
    from refused [OF this] Inl show ?thesis by (simp add: http_error_def split: exn.splits)
  next
    case ok: (Inr u)
    show ?thesis
    proof (cases "parse_form_payload (en_codec en) (rq_body rq)")
      case (Inl e)
      then have "read_command en t0 t1 st rq = Inl e" by (simp add: read_command_def ok)
      from refused [OF this] Inl ok show ?thesis by simp
    next
      case form: (Inr payload)
      show ?thesis
      proof (cases "parse_command_text t1 (cmd_text (command_of payload))")
        case (Inl e)
        then have "read_command en t0 t1 st rq = Inl e" by (simp add: read_command_def ok form)
        from refused [OF this] Inl ok form show ?thesis by simp
      next
        case opts: (Inr opts)
        then have read: "read_command en t0 t1 st rq = Inr (command_of payload, opts)" by (simp add: read_command_def ok form)
        show ?thesis
        proof (cases "has_errors opts")
          case True
          then obtain es where es: "opt_errors opts = Some es" by (auto simp: has_errors_def split: option.splits)
          have "handle_slack_command en t0 t1 st topic rq (s\<lparr>sl_rows := sl_committed s\<rparr>)
              = (Inr (ephemeral es), s\<lparr>sl_rows := sl_committed s\<rparr>)"
            using True es by (simp add: handle_slack_command_def read bindE_def liftE_def returnE_def)
          from with_session_Inr [of "handle_slack_command en t0 t1 st topic rq", OF this] body ok form opts True es
          show ?thesis by (auto simp: answered_def split: option.splits)
        next
          case False
          from request_started [OF read False refl, of topic s] body ok form opts False
          show ?thesis
            by (cases "sl_publish s (sl_calls s)")
              (auto simp: Let_def storable_def answered_def split: if_splits option.splits sum.splits)
        qed
      qed
    qed
  qed
qed

section \<open>A concrete request\<close>

definition fx_settings :: settings where
  "fx_settings = \<lparr>slack_signing_secret = ''k'', database_url = ''d'', kafka_bootstrap_servers = ''b'',
     run_events_topic = ''runs'', app_name = ''CoffeeBuddy'', slack_timestamp_tolerance_seconds = 300\<rparr>"

definition fx_environment :: environment where
  "fx_environment = \<lparr>en_codec = plain_codec, en_zone = id\<rparr>"

definition fx_request :: slack_request where
  "fx_request = \<lparr>rq_timestamp = Some ''99'', rq_signature = Some ''v0=kv0:99:user_id=U1'', rq_body = ''user_id=U1''\<rparr>"

definition fx_state :: request_state where
  "fx_state = \<lparr>sl_committed = [], sl_rows = [], sl_clock = (\<lambda>_. 0), sl_ticks = 0, sl_uuids = of_nat, sl_drawn = 0,
     sl_publish = (\<lambda>_. Acknowledged), sl_calls = 0, sl_published = [], sl_commit = Some (ExternalError ''OperationalError''), sl_closed = 0\<rparr>"

lemma fx_verified: "verify plain_codec (make_verifier ''k'' 300) 99000000 (Some ''99'') (Some ''v0=kv0:99:user_id=U1'') ''user_id=U1'' = Inr ()"
  by (simp add: verify_def make_verifier_def compute_signature_def compare_digest_def plain_codec_def py_int_def py_strip_def
      strip_by_def py_isspace_def int_prefix_def digit_val_def Let_def float_bound_def is_ascii_def utf8_encode_def utf8_char_def)

lemma fx_form: "parse_form_payload plain_codec ''user_id=U1'' = Inr [(''user_id'', ''U1'')]"
  by (simp add: parse_form_payload_def plain_codec_def is_ascii_def parse_qs_def form_field_def split_once_def unquote_plus_def
      unquote_def py_replace_one hex_val_def digit_val_def Let_def)

lemma fx_read_command: "read_command fx_environment 99000000 0 fx_settings fx_request
    = Inr (command_of [(''user_id'', ''U1'')], no_options)"
  by (simp add: read_command_def fx_environment_def fx_settings_def fx_request_def fx_verified fx_form
      parse_command_text_def command_of_def env_get_def Let_def)

lemma fx_parts:
  "verify (en_codec fx_environment) (make_verifier (slack_signing_secret fx_settings) (slack_timestamp_tolerance_seconds fx_settings)) 99000000
     (rq_timestamp fx_request) (rq_signature fx_request) (rq_body fx_request) = Inr ()"
  "parse_form_payload (en_codec fx_environment) (rq_body fx_request) = Inr [(''user_id'', ''U1'')]"
  "parse_command_text 0 (cmd_text (command_of [(''user_id'', ''U1'')])) = Inr no_options"
  by (simp_all add: fx_environment_def fx_settings_def fx_request_def fx_verified fx_form parse_command_text_def
      command_of_def env_get_def Let_def)

theorem slack_request_transaction_witness:
  "\<exists>r s'. post_slack_commands fx_environment 99000000 0 (configure_dependencies fx_settings ''d'' ''runs'' no_dependencies)
       fx_request fx_state = (r, s')
     \<and> sl_closed s' = 1 \<and> length (sl_published s') = 1 \<and> sl_committed s' = []"
proof -
  let ?d = "configure_dependencies fx_settings ''d'' ''runs'' no_dependencies"
  have d: "dep_settings ?d = Some fx_settings" "dep_factory ?d = Some ''d''" "dep_publisher ?d = Some ''runs''"
    by (simp_all add: configure_dependencies_def)
  obtain r s' where run: "post_slack_commands fx_environment 99000000 0 ?d fx_request fx_state = (r, s')"
    by (cases "post_slack_commands fx_environment 99000000 0 ?d fx_request fx_state")
  let ?row = "the_run (command_of [(''user_id'', ''U1'')]) no_options fx_state"
  have uuid: "length (uuid_str u) = 36" for u by (simp add: uuid_str_def Let_def)
  have "storable ?row []" "sl_publish fx_state (sl_calls fx_state) = Acknowledged" "sl_committed fx_state = []"
    "sl_published fx_state = []" "sl_closed fx_state = 0" "\<not> has_errors no_options"
    by (simp_all add: storable_def lookup_by_def row_fits_def the_run_def new_run_def no_options_def command_of_def
        env_get_def fx_state_def has_errors_def Let_def uuid)
  moreover have "sl_commit fx_state \<noteq> None" by (simp add: fx_state_def)
  ultimately have "sl_closed s' = 1" "length (sl_published s') = 1" "sl_committed s' = []"
    using slack_request_transaction [OF d run] unfolding fx_parts Let_def sum.case by auto
  then show ?thesis using run by blast
qed

end
