(* ===== verification/SlackHistory.thy ===== *)
theory SlackHistory
  imports SlackRuns
begin

text \<open>
  Any number of requests to the Slack endpoint, one after the other, each with its own clock, body, settings and
  outcomes of the broker and of the commit. Whatever they are, the table of runs holds well-formed rows only, and every
  row has been announced by an event whose texts read back to the values of the row.
\<close>

section \<open>Well-formed rows and events\<close>

definition run_typed :: "slack_run \<Rightarrow> bool" where
  "run_typed r \<longleftrightarrow> row_fits r \<and> parse_uuid (sr_id r) \<noteq> None \<and> parse_uuid (sr_correlation_id r) \<noteq> None
     \<and> sr_status r = ''open'' \<and> date_ok (sr_started_at r)
     \<and> sr_created_at r = sr_started_at r \<and> sr_updated_at r = sr_started_at r
     \<and> (\<forall>d \<in> set_option (sr_pickup_time r). datetime_ok d \<and> (\<exists>t off. d = Aware t off))
     \<and> (\<forall>n \<in> set_option (sr_pickup_note r). length n \<le> 120 \<and> py_strip n = n)"

text \<open>What a consumer gets out of an event: the texts of its timestamps are read with \<open>fromisoformat\<close>.\<close>

definition event_reads :: "run_created_event \<Rightarrow> slack_run \<Rightarrow> bool" where
  "event_reads ev r \<longleftrightarrow> rce_run_id ev = sr_id r \<and> rce_channel_id ev = sr_channel_id r
     \<and> rce_initiator_user_id ev = sr_initiator_user_id r \<and> rce_correlation_id ev = sr_correlation_id r
     \<and> rce_pickup_note ev = sr_pickup_note r
     \<and> (case rce_pickup_time ev of None \<Rightarrow> sr_pickup_time r = None | Some s \<Rightarrow> sr_pickup_time r \<noteq> None \<and> fromisoformat s = sr_pickup_time r)
     \<and> fromisoformat (rce_created_at ev) = Some (Aware (sr_started_at r) 0)"

definition announced :: "slack_run \<Rightarrow> request_state \<Rightarrow> bool" where
  "announced r s \<longleftrightarrow> (\<exists>topic ev. (topic, utf8_encode (sr_id r), to_payload ev) \<in> set (sl_published s) \<and> event_reads ev r)"

definition runs_typed :: "request_state \<Rightarrow> bool" where
  "runs_typed s \<longleftrightarrow> distinct (map sr_id (sl_committed s)) \<and> (\<forall>r \<in> set (sl_committed s). run_typed r \<and> announced r s)"

section \<open>Histories of requests\<close>

text \<open>The clock that parses the text shows a time that a \<open>datetime\<close> can hold.\<close>

inductive slack_step :: "request_state \<Rightarrow> request_state \<Rightarrow> bool" where
  one_request: "date_ok t1 \<Longrightarrow>
    slack_step s (snd (post_slack_commands en t0 t1 d rq (s\<lparr>sl_publish := outcomes, sl_commit := result\<rparr>)))"

inductive_cases slack_stepE: "slack_step s s'"

abbreviation slack_history :: "request_state \<Rightarrow> request_state \<Rightarrow> bool" where
  "slack_history \<equiv> slack_step\<^sup>*\<^sup>*"

lemma command_keeps_clock: "sl_clock (snd (handle_slack_command en t0 t1 st topic rq s)) = sl_clock s"
  by (auto simp: handle_slack_command_def handle_command_run bindE_def op_simps Let_def
      split: sum.splits prod.splits option.splits)

lemma session_keeps_clock:
  assumes "\<And>s. sl_clock (snd (body s)) = sl_clock s"
  shows "sl_clock (snd (with_session body s)) = sl_clock s"
proof -
  have "sl_clock (snd (body (s\<lparr>sl_rows := sl_committed s\<rparr>))) = sl_clock s" using assms by simp
  then show ?thesis
    by (cases "body (s\<lparr>sl_rows := sl_committed s\<rparr>)") (auto simp: with_session_run split: sum.splits option.splits)
qed

text \<open>A request appends to the messages; it appends a row only for a command that was read without an error.\<close>

definition request_adds :: "environment \<Rightarrow> time \<Rightarrow> time \<Rightarrow> slack_request \<Rightarrow> request_state \<Rightarrow> request_state \<Rightarrow> bool" where
  "request_adds en t0 t1 rq s s' \<longleftrightarrow> sl_clock s' = sl_clock s \<and> set (sl_published s) \<subseteq> set (sl_published s')
     \<and> (sl_committed s' = sl_committed s
        \<or> (\<exists>st topic cmd opts. read_command en t0 t1 st rq = Inr (cmd, opts) \<and> storable (the_run cmd opts s) (sl_committed s)
            \<and> sl_committed s' = sl_committed s @ [the_run cmd opts s]
            \<and> event_message topic (the_run cmd opts s) \<in> set (sl_published s')))"

lemma command_adds: "request_adds en t0 t1 rq s (snd (with_session (handle_slack_command en t0 t1 st topic rq) s))"
proof -
  note clock = session_keeps_clock [of "handle_slack_command en t0 t1 st topic rq" s, OF command_keeps_clock]
  let ?s = "s\<lparr>sl_rows := sl_committed s\<rparr>"
  show ?thesis
  proof (cases "read_command en t0 t1 st rq")
    case (Inl e)
    have "handle_slack_command en t0 t1 st topic rq ?s = (Inl e, ?s)"
      by (simp add: handle_slack_command_def Inl bindE_def liftE_def)
    from with_session_Inl [of "handle_slack_command en t0 t1 st topic rq", OF this] clock show ?thesis
      by (simp add: request_adds_def)
  next
    case (Inr a)
    obtain cmd opts where a: "a = (cmd, opts)" by (cases a)
    show ?thesis
    proof (cases "has_errors opts")
      case True
      then have "\<exists>x. handle_slack_command en t0 t1 st topic rq ?s = (Inr x, ?s)"
        by (simp add: handle_slack_command_def Inr a bindE_def liftE_def returnE_def)
      then obtain x where "handle_slack_command en t0 t1 st topic rq ?s = (Inr x, ?s)" ..
      from with_session_Inr [of "handle_slack_command en t0 t1 st topic rq", OF this] clock show ?thesis
        by (auto simp: request_adds_def split: option.splits)
    next
      case False
      from request_started [OF Inr [unfolded a] False refl, of topic s] clock Inr a
      show ?thesis
        by (fastforce simp: request_adds_def)
    qed
  qed
qed

lemma post_adds: "request_adds en t0 t1 rq s (snd (post_slack_commands en t0 t1 d rq s))"
proof (cases "dep_factory d")
  case None
  then show ?thesis by (simp add: post_slack_commands_def get_session_def request_adds_def op_simps)
next
  case (Some f)
  show ?thesis
  proof (cases "\<exists>st topic. dep_settings d = Some st \<and> dep_publisher d = Some topic")
    case True
    then obtain st topic where "dep_settings d = Some st" "dep_publisher d = Some topic" by blast
    from post_configured [OF this(1) Some this(2)] show ?thesis using command_adds by simp
  next
    case False
    let ?f = "bindE (liftE (get_run_event_publisher d)) (\<lambda>topic. bindE (liftE (get_settings d)) (\<lambda>st. handle_slack_command en t0 t1 st topic rq))"
    from False obtain e where "?f (s\<lparr>sl_rows := sl_committed s\<rparr>) = (Inl e, s\<lparr>sl_rows := sl_committed s\<rparr>)"
      by (cases "dep_settings d"; cases "dep_publisher d")
        (auto simp: get_run_event_publisher_def get_settings_def bindE_def liftE_def)
    from with_session_Inl [of ?f, OF this] Some show ?thesis
      by (simp add: post_slack_commands_def get_session_def request_adds_def)
  qed
qed

section \<open>What a request keeps\<close>

lemma read_command_types:
  assumes "read_command en t0 t1 st rq = Inr (cmd, opts)" and "date_ok t1"
  shows "\<forall>d \<in> set_option (opt_pickup_time opts). datetime_ok d \<and> (\<exists>t off. d = Aware t off)"
    and "\<forall>n \<in> set_option (opt_pickup_note opts). length n \<le> 120 \<and> py_strip n = n"
proof -
  obtain cmd_line where parsed: "parse_command_text t1 cmd_line = Inr opts"
    using assms(1) by (auto simp: read_command_def split: sum.splits)
  show "\<forall>d \<in> set_option (opt_pickup_time opts). datetime_ok d \<and> (\<exists>t off. d = Aware t off)"
    using parse_command_types(1) [OF parsed] parse_pickup_ok [OF assms(2)] parse_pickup_aware by fastforce
  show "\<forall>n \<in> set_option (opt_pickup_note opts). length n \<le> 120 \<and> py_strip n = n"
    using parse_command_types(2) [OF parsed] by fastforce
qed

lemma new_run_typed:
  assumes "read_command en t0 t1 st rq = Inr (cmd, opts)" and "date_ok t1" and "\<forall>k. date_ok (sl_clock s k)"
    and "row_fits (the_run cmd opts s)"
  shows "run_typed (the_run cmd opts s)"
  using read_command_types [OF assms(1,2)] assms(3,4) by (simp add: run_typed_def the_run_def new_run_def)

lemma event_of_run_reads:
  assumes "run_typed r"
  shows "event_reads (created_event r) r"
proof -
  have "datetime_ok (Aware (sr_started_at r) 0)" using assms by (intro datetime_ok_utc) (simp add: run_typed_def)
  then show ?thesis
    using assms
    by (auto simp: event_reads_def created_event_def run_typed_def fromisoformat_isoformat split: option.splits)
qed

lemma request_keeps_types:
  assumes adds: "request_adds en t0 t1 rq s s'" and t1: "date_ok t1" and clock: "\<forall>k. date_ok (sl_clock s k)"
    and typed: "runs_typed s"
  shows "runs_typed s'"
proof -
  have more: "set (sl_published s) \<subseteq> set (sl_published s')" using adds by (simp add: request_adds_def)
  then have old: "run_typed r \<and> announced r s'" if "r \<in> set (sl_committed s)" for r
    using typed that by (fastforce simp: runs_typed_def announced_def)
  from adds consider (same) "sl_committed s' = sl_committed s"
    | (new) st topic cmd opts where "read_command en t0 t1 st rq = Inr (cmd, opts)"
        "storable (the_run cmd opts s) (sl_committed s)" "sl_committed s' = sl_committed s @ [the_run cmd opts s]"
        "event_message topic (the_run cmd opts s) \<in> set (sl_published s')"
    unfolding request_adds_def by blast
  then show ?thesis
  proof cases
    case same
    then show ?thesis using typed old by (simp add: runs_typed_def)
  next
    case new
    let ?r = "the_run cmd opts s"
    have r: "run_typed ?r" using new(2) by (intro new_run_typed [OF new(1) t1 clock]) (simp add: storable_def)
    then have "announced ?r s'"
      using new(4) event_of_run_reads [OF r] unfolding announced_def event_message_def by blast
    moreover have "distinct (map sr_id (sl_committed s'))"
      using typed new(2) by (auto simp: new(3) runs_typed_def storable_def lookup_by_None image_iff)
    ultimately show ?thesis using r old by (auto simp: runs_typed_def new(3))
  qed
qed

definition slack_sound :: "request_state \<Rightarrow> bool" where
  "slack_sound s \<longleftrightarrow> (\<forall>k. date_ok (sl_clock s k)) \<and> runs_typed s"

interpretation slack_machine: state_machine slack_step slack_sound
proof unfold_locales
  fix s s' assume "slack_step s s'" and ok: "slack_sound s"
  then obtain t1 en t0 d rq outcomes result where t1: "date_ok t1"
    and s': "s' = snd (post_slack_commands en t0 t1 d rq (s\<lparr>sl_publish := outcomes, sl_commit := result\<rparr>))"
    by (auto elim: slack_stepE)
  let ?s = "s\<lparr>sl_publish := outcomes, sl_commit := result\<rparr>"
  have typed: "runs_typed ?s" and clock: "\<forall>k. date_ok (sl_clock ?s k)"
    using ok by (simp_all add: slack_sound_def runs_typed_def announced_def)
  from request_keeps_types [OF post_adds t1 clock typed] have "runs_typed s'" unfolding s' .
  moreover have "sl_clock s' = sl_clock s"
    using post_adds [of en t0 t1 rq ?s d] by (simp add: s' request_adds_def)
  ultimately show "slack_sound s'" using ok by (simp add: slack_sound_def)
qed

text \<open>
  Property C33. Requests keep the table of runs well-formed: after any number of requests to the Slack endpoint, with any
  bodies, settings, clocks and failures, every stored run fits its columns, its two identifiers are UUIDs and its own,
  it is open, its three timestamps are the same, its pickup time has a zone and lies in the years a timestamp can hold,
  and its note has at most 120 characters without blanks around them. And each stored run has been announced: an event
  under its identifier went out whose fields, the texts of its timestamps read back, are those of the row.
\<close>

theorem requests_keep_runs_typed:
  assumes "slack_history s s'" and "\<forall>k. date_ok (sl_clock s k)" and "runs_typed s"
  shows "distinct (map sr_id (sl_committed s')) \<and> (\<forall>r \<in> set (sl_committed s'). run_typed r \<and> announced r s')"
proof -
  have "slack_sound s" using assms(2,3) by (simp add: slack_sound_def)
  with assms(1) have "runs_typed s'" using slack_machine.reach_keeps unfolding slack_sound_def by blast
  then show ?thesis by (simp add: runs_typed_def)
qed

theorem requests_keep_runs_typed_witness:
  "\<exists>s'. slack_history fx_state s' \<and> length (sl_committed s') = 1 \<and> (\<forall>r \<in> set (sl_committed s'). announced r s')"
proof -
  let ?d = "configure_dependencies fx_settings ''d'' ''runs'' no_dependencies"
  let ?s = "fx_state\<lparr>sl_publish := (\<lambda>_. Acknowledged), sl_commit := None\<rparr>"
  let ?s' = "snd (post_slack_commands fx_environment 99000000 0 ?d fx_request ?s)"
  have zero: "date_ok 0" by (simp add: date_ok_def microseconds_per_day_def epoch_ordinal_def max_ordinal_def)
  have run: "slack_history fx_state ?s'" by (rule r_into_rtranclp [of slack_step, OF one_request [OF zero]])
  have start: "runs_typed fx_state" "\<forall>k. date_ok (sl_clock fx_state k)" by (simp_all add: runs_typed_def fx_state_def zero)
  have d: "dep_settings ?d = Some fx_settings" "dep_factory ?d = Some ''d''" "dep_publisher ?d = Some ''runs''"
    by (simp_all add: configure_dependencies_def)
  have fits: "row_fits (the_run (command_of [(''user_id'', ''U1'')]) no_options ?s)"
    by (simp add: row_fits_def the_run_def new_run_def no_options_def command_of_def env_get_def Let_def uuid_str_def)
  have built: "\<not> isl (build_run_created (en_zone fx_environment) (the_run (command_of [(''user_id'', ''U1'')]) no_options ?s))"
    by (simp add: build_run_created_def the_run_def new_run_def no_options_def pickup_block_def)
  have "\<not> has_errors no_options" by (simp add: has_errors_def no_options_def)
  from request_started [OF fx_read_command this refl, of "''runs''" ?s] fits built
  have "length (sl_committed ?s') = 1"
    by (auto simp: post_configured [OF d] storable_def lookup_by_def fx_state_def)
  moreover have "\<forall>r \<in> set (sl_committed ?s'). announced r ?s'"
    using requests_keep_runs_typed [OF run start(2,1)] by blast
  ultimately show ?thesis using run by blast
qed

end
