(* ===== verification/DbSession.thy ===== *)
theory DbSession
  imports Kafka Urls
begin

text \<open>
  The database connection (\<open>infra/db/session.py\<close>): credentials and their URL, the configuration from the
  environment, and the provider that fetches credentials from Vault with retries.

  Vault's client is outside the repository: its k-th answer is \<open>vw_answers k\<close>, an exception or the secret, whose
  values are texts. Sleeping is recorded in \<open>vw_slept\<close>, in microseconds.
\<close>

section \<open>Credentials and their URL\<close>

record db_credentials =
  cr_username :: string
  cr_password :: string
  cr_host :: string
  cr_port :: int
  cr_database :: string
  cr_sslmode :: string

definition url_scheme :: string where
  "url_scheme = ''postgresql+psycopg://''"

definition url_tail :: "db_credentials \<Rightarrow> string" where
  "url_tail c = cr_host c @ '':'' @ int_str (cr_port c) @ ''/'' @ cr_database c @ ''?sslmode='' @ cr_sslmode c"

definition to_sqlalchemy_url :: "db_credentials \<Rightarrow> string" where
  "to_sqlalchemy_url c = url_scheme @ quote_plus (cr_username c) @ '':'' @ quote_plus (cr_password c) @ ''@'' @ url_tail c"

section \<open>VaultDbCredentialsProvider\<close>

type_synonym secret = "(string \<times> string) list"

record provider =
  vp_secret_path :: string
  vp_url :: "string option"
  vp_token :: "string option"
  vp_mount_point :: string
  vp_max_attempts :: int
  vp_backoff :: int

definition make_provider :: "string \<Rightarrow> string option \<Rightarrow> string option \<Rightarrow> string \<Rightarrow> provider" where
  "make_provider path url token mount = \<lparr>vp_secret_path = path, vp_url = url, vp_token = token, vp_mount_point = mount,
     vp_max_attempts = 3, vp_backoff = 1500000\<rparr>"

record vault =
  vw_answers :: "nat \<Rightarrow> exn + secret"
  vw_calls :: nat
  vw_slept :: "int list"

definition required :: "string \<Rightarrow> secret \<Rightarrow> exn + string" where
  "required k d = (case map_of d k of None \<Rightarrow> Inl KeyError | Some v \<Rightarrow> Inr v)"

definition read_secret :: "secret \<Rightarrow> exn + db_credentials" where
  "read_secret d =
     (case required ''username'' d of Inl e \<Rightarrow> Inl e | Inr u \<Rightarrow>
     (case required ''password'' d of Inl e \<Rightarrow> Inl e | Inr p \<Rightarrow>
     (case required ''host'' d of Inl e \<Rightarrow> Inl e | Inr h \<Rightarrow>
     (case (case map_of d ''port'' of None \<Rightarrow> Some 5432 | Some v \<Rightarrow> py_int 10 v) of None \<Rightarrow> Inl ValueError | Some port \<Rightarrow>
     (case required ''database'' d of Inl e \<Rightarrow> Inl e | Inr db \<Rightarrow>
        Inr \<lparr>cr_username = u, cr_password = p, cr_host = h, cr_port = port, cr_database = db,
             cr_sslmode = env_get d ''sslmode'' ''prefer''\<rparr>)))))"

definition fetch :: "(vault, exn, db_credentials) op" where
  "fetch w = (case vw_answers w (vw_calls w) of Inl e \<Rightarrow> Inl e | Inr d \<Rightarrow> read_secret d, w\<lparr>vw_calls := Suc (vw_calls w)\<rparr>)"

definition time_sleep :: "int \<Rightarrow> (vault, exn, unit) op" where
  "time_sleep d w = (if d < 0 then (Inl ValueError, w) else (Inr (), w\<lparr>vw_slept := vw_slept w @ [d]\<rparr>))"

definition fetch_failed :: exn where
  "fetch_failed = RuntimeError ''Unable to fetch DB credentials from Vault''"

function fetch_loop :: "provider \<Rightarrow> int \<Rightarrow> (vault, exn, db_credentials) op" where
  "fetch_loop p attempt w =
     (if attempt < vp_max_attempts p
      then (case fetch w of
          (Inr c, w1) \<Rightarrow> (Inr c, w1)
        | (Inl e, w1) \<Rightarrow>
            if caught e
            then (case time_sleep (vp_backoff p * (attempt + 1)) w1 of
                (Inl e', w2) \<Rightarrow> (Inl e', w2)
              | (Inr _, w2) \<Rightarrow> fetch_loop p (attempt + 1) w2)
            else (Inl e, w1))
      else (Inl fetch_failed, w))"
  by pat_completeness auto
termination
  by (relation "measure (\<lambda>(p, attempt, w). nat (vp_max_attempts p - attempt))") auto

declare fetch_loop.simps [simp del]

definition fetch_with_backoff :: "provider \<Rightarrow> (vault, exn, db_credentials) op" where
  "fetch_with_backoff p = fetch_loop p 0"

section \<open>DatabaseConfig\<close>

record database_config =
  dc_url :: string
  dc_echo :: bool
  dc_pool_size :: int
  dc_max_overflow :: int
  dc_pool_timeout :: int

definition int_setting :: "env \<Rightarrow> string \<Rightarrow> string \<Rightarrow> exn + int" where
  "int_setting e k d = (case py_int 10 (env_get e k d) of None \<Rightarrow> Inl ValueError | Some i \<Rightarrow> Inr i)"

definition database_url_from_env :: "env \<Rightarrow> (vault, exn, string) op" where
  "database_url_from_env e =
     (case map_of e ''VAULT_DB_SECRET_PATH'' of
        Some path \<Rightarrow>
          if path \<noteq> []
          then bindE (fetch_with_backoff (make_provider path (map_of e ''VAULT_ADDR'') (map_of e ''VAULT_TOKEN'')
                        (env_get e ''VAULT_KV_MOUNT'' ''secret''))) (\<lambda>c. returnE (to_sqlalchemy_url c))
          else liftE (required ''DATABASE_URL'' e)
      | None \<Rightarrow> liftE (required ''DATABASE_URL'' e))"

definition config_from_env :: "env \<Rightarrow> (vault, exn, database_config) op" where
  "config_from_env e =
     (let echo = (py_lower (env_get e ''SQL_ECHO'' ''false'') = ''true'') in
     bindE (liftE (int_setting e ''SQL_POOL_SIZE'' ''5'')) (\<lambda>size.
     bindE (liftE (int_setting e ''SQL_MAX_OVERFLOW'' ''5'')) (\<lambda>overflow.
     bindE (liftE (int_setting e ''SQL_POOL_TIMEOUT'' ''30'')) (\<lambda>timeout.
     bindE (database_url_from_env e) (\<lambda>url.
     returnE \<lparr>dc_url = url, dc_echo = echo, dc_pool_size = size, dc_max_overflow = overflow, dc_pool_timeout = timeout\<rparr>)))))"

text \<open>The arguments of \<open>create_engine\<close>, and what \<open>create_session_factory\<close> binds.\<close>

definition engine_arguments :: "database_config \<Rightarrow> (string \<times> json) list" where
  "engine_arguments c = [(''url'', JStr (dc_url c)), (''echo'', JBool (dc_echo c)), (''pool_size'', JInt (dc_pool_size c)),
     (''max_overflow'', JInt (dc_max_overflow c)), (''pool_timeout'', JInt (dc_pool_timeout c)),
     (''pool_pre_ping'', JBool True), (''future'', JBool True)]"

definition create_session_factory :: "env \<Rightarrow> database_config option \<Rightarrow> (vault, exn, (string \<times> json) list \<times> bool) op" where
  "create_session_factory e given =
     bindE (case given of Some c \<Rightarrow> returnE c | None \<Rightarrow> config_from_env e) (\<lambda>c. returnE (engine_arguments c, False))"

text \<open>The older factory of \<open>infra/db.py\<close>: the engine of a URL with the library's defaults.\<close>

definition build_session_factory :: "string \<Rightarrow> (string \<times> json) list \<times> bool" where
  "build_session_factory url = ([(''url'', JStr url), (''future'', JBool True), (''pool_pre_ping'', JBool True)], False)"

section \<open>Retries\<close>

definition answer :: "vault \<Rightarrow> nat \<Rightarrow> exn + db_credentials" where
  "answer w k = (case vw_answers w (vw_calls w + k) of Inl e \<Rightarrow> Inl e | Inr d \<Rightarrow> read_secret d)"

definition pauses :: "int \<Rightarrow> nat \<Rightarrow> nat \<Rightarrow> int list" where
  "pauses b a k = map (\<lambda>i. b * int i) [Suc a..<Suc a + k]"

lemma pauses_Suc: "pauses b a (Suc k) = b * (int a + 1) # pauses b (Suc a) k"
  by (simp add: pauses_def upt_conv_Cons algebra_simps del: upt_Suc)

lemma pauses_0 [simp]: "pauses b a 0 = []"
  by (simp add: pauses_def)

lemma pauses_total: "2 * sum_list (pauses b 0 k) = b * (int k * (int k + 1))"
  by (induction k) (simp_all add: pauses_def algebra_simps)

lemma answer_Suc: "answer (w\<lparr>vw_calls := Suc (vw_calls w), vw_slept := xs\<rparr>) k = answer w (Suc k)"
  by (simp add: answer_def)

lemma fetch_loop_step:
  assumes "int a < vp_max_attempts p" and "0 \<le> vp_backoff p" and "answer w 0 = Inl e" and "caught e"
  shows "fetch_loop p (int a) w
    = fetch_loop p (int (Suc a)) (w\<lparr>vw_calls := Suc (vw_calls w), vw_slept := vw_slept w @ [vp_backoff p * (int a + 1)]\<rparr>)"
proof -
  have "\<not> vp_backoff p * (int a + 1) < 0" using assms(2) by (simp add: not_less)
  then show ?thesis
    using assms
    by (subst fetch_loop.simps) (simp add: fetch_def answer_def time_sleep_def add.commute split: sum.splits)
qed

lemma fetch_loop_run:
  assumes "int a + int k \<le> vp_max_attempts p" and b: "0 \<le> vp_backoff p"
    and "\<forall>j < k. \<exists>e. answer w j = Inl e \<and> caught e"
  shows "fetch_loop p (int a) w
    = fetch_loop p (int (a + k)) (w\<lparr>vw_calls := vw_calls w + k, vw_slept := vw_slept w @ pauses (vp_backoff p) a k\<rparr>)"
  using assms
proof (induction k arbitrary: a w)
  case 0
  then show ?case by simp
next
  case (Suc k)
  obtain e where e: "answer w 0 = Inl e" "caught e" using Suc.prems(3) by blast
  let ?w = "w\<lparr>vw_calls := Suc (vw_calls w), vw_slept := vw_slept w @ [vp_backoff p * (int a + 1)]\<rparr>"
  have "\<forall>j < k. \<exists>e. answer ?w j = Inl e \<and> caught e"
    using Suc.prems(3) unfolding answer_Suc by blast
  then have "fetch_loop p (int (Suc a)) ?w
    = fetch_loop p (int (Suc a + k)) (?w\<lparr>vw_calls := vw_calls ?w + k, vw_slept := vw_slept ?w @ pauses (vp_backoff p) (Suc a) k\<rparr>)"
    using Suc.prems(1) b by (intro Suc.IH) simp_all
  moreover have "fetch_loop p (int a) w = fetch_loop p (int (Suc a)) ?w"
    using Suc.prems(1) b e by (intro fetch_loop_step) auto
  ultimately show ?case by (simp add: pauses_Suc)
qed

text \<open>
  Property C39. Fetching the credentials ends within its attempts. With n attempts and a pause that is not
  negative, it returns the first answer that can be read, after the pauses b, 2b, 3b, ... of the failures before it;
  when no attempt succeeds it raises one RuntimeError after exactly n calls. No run asks more than n times
  or sleeps longer than b n (n + 1) / 2 in total; a run that fails has slept all of that, the last pause
  coming after the last attempt.
\<close>

theorem fetch_with_backoff_bounded:
  assumes n: "vp_max_attempts p = int n" and b: "0 \<le> vp_backoff p"
    and errors: "\<forall>j e. answer w j = Inl e \<longrightarrow> e \<noteq> CancelledError"
  shows "(\<forall>k c. k < n \<longrightarrow> answer w k = Inr c \<longrightarrow> (\<forall>j < k. isl (answer w j)) \<longrightarrow>
        fetch_with_backoff p w = (Inr c, w\<lparr>vw_calls := vw_calls w + Suc k, vw_slept := vw_slept w @ pauses (vp_backoff p) 0 k\<rparr>)
        \<and> 2 * sum_list (pauses (vp_backoff p) 0 k) \<le> vp_backoff p * (int n * (int n + 1)))
    \<and> ((\<forall>j < n. isl (answer w j)) \<longrightarrow>
        fetch_with_backoff p w = (Inl fetch_failed, w\<lparr>vw_calls := vw_calls w + n, vw_slept := vw_slept w @ pauses (vp_backoff p) 0 n\<rparr>)
        \<and> 2 * sum_list (pauses (vp_backoff p) 0 n) = vp_backoff p * (int n * (int n + 1)))"
proof (intro conjI allI impI)
  have failing: "\<forall>j < k. \<exists>e. answer w j = Inl e \<and> caught e" if "\<forall>j < k. isl (answer w j)" for k
    using that errors by (metis caught_def isl_def)
  {
    fix k c assume k: "k < n" and c: "answer w k = Inr c" and before: "\<forall>j < k. isl (answer w j)"
    have "fetch_with_backoff p w = fetch_loop p (int k) (w\<lparr>vw_calls := vw_calls w + k, vw_slept := vw_slept w @ pauses (vp_backoff p) 0 k\<rparr>)"
      using fetch_loop_run [of 0 k p w, OF _ b failing [OF before]] k n by (simp add: fetch_with_backoff_def)
    also have "\<dots> = (Inr c, w\<lparr>vw_calls := vw_calls w + Suc k, vw_slept := vw_slept w @ pauses (vp_backoff p) 0 k\<rparr>)"
      using k n c by (subst fetch_loop.simps) (simp add: fetch_def answer_def)
    finally show "fetch_with_backoff p w = (Inr c, w\<lparr>vw_calls := vw_calls w + Suc k, vw_slept := vw_slept w @ pauses (vp_backoff p) 0 k\<rparr>)" .
    have "int k * (int k + 1) \<le> int n * (int n + 1)" using k by (intro mult_mono) auto
    then show "2 * sum_list (pauses (vp_backoff p) 0 k) \<le> vp_backoff p * (int n * (int n + 1))"
      unfolding pauses_total using b by (rule mult_left_mono)
  }
  assume all: "\<forall>j < n. isl (answer w j)"
  have "fetch_with_backoff p w = fetch_loop p (int n) (w\<lparr>vw_calls := vw_calls w + n, vw_slept := vw_slept w @ pauses (vp_backoff p) 0 n\<rparr>)"
    using fetch_loop_run [of 0 n p w, OF _ b failing [OF all]] n by (simp add: fetch_with_backoff_def)
  also have "\<dots> = (Inl fetch_failed, w\<lparr>vw_calls := vw_calls w + n, vw_slept := vw_slept w @ pauses (vp_backoff p) 0 n\<rparr>)"
    using n by (subst fetch_loop.simps) simp
  finally show "fetch_with_backoff p w = (Inl fetch_failed, w\<lparr>vw_calls := vw_calls w + n, vw_slept := vw_slept w @ pauses (vp_backoff p) 0 n\<rparr>)" .
  show "2 * sum_list (pauses (vp_backoff p) 0 n) = vp_backoff p * (int n * (int n + 1))"
    by (rule pauses_total)
qed

definition fx_vault :: vault where
  "fx_vault = \<lparr>vw_answers = (\<lambda>k. if k < 2 then Inl KeyError
     else Inr [(''username'', ''u''), (''password'', ''p w''), (''host'', ''h''), (''database'', ''d'')]), vw_calls = 0, vw_slept = []\<rparr>"

theorem fetch_with_backoff_bounded_witness:
  "\<exists>c. fetch_with_backoff (make_provider ''s'' None None ''secret'') fx_vault
     = (Inr c, fx_vault\<lparr>vw_calls := 3, vw_slept := [1500000, 3000000]\<rparr>) \<and> cr_port c = 5432"
proof -
  let ?p = "make_provider ''s'' None None ''secret''"
  let ?c = "\<lparr>cr_username = ''u'', cr_password = ''p w'', cr_host = ''h'', cr_port = 5432, cr_database = ''d'', cr_sslmode = ''prefer''\<rparr>"
  have facts: "vp_max_attempts ?p = int 3" "0 \<le> vp_backoff ?p" "vp_backoff ?p = 1500000"
    "\<forall>j e. answer fx_vault j = Inl e \<longrightarrow> e \<noteq> CancelledError"
    "answer fx_vault 2 = Inr ?c" "\<forall>j < 2. isl (answer fx_vault j)"
    by (auto simp: make_provider_def answer_def fx_vault_def read_secret_def required_def env_get_def split: if_splits)
  have "(2::nat) < 3" by simp
  with fetch_with_backoff_bounded [OF facts(1,2,4)] facts(5,6)
  have "fetch_with_backoff ?p fx_vault
      = (Inr ?c, fx_vault\<lparr>vw_calls := vw_calls fx_vault + Suc 2, vw_slept := vw_slept fx_vault @ pauses (vp_backoff ?p) 0 2\<rparr>)"
    by blast
  moreover have "pauses 1500000 0 2 = [1500000, 3000000]" by (simp add: pauses_def upt_rec)
  moreover have "vw_calls fx_vault = 0" "vw_slept fx_vault = []" by (simp_all add: fx_vault_def)
  ultimately show ?thesis using facts(3) by (intro exI [of _ ?c]) (simp add: numeral_3_eq_3)
qed

section \<open>The URL holds the credentials\<close>

definition url_authority :: "string \<Rightarrow> string" where
  "url_authority url = drop (length url_scheme) url"

definition url_user :: "string \<Rightarrow> string" where
  "url_user url = fst (split_once (CHR '':'') (url_authority url))"

definition url_password :: "string \<Rightarrow> string" where
  "url_password url = fst (split_once (CHR ''@'') (snd (split_once (CHR '':'') (url_authority url))))"

definition url_rest :: "string \<Rightarrow> string" where
  "url_rest url = snd (split_once (CHR ''@'') (url_authority url))"

lemma split_once_append: "sep \<notin> set x \<Longrightarrow> split_once sep (x @ sep # y) = (x, y)"
  by (induction x) (auto simp: split_once_def)

lemma quote_plus_no: "x \<in> set '':/@?#&='' \<Longrightarrow> x \<notin> set (quote_plus s)"
  using quote_plus_chars [of x s] always_safe_facts(5) [of x] by auto

lemma url_parts:
  "url_user (to_sqlalchemy_url c) = quote_plus (cr_username c)"
  "url_password (to_sqlalchemy_url c) = quote_plus (cr_password c)"
  "url_rest (to_sqlalchemy_url c) = url_tail c"
proof -
  let ?u = "quote_plus (cr_username c)" and ?p = "quote_plus (cr_password c)"
  have auth: "url_authority (to_sqlalchemy_url c) = ?u @ CHR '':'' # (?p @ CHR ''@'' # url_tail c)"
    by (simp add: url_authority_def to_sqlalchemy_url_def)
  have auth': "?u @ CHR '':'' # (?p @ CHR ''@'' # url_tail c) = (?u @ CHR '':'' # ?p) @ CHR ''@'' # url_tail c" by simp
  have no: "CHR '':'' \<notin> set ?u" "CHR ''@'' \<notin> set ?p" "CHR ''@'' \<notin> set (?u @ CHR '':'' # ?p)"
    by (simp_all add: quote_plus_no)
  show "url_user (to_sqlalchemy_url c) = ?u" "url_password (to_sqlalchemy_url c) = ?p"
    unfolding url_user_def url_password_def auth split_once_append [OF no(1)] by (simp_all add: split_once_append [OF no(2)])
  show "url_rest (to_sqlalchemy_url c) = url_tail c"
    unfolding url_rest_def auth auth' split_once_append [OF no(3)] by simp
qed

text \<open>
  Property C40. Whatever characters are in a user name or a password, colons, slashes and at signs included, the
  database URL keeps them apart and whole: the part up to the first colon is the user, the part up to the first at
  sign the password, and behind it come host, port, database and mode unchanged; a reader of form encoding, as
  \<open>unquote_plus\<close> is, gets both back exactly. A reader that only resolves percent signs, as \<open>unquote\<close> is,
  gets a plus sign for every blank, so for it the round trip holds just for credentials without blanks.
\<close>

theorem url_roundtrip:
  assumes dec: "\<forall>s. dec (utf8_encode s) = s"
  shows "unquote_plus dec (url_user (to_sqlalchemy_url c)) = cr_username c
    \<and> unquote_plus dec (url_password (to_sqlalchemy_url c)) = cr_password c
    \<and> url_rest (to_sqlalchemy_url c) = url_tail c
    \<and> unquote dec (url_password (to_sqlalchemy_url c)) = blanks_to_plus (cr_password c)
    \<and> (unquote dec (url_password (to_sqlalchemy_url c)) = cr_password c \<longleftrightarrow> CHR '' '' \<notin> set (cr_password c))"
proof -
  have "blanks_to_plus s = s \<longleftrightarrow> CHR '' '' \<notin> set s" for s
    by (induction s) (auto simp: blanks_to_plus_def)
  then show ?thesis
    using dec by (simp add: url_parts unquote_plus_quote_plus unquote_quote_plus)
qed

theorem url_roundtrip_witness:
  "unquote_plus utf8_latin (url_password (to_sqlalchemy_url \<lparr>cr_username = ''u'', cr_password = ''p@:/ w'', cr_host = ''h'',
      cr_port = 5432, cr_database = ''d'', cr_sslmode = ''prefer''\<rparr>)) = ''p@:/ w''"
  using url_roundtrip [of utf8_latin "\<lparr>cr_username = ''u'', cr_password = ''p@:/ w'', cr_host = ''h'',
      cr_port = 5432, cr_database = ''d'', cr_sslmode = ''prefer''\<rparr>"]
  by (simp add: utf8_latin_encode)

section \<open>The schema specification\<close>

text \<open>
  \<open>infra/db/schema_loader.py\<close>. A path is the list of its components; \<open>files\<close> is the file system and \<open>yaml\<close> the parser
  \<open>yaml.safe_load\<close>.
\<close>

type_synonym path = "string list"

definition schema_path :: "path \<Rightarrow> path" where
  "schema_path module_file = butlast (butlast module_file) @ [''storage'', ''spec'', ''schema.yaml'']"

definition load_schema_spec :: "(path \<Rightarrow> string option) \<Rightarrow> (string \<Rightarrow> exn + 'a) \<Rightarrow> path \<Rightarrow> path option \<Rightarrow> exn + 'a" where
  "load_schema_spec files yaml module_file given =
     (let spec_path = (case given of Some p \<Rightarrow> p | None \<Rightarrow> schema_path module_file) in
      case files spec_path of
        None \<Rightarrow> Inl (ExternalError ''FileNotFoundError'')
      | Some handle \<Rightarrow> yaml handle)"

text \<open>
  The default path is taken from the directory above the module's own, which is \<open>infra\<close>; the repository keeps the file under
  \<open>storage\<close> beside the package \<open>coffeebuddy\<close>. With nothing else on disk the default call fails.
\<close>

lemma default_schema_missing:
  assumes "files = [[''src'', ''storage'', ''spec'', ''schema.yaml''] \<mapsto> spec]"
  shows "load_schema_spec files yaml [''src'', ''coffeebuddy'', ''infra'', ''db'', ''schema_loader.py''] None
      = Inl (ExternalError ''FileNotFoundError'')"
    and "load_schema_spec files yaml module_file (Some [''src'', ''storage'', ''spec'', ''schema.yaml'']) = yaml spec"
  by (simp_all add: load_schema_spec_def schema_path_def assms)

end
