(* ===== verification/Imports.thy ===== *)
theory Imports
  imports Prelude "HOL-Library.AList"
begin

text \<open>
  Python's import system, as far as the package rests on it. Importing a module runs its top level: imports of other
  modules, definitions, and classes that map to a table. A module is entered into \<open>sys.modules\<close> before its body runs, so that
  a cyclic import finds it half done; a body that raises takes it out again. The statements of the package's own modules
  are in \<open>Packages\<close>.

  The lemmas show what holds of every program: fuel above the number of modules is never used up, an import that succeeded is
  repeated without a step, a module shares the failure of its package, and more third parties make no import fail. The last
  section holds the equations that run an import step by step.
\<close>

section \<open>The import system\<close>

text \<open>Relative imports are written with the module they mean.\<close>

datatype 'm statement =
    External string
  | FromImport 'm "string list"
  | FromImportAs 'm string string
  | Define "string list"
  | TableClass string string string
  | Exports "string list"

text \<open>The class, its declarative base and its table are the arguments of \<open>TableClass\<close>; \<open>Exports\<close> sets \<open>__all__\<close>.\<close>

fun binds :: "'m statement \<Rightarrow> string list" where
  "binds (External p) = []"
| "binds (FromImport m xs) = xs"
| "binds (FromImportAs m x y) = [y]"
| "binds (Define xs) = xs"
| "binds (TableClass c b t) = [c]"
| "binds (Exports xs) = [''__all__'']"

fun exported :: "'m statement list \<Rightarrow> string list" where
  "exported [] = []"
| "exported (Exports xs # sts) = xs @ exported sts"
| "exported (_ # sts) = exported sts"

text \<open>
  The modules of a program: the statements of each, the packages above it with itself at the end, and what a package contains.
\<close>

record 'm program =
  body :: "'m \<Rightarrow> 'm statement list"
  chain :: "'m \<Rightarrow> 'm list"
  submodule :: "'m \<Rightarrow> string \<Rightarrow> 'm option"

datatype 'm import_error =
    ModuleNotFoundError string
  | ImportError string 'm
  | NameError string
  | InvalidRequestError string
  | OutOfFuel

text \<open>
  \<open>sys.modules\<close>, with the number of statements that each module has run, and the tables in the metadata of the declarative
  bases. The names in a module are those its statements have bound so far, and its submodules that are loaded.
\<close>

record 'm loader =
  ld_progress :: "('m \<times> nat) list"
  ld_tables :: "(('m \<times> string) \<times> string) list"

definition fresh_loader :: "'m loader" where
  "fresh_loader = \<lparr>ld_progress = [], ld_tables = []\<rparr>"

fun bound_in :: "string \<Rightarrow> 'm statement list \<Rightarrow> bool" where
  "bound_in x [] = False"
| "bound_in x (st # sts) = (if x \<in> set (binds st) then True else bound_in x sts)"

definition loaded :: "'m program \<Rightarrow> 'm \<Rightarrow> 'm loader \<Rightarrow> bool" where
  "loaded P m s \<longleftrightarrow> map_of (ld_progress s) m = Some (length (body P m))"

definition has_name :: "'m program \<Rightarrow> 'm \<Rightarrow> string \<Rightarrow> 'm loader \<Rightarrow> bool" where
  "has_name P m x s = (case map_of (ld_progress s) m of
       None \<Rightarrow> False
     | Some k \<Rightarrow> if bound_in x (take k (body P m)) then True
         else (case submodule P m x of None \<Rightarrow> False | Some c \<Rightarrow> loaded P c s))"

type_synonym 'm import_op = "('m loader, 'm import_error, unit) op"

fun each :: "('a \<Rightarrow> 'm import_op) \<Rightarrow> 'a list \<Rightarrow> 'm import_op" where
  "each f [] = returnE ()"
| "each f (x # xs) = bindE (f x) (\<lambda>_. each f xs)"

text \<open>\<open>from m import x\<close>: an attribute of the module, or else a submodule, which is loaded.\<close>

definition from_import :: "('m \<Rightarrow> 'm import_op) \<Rightarrow> 'm program \<Rightarrow> 'm \<Rightarrow> string \<Rightarrow> 'm import_op" where
  "from_import ld P m x s =
     (if has_name P m x s then (Inr (), s)
      else (case submodule P m x of None \<Rightarrow> (Inl (ImportError x m), s) | Some c \<Rightarrow> ld c s))"

text \<open>Where a name was defined: the imports that lead to it are followed, at most \<open>n\<close> of them.\<close>

fun origin :: "nat \<Rightarrow> 'm program \<Rightarrow> 'm \<Rightarrow> string \<Rightarrow> 'm \<times> string" where
  "origin 0 P m x = (m, x)"
| "origin (Suc n) P m x = (case find (\<lambda>st. x \<in> set (binds st)) (body P m) of
       Some (FromImport m' xs) \<Rightarrow> origin n P m' x
     | Some (FromImportAs m' y z) \<Rightarrow> origin n P m' y
     | _ \<Rightarrow> (m, x))"

text \<open>A mapped class enters its table into the metadata of its base; a table that is there already raises.\<close>

definition table_class :: "'m program \<Rightarrow> 'm \<Rightarrow> string \<Rightarrow> string \<Rightarrow> 'm import_op" where
  "table_class P cur b t s =
     (if \<not> has_name P cur b s then (Inl (NameError b), s)
      else if (origin 4 P cur b, t) \<in> set (ld_tables s) then (Inl (InvalidRequestError t), s)
      else (Inr (), s\<lparr>ld_tables := (origin 4 P cur b, t) # ld_tables s\<rparr>))"

fun run_statement :: "('m \<Rightarrow> 'm import_op) \<Rightarrow> (string \<Rightarrow> bool) \<Rightarrow> 'm program \<Rightarrow> 'm \<Rightarrow> 'm statement \<Rightarrow> 'm import_op" where
  "run_statement ld installed P cur (External p) = (if installed p then returnE () else raiseE (ModuleNotFoundError p))"
| "run_statement ld installed P cur (FromImport m xs) = bindE (each ld (chain P m)) (\<lambda>_. each (from_import ld P m) xs)"
| "run_statement ld installed P cur (FromImportAs m x y) = bindE (each ld (chain P m)) (\<lambda>_. from_import ld P m x)"
| "run_statement ld installed P cur (Define xs) = returnE ()"
| "run_statement ld installed P cur (TableClass c b t) = table_class P cur b t"
| "run_statement ld installed P cur (Exports xs) = returnE ()"

definition advance :: "'m \<Rightarrow> 'm loader \<Rightarrow> 'm loader" where
  "advance m s = s\<lparr>ld_progress := (case map_of (ld_progress s) m of
     None \<Rightarrow> ld_progress s | Some k \<Rightarrow> AList.update m (Suc k) (ld_progress s))\<rparr>"

definition enter_module :: "'m \<Rightarrow> 'm loader \<Rightarrow> 'm loader" where
  "enter_module m s = s\<lparr>ld_progress := AList.update m 0 (ld_progress s)\<rparr>"

definition drop_module :: "'m \<Rightarrow> 'm loader \<Rightarrow> 'm loader" where
  "drop_module m s = s\<lparr>ld_progress := AList.delete m (ld_progress s)\<rparr>"

text \<open>
  Loading one module. \<open>n\<close> bounds the depth of nested loads; each of them enters a module that was not loaded, so that a bound
  above the number of modules is never reached (\<open>load_in_fuel\<close>).
\<close>

fun load_module :: "nat \<Rightarrow> (string \<Rightarrow> bool) \<Rightarrow> 'm program \<Rightarrow> 'm \<Rightarrow> 'm import_op" where
  "load_module 0 installed P m = raiseE OutOfFuel"
| "load_module (Suc n) installed P m = (\<lambda>s.
     if map_of (ld_progress s) m \<noteq> None then (Inr (), s)
     else (case each (\<lambda>st. bindE (run_statement (load_module n installed P) installed P m st) (\<lambda>_. modifyE (advance m)))
              (body P m) (enter_module m s) of
          (Inl e, s1) \<Rightarrow> (Inl e, drop_module m s1)
        | (Inr _, s1) \<Rightarrow> (Inr (), s1)))"

text \<open>\<open>import a.b.c\<close> loads \<open>a\<close>, then \<open>a.b\<close>, then \<open>a.b.c\<close>.\<close>

definition import_module :: "nat \<Rightarrow> (string \<Rightarrow> bool) \<Rightarrow> 'm program \<Rightarrow> 'm \<Rightarrow> 'm import_op" where
  "import_module n installed P m = each (load_module n installed P) (chain P m)"

section \<open>What holds of every import\<close>

definition names :: "'m loader \<Rightarrow> 'm set" where
  "names s = fst ` set (ld_progress s)"

lemma names_iff: "m \<in> names s \<longleftrightarrow> map_of (ld_progress s) m \<noteq> None"
  by (auto simp: names_def map_of_eq_None_iff)

lemma names_enter: "names (enter_module m s) = insert m (names s)"
  by (simp add: names_def enter_module_def dom_update)

lemma names_advance: "names (advance m s) = names s"
  by (auto simp: advance_def names_def dom_update split: option.splits) (metis map_of_SomeD fst_conv imageI)

text \<open>
  \<open>keeps N f\<close>: from a state where the modules of \<open>N\<close> are entered, \<open>f\<close> does not run out of fuel, and if it succeeds
  they are still entered.
\<close>

definition keeps :: "'m set \<Rightarrow> 'm import_op \<Rightarrow> bool" where
  "keeps N f \<longleftrightarrow> (\<forall>s r s1. N \<subseteq> names s \<longrightarrow> f s = (r, s1) \<longrightarrow> r \<noteq> Inl OutOfFuel \<and> (r = Inr () \<longrightarrow> N \<subseteq> names s1))"

lemma keepsD:
  "keeps N f \<Longrightarrow> N \<subseteq> names s \<Longrightarrow> f s = (r, s1) \<Longrightarrow> r \<noteq> Inl OutOfFuel \<and> (r = Inr () \<longrightarrow> N \<subseteq> names s1)"
  by (simp add: keeps_def)

lemma keeps_bind: "keeps N f \<Longrightarrow> keeps N g \<Longrightarrow> keeps N (bindE f (\<lambda>_. g))"
  unfolding keeps_def [of N "bindE f (\<lambda>_. g)"]
proof (intro allI impI)
  fix s r t
  assume f: "keeps N f" and g: "keeps N g" and s: "N \<subseteq> names s" and run: "bindE f (\<lambda>_. g) s = (r, t)"
  obtain r1 s1 where f1: "f s = (r1, s1)" by fastforce
  note first = keepsD [OF f s f1]
  show "r \<noteq> Inl OutOfFuel \<and> (r = Inr () \<longrightarrow> N \<subseteq> names t)"
  proof (cases r1)
    case (Inl e)
    then show ?thesis using first run f1 by (auto simp: bindE_def)
  next
    case (Inr u)
    then have "N \<subseteq> names s1" "g s1 = (r, t)" using first run f1 by (auto simp: bindE_def)
    then show ?thesis by (rule keepsD [OF g])
  qed
qed

lemma keeps_modify: "(\<And>s. names s \<subseteq> names (h s)) \<Longrightarrow> keeps N (modifyE h)"
  unfolding keeps_def by (auto simp: op_simps)

lemma keeps_each: "(\<And>x. keeps N (f x)) \<Longrightarrow> keeps N (each f xs)"
  by (induction xs) (auto intro: keeps_bind simp: keeps_def [of N "returnE ()"] op_simps)

lemma keeps_statement:
  assumes "\<And>m. keeps N (ld m)"
  shows "keeps N (run_statement ld i P cur st)"
proof -
  have *: "keeps N (from_import ld P m x)" for m x
    using assms [unfolded keeps_def] unfolding keeps_def from_import_def by (auto split: option.splits if_splits)
  show ?thesis
    by (cases st) (auto intro!: keeps_bind keeps_each assms *
      simp: keeps_def [of N "returnE ()"] keeps_def [of N "raiseE e" for e] keeps_def [of N "table_class P m b t" for m b t]
        op_simps table_class_def names_def split: if_splits)
qed

lemma load_keeps:
  fixes P :: "'m::finite program"
  shows "card (- N) < n \<Longrightarrow> keeps N (load_module n i P m)"
proof (induction n arbitrary: N m)
  case 0
  then show ?case by simp
next
  case (Suc n)
  show ?case
    unfolding keeps_def
  proof (intro allI impI)
    fix s r s1 assume s: "N \<subseteq> names s" and run: "load_module (Suc n) i P m s = (r, s1)"
    show "r \<noteq> Inl OutOfFuel \<and> (r = Inr () \<longrightarrow> N \<subseteq> names s1)"
    proof (cases "m \<in> names s")
      case True
      then show ?thesis using s run by (auto simp: names_iff)
    next
      case False
      then have m: "m \<notin> N" using s by auto
      then have "- N = insert m (- insert m N)" by auto
      then have "card (- N) = Suc (card (- insert m N))" by (metis Compl_iff card_insert_disjoint finite insertI1)
      then have IH: "keeps (insert m N) (load_module n i P m')" for m' using Suc by simp
      let ?step = "\<lambda>st. bindE (run_statement (load_module n i P) i P m st) (\<lambda>_. modifyE (advance m))"
      obtain r1 s2 where all: "each ?step (body P m) (enter_module m s) = (r1, s2)" by fastforce
      have "keeps (insert m N) (each ?step (body P m))"
        by (intro keeps_each keeps_bind keeps_statement keeps_modify IH) (simp add: names_advance)
      then have "r1 \<noteq> Inl OutOfFuel \<and> (r1 = Inr () \<longrightarrow> insert m N \<subseteq> names s2)"
        using s all keepsD [of "insert m N" "each ?step (body P m)" "enter_module m s" r1 s2] by (auto simp: names_enter)
      then show ?thesis using False run all by (auto simp: names_iff split: sum.splits)
    qed
  qed
qed

text \<open>Fuel above the number of modules is enough, and what was imported stays imported.\<close>

lemma load_in_fuel:
  fixes P :: "'m::finite program"
  assumes "card (UNIV :: 'm set) < n"
  shows "fst (load_module n i P m s) \<noteq> Inl OutOfFuel"
proof -
  have "card (- names s) < n" using assms by (meson card_mono finite le_less_trans subset_UNIV)
  from keepsD [OF load_keeps [OF this, of i P m] subset_refl] show ?thesis
    by (cases "load_module n i P m s") auto
qed

lemma import_in_fuel:
  fixes P :: "'m::finite program"
  assumes "card (UNIV :: 'm set) < n"
  shows "fst (import_module n i P m s) \<noteq> Inl OutOfFuel"
proof -
  have "keeps {} (import_module n i P m)"
    unfolding import_module_def by (rule keeps_each) (rule load_keeps, use assms in simp)
  from keepsD [OF this empty_subsetI] show ?thesis by (cases "import_module n i P m s") auto
qed

lemma load_known: "0 < n \<Longrightarrow> m \<in> names s \<Longrightarrow> load_module n i P m s = (Inr (), s)"
  by (cases n) (auto simp: names_iff)

lemma each_known: "(\<And>x. x \<in> set xs \<Longrightarrow> f x s = (Inr (), s)) \<Longrightarrow> each f xs s = (Inr (), s)"
  by (induction xs) (auto simp: op_simps)

lemma import_known: "0 < n \<Longrightarrow> set (chain P m) \<subseteq> names s \<Longrightarrow> import_module n i P m s = (Inr (), s)"
  unfolding import_module_def by (rule each_known) (auto intro: load_known)

lemma each_append: "each f (xs @ ys) s = bindE (each f xs) (\<lambda>_. each f ys) s"
  by (induction xs arbitrary: s) (auto simp: op_simps bindE_def split: prod.splits sum.splits)

text \<open>A module whose package cannot be imported fails alike; one that its package has imported is there.\<close>

lemma import_below:
  assumes "chain P m = chain P p @ [m]"
  shows "import_module n i P p s = (Inl e, s1) \<Longrightarrow> import_module n i P m s = (Inl e, s1)"
    and "0 < n \<Longrightarrow> import_module n i P p s = (Inr (), s1) \<Longrightarrow> m \<in> names s1 \<Longrightarrow> import_module n i P m s = (Inr (), s1)"
  using assms by (simp_all add: import_module_def each_append bindE_def each.simps op_simps load_known)

text \<open>More third parties make no import fail.\<close>

definition agrees :: "'m import_op \<Rightarrow> 'm import_op \<Rightarrow> bool" where
  "agrees f g \<longleftrightarrow> (\<forall>s t. f s = (Inr (), t) \<longrightarrow> g s = (Inr (), t))"

lemma agrees_refl: "agrees f f"
  by (simp add: agrees_def)

lemma agrees_bind: "agrees f f' \<Longrightarrow> agrees g g' \<Longrightarrow> agrees (bindE f (\<lambda>_. g)) (bindE f' (\<lambda>_. g'))"
  unfolding agrees_def by (auto simp: op_simps elim!: bindE_InrE)

lemma agrees_each: "(\<And>x. agrees (f x) (g x)) \<Longrightarrow> agrees (each f xs) (each g xs)"
  by (induction xs) (auto intro: agrees_bind agrees_refl)

lemma agrees_statement:
  assumes "\<And>m. agrees (ld m) (ld' m)"
  shows "agrees (run_statement ld i P cur st) (run_statement ld' (\<lambda>_. True) P cur st)"
proof -
  have *: "agrees (from_import ld P m x) (from_import ld' P m x)" for m x
    using assms unfolding agrees_def from_import_def by (auto split: option.splits)
  show ?thesis
    by (cases st) (auto intro!: agrees_bind agrees_each agrees_refl assms * simp: agrees_def [of "raiseE e" for e] op_simps)
qed

lemma load_agrees: "agrees (load_module n i P m) (load_module n (\<lambda>_. True) P m)"
proof (induction n arbitrary: m)
  case 0
  then show ?case by (simp add: agrees_refl)
next
  case (Suc n)
  have "agrees (each (\<lambda>st. bindE (run_statement (load_module n i P) i P m st) (\<lambda>_. modifyE (advance m))) sts)
      (each (\<lambda>st. bindE (run_statement (load_module n (\<lambda>_. True) P) (\<lambda>_. True) P m st) (\<lambda>_. modifyE (advance m))) sts)" for sts
    by (intro agrees_each agrees_bind agrees_statement agrees_refl Suc)
  then show ?case
    unfolding agrees_def by (auto split: prod.splits sum.splits)
qed

lemma import_agrees:
  "fst (import_module n (\<lambda>_. True) P m s) = Inl e \<Longrightarrow> fst (import_module n i P m s) \<noteq> Inr ()"
proof -
  have "agrees (import_module n i P m) (import_module n (\<lambda>_. True) P m)"
    unfolding import_module_def by (intro agrees_each load_agrees)
  then show "fst (import_module n (\<lambda>_. True) P m s) = Inl e \<Longrightarrow> ?thesis"
    by (cases "import_module n i P m s") (auto simp: agrees_def)
qed

section \<open>Running an import step by step\<close>

definition after :: "('m import_error + unit) \<times> 'm loader \<Rightarrow> 'm import_op \<Rightarrow> ('m import_error + unit) \<times> 'm loader" where
  "after r k = (case r of (Inl e, s) \<Rightarrow> (Inl e, s) | (Inr _, s) \<Rightarrow> k s)"

lemma after_simps: "after (Inl e, s) k = (Inl e, s)" "after (Inr u, s) k = k s"
  by (simp_all add: after_def)

lemma after_cong: "r = r' \<Longrightarrow> after r k = after r' k"
  by simp

lemma bindE_after: "bindE m (\<lambda>_. k) s = after (m s) k"
  by (cases "m s") (auto simp: bindE_def after_def split: sum.splits)

definition closing :: "'m \<Rightarrow> ('m import_error + unit) \<times> 'm loader \<Rightarrow> ('m import_error + unit) \<times> 'm loader" where
  "closing m r = (case r of (Inl e, s) \<Rightarrow> (Inl e, drop_module m s) | (Inr _, s) \<Rightarrow> (Inr (), s))"

lemma closing_simps: "closing m (Inl e, s) = (Inl e, drop_module m s)" "closing m (Inr u, s) = (Inr (), s)"
  by (simp_all add: closing_def)

definition then_advance :: "'m \<Rightarrow> 'm import_op \<Rightarrow> 'm import_op" where
  "then_advance m f = bindE f (\<lambda>_. modifyE (advance m))"

lemma then_advance_run: "then_advance m f s = after (f s) (modifyE (advance m))"
  by (simp add: then_advance_def bindE_after)

definition stepping :: "('m \<Rightarrow> 'm import_op) \<Rightarrow> (string \<Rightarrow> bool) \<Rightarrow> 'm program \<Rightarrow> 'm \<Rightarrow> 'm statement \<Rightarrow> 'm import_op" where
  "stepping ld i P m st = then_advance m (run_statement ld i P m st)"

lemma stepping_run: "stepping ld i P m st s = after (run_statement ld i P m st s) (modifyE (advance m))"
  by (simp add: stepping_def then_advance_run)

lemma each_run: "each f [] s = (Inr (), s)" "each f (x # xs) s = after (f x s) (each f xs)"
  by (simp_all add: op_simps bindE_after)

lemma statement_run:
  "run_statement ld i P cur (External p) s = (if i p then (Inr (), s) else (Inl (ModuleNotFoundError p), s))"
  "run_statement ld i P cur (FromImport m xs) s = after (each ld (chain P m) s) (each (from_import ld P m) xs)"
  "run_statement ld i P cur (FromImportAs m x y) s = after (each ld (chain P m) s) (from_import ld P m x)"
  "run_statement ld i P cur (Define xs) s = (Inr (), s)"
  "run_statement ld i P cur (TableClass c b t) s = table_class P cur b t s"
  "run_statement ld i P cur (Exports xs) s = (Inr (), s)"
  by (simp_all add: op_simps bindE_after)

lemma load_run: "load_module (Suc n) i P m s = (case map_of (ld_progress s) m of
     Some _ \<Rightarrow> (Inr (), s)
   | None \<Rightarrow> closing m (each (stepping (load_module n i P) i P m) (body P m) (enter_module m s)))"
  by (simp add: closing_def stepping_def [abs_def] then_advance_def split: option.splits)

lemma modifyE_run: "modifyE f s = (Inr (), f s)"
  by (simp add: op_simps)

lemma table_class_run: "table_class P cur b t s =
     (if \<not> has_name P cur b s then (Inl (NameError b), s)
      else if (origin (Suc (Suc (Suc (Suc 0)))) P cur b, t) \<in> set (ld_tables s) then (Inl (InvalidRequestError t), s)
      else (Inr (), s\<lparr>ld_tables := (origin (Suc (Suc (Suc (Suc 0)))) P cur b, t) # ld_tables s\<rparr>))"
  by (simp add: table_class_def eval_nat_numeral)

text \<open>What one sees of an import: its result, and the modules that are loaded afterwards.\<close>

definition outcome :: "('m import_error + unit) \<times> 'm loader \<Rightarrow> ('m import_error + unit) \<times> 'm list" where
  "outcome r = (fst r, map fst (ld_progress (snd r)))"

lemma outcome_simps: "outcome (r, s) = (r, map fst (ld_progress s))"
  by (simp add: outcome_def)

lemmas import_run = load_run each_run statement_run modifyE_run after_simps closing_simps stepping_run

declare load_module.simps [simp del] each.simps [simp del] run_statement.simps [simp del]

end
