(* ===== verification/Packages.thy ===== *)
theory Packages
  imports Imports
begin

text \<open>
  The package \<open>coffeebuddy\<close> as the import system sees it: for each file of \<open>src/src/coffeebuddy\<close> that can be imported, the list
  of its statements in the order of the file: the third parties it imports from, what it imports from the package, the names
  it defines, the classes with a \<open>__tablename__\<close>, and the list \<open>__all__\<close>. Imports of the standard library are left out, and so are the values
  of definitions, which are taken to be computed without an exception. The files \<open>infra/db.py\<close> and \<open>infra/kafka.py\<close> cannot
  be imported, since the directories of the same names come first.
\<close>

datatype (plugins only:) module =
    Coffeebuddy | Api | Api_admin | Api_admin_authorizer | Api_admin_exceptions | Api_admin_models |
    Api_admin_service | Api_slack_runs | Api_slack_runs_dependencies | Api_slack_runs_messages |
    Api_slack_runs_models | Api_slack_runs_parsers | Api_slack_runs_router | Api_slack_runs_service |
    Api_slack_runs_signature | App | Config | Core | Core_audit | Core_audit_logger | Core_orders |
    Core_orders_exceptions | Core_orders_models | Core_orders_repository | Core_orders_service | Core_runs |
    Core_runs_exceptions | Core_runs_models | Core_runs_service | Events | Events_run | Infra | Infra_db |
    Infra_db_models | Infra_db_schema_loader | Infra_db_session | Infra_kafka | Infra_kafka_config |
    Infra_kafka_consumer | Infra_kafka_metrics | Infra_kafka_models | Infra_kafka_producer |
    Infra_kafka_reminder_worker | Infra_kafka_topics | Jobs | Jobs_reminders | Jobs_reminders_scheduler |
    Models | Models_run | Services | Services_fairness | Services_fairness_models | Services_fairness_service
    | Services_preferences | Services_preferences_service

definition all_modules :: "module list" where
  "all_modules = [Coffeebuddy, Api, Api_admin, Api_admin_authorizer, Api_admin_exceptions, Api_admin_models,
     Api_admin_service, Api_slack_runs, Api_slack_runs_dependencies, Api_slack_runs_messages,
     Api_slack_runs_models, Api_slack_runs_parsers, Api_slack_runs_router, Api_slack_runs_service,
     Api_slack_runs_signature, App, Config, Core, Core_audit, Core_audit_logger, Core_orders,
     Core_orders_exceptions, Core_orders_models, Core_orders_repository, Core_orders_service, Core_runs,
     Core_runs_exceptions, Core_runs_models, Core_runs_service, Events, Events_run, Infra, Infra_db,
     Infra_db_models, Infra_db_schema_loader, Infra_db_session, Infra_kafka, Infra_kafka_config,
     Infra_kafka_consumer, Infra_kafka_metrics, Infra_kafka_models, Infra_kafka_producer,
     Infra_kafka_reminder_worker, Infra_kafka_topics, Jobs, Jobs_reminders, Jobs_reminders_scheduler, Models,
     Models_run, Services, Services_fairness, Services_fairness_models, Services_fairness_service,
     Services_preferences, Services_preferences_service]"

primrec parent_package :: "module \<Rightarrow> module option" where
  "parent_package Coffeebuddy = None"
| "parent_package Api = Some Coffeebuddy"
| "parent_package Api_admin = Some Api"
| "parent_package Api_admin_authorizer = Some Api_admin"
| "parent_package Api_admin_exceptions = Some Api_admin"
| "parent_package Api_admin_models = Some Api_admin"
| "parent_package Api_admin_service = Some Api_admin"
| "parent_package Api_slack_runs = Some Api"
| "parent_package Api_slack_runs_dependencies = Some Api_slack_runs"
| "parent_package Api_slack_runs_messages = Some Api_slack_runs"
| "parent_package Api_slack_runs_models = Some Api_slack_runs"
| "parent_package Api_slack_runs_parsers = Some Api_slack_runs"
| "parent_package Api_slack_runs_router = Some Api_slack_runs"
| "parent_package Api_slack_runs_service = Some Api_slack_runs"
| "parent_package Api_slack_runs_signature = Some Api_slack_runs"
| "parent_package App = Some Coffeebuddy"
| "parent_package Config = Some Coffeebuddy"
| "parent_package Core = Some Coffeebuddy"
| "parent_package Core_audit = Some Core"
| "parent_package Core_audit_logger = Some Core_audit"
| "parent_package Core_orders = Some Core"
| "parent_package Core_orders_exceptions = Some Core_orders"
| "parent_package Core_orders_models = Some Core_orders"
| "parent_package Core_orders_repository = Some Core_orders"
| "parent_package Core_orders_service = Some Core_orders"
| "parent_package Core_runs = Some Core"
| "parent_package Core_runs_exceptions = Some Core_runs"
| "parent_package Core_runs_models = Some Core_runs"
| "parent_package Core_runs_service = Some Core_runs"
| "parent_package Events = Some Coffeebuddy"
| "parent_package Events_run = Some Events"
| "parent_package Infra = Some Coffeebuddy"
| "parent_package Infra_db = Some Infra"
| "parent_package Infra_db_models = Some Infra_db"
| "parent_package Infra_db_schema_loader = Some Infra_db"
| "parent_package Infra_db_session = Some Infra_db"
| "parent_package Infra_kafka = Some Infra"
| "parent_package Infra_kafka_config = Some Infra_kafka"
| "parent_package Infra_kafka_consumer = Some Infra_kafka"
| "parent_package Infra_kafka_metrics = Some Infra_kafka"
| "parent_package Infra_kafka_models = Some Infra_kafka"
| "parent_package Infra_kafka_producer = Some Infra_kafka"
| "parent_package Infra_kafka_reminder_worker = Some Infra_kafka"
| "parent_package Infra_kafka_topics = Some Infra_kafka"
| "parent_package Jobs = Some Coffeebuddy"
| "parent_package Jobs_reminders = Some Jobs"
| "parent_package Jobs_reminders_scheduler = Some Jobs_reminders"
| "parent_package Models = Some Coffeebuddy"
| "parent_package Models_run = Some Models"
| "parent_package Services = Some Coffeebuddy"
| "parent_package Services_fairness = Some Services"
| "parent_package Services_fairness_models = Some Services_fairness"
| "parent_package Services_fairness_service = Some Services_fairness"
| "parent_package Services_preferences = Some Services"
| "parent_package Services_preferences_service = Some Services_preferences"

primrec last_name :: "module \<Rightarrow> string" where
  "last_name Coffeebuddy = ''coffeebuddy''"
| "last_name Api = ''api''"
| "last_name Api_admin = ''admin''"
| "last_name Api_admin_authorizer = ''authorizer''"
| "last_name Api_admin_exceptions = ''exceptions''"
| "last_name Api_admin_models = ''models''"
| "last_name Api_admin_service = ''service''"
| "last_name Api_slack_runs = ''slack_runs''"
| "last_name Api_slack_runs_dependencies = ''dependencies''"
| "last_name Api_slack_runs_messages = ''messages''"
| "last_name Api_slack_runs_models = ''models''"
| "last_name Api_slack_runs_parsers = ''parsers''"
| "last_name Api_slack_runs_router = ''router''"
| "last_name Api_slack_runs_service = ''service''"
| "last_name Api_slack_runs_signature = ''signature''"
| "last_name App = ''app''"
| "last_name Config = ''config''"
| "last_name Core = ''core''"
| "last_name Core_audit = ''audit''"
| "last_name Core_audit_logger = ''logger''"
| "last_name Core_orders = ''orders''"
| "last_name Core_orders_exceptions = ''exceptions''"
| "last_name Core_orders_models = ''models''"
| "last_name Core_orders_repository = ''repository''"
| "last_name Core_orders_service = ''service''"
| "last_name Core_runs = ''runs''"
| "last_name Core_runs_exceptions = ''exceptions''"
| "last_name Core_runs_models = ''models''"
| "last_name Core_runs_service = ''service''"
| "last_name Events = ''events''"
| "last_name Events_run = ''run''"
| "last_name Infra = ''infra''"
| "last_name Infra_db = ''db''"
| "last_name Infra_db_models = ''models''"
| "last_name Infra_db_schema_loader = ''schema_loader''"
| "last_name Infra_db_session = ''session''"
| "last_name Infra_kafka = ''kafka''"
| "last_name Infra_kafka_config = ''config''"
| "last_name Infra_kafka_consumer = ''consumer''"
| "last_name Infra_kafka_metrics = ''metrics''"
| "last_name Infra_kafka_models = ''models''"
| "last_name Infra_kafka_producer = ''producer''"
| "last_name Infra_kafka_reminder_worker = ''reminder_worker''"
| "last_name Infra_kafka_topics = ''topics''"
| "last_name Jobs = ''jobs''"
| "last_name Jobs_reminders = ''reminders''"
| "last_name Jobs_reminders_scheduler = ''scheduler''"
| "last_name Models = ''models''"
| "last_name Models_run = ''run''"
| "last_name Services = ''services''"
| "last_name Services_fairness = ''fairness''"
| "last_name Services_fairness_models = ''models''"
| "last_name Services_fairness_service = ''service''"
| "last_name Services_preferences = ''preferences''"
| "last_name Services_preferences_service = ''service''"

definition package_coffeebuddy :: "module statement list" where
  "package_coffeebuddy = [
     Define [''__version__'']]"

definition package_api :: "module statement list" where
  "package_api = []"

definition package_api_admin :: "module statement list" where
  "package_api_admin = [
     FromImport Api_admin_authorizer [''SlackAdminAuthorizer''],
     FromImport Api_admin_models [''AdminActor'', ''ChannelConfigPatch'', ''ChannelConfigUpdateResult'',
       ''ChannelStateChangeResult'', ''DataResetResult''],
     FromImport Api_admin_service [''AdminService''],
     Exports [''AdminService'', ''SlackAdminAuthorizer'', ''AdminActor'', ''ChannelConfigPatch'',
       ''ChannelConfigUpdateResult'', ''ChannelStateChangeResult'', ''DataResetResult'']]"

definition module_api_admin_authorizer :: "module statement list" where
  "module_api_admin_authorizer = [
     FromImport Api_admin_exceptions [''AdminAuthorizationError''],
     FromImport Api_admin_models [''AdminActor''],
     Define [''SlackAdminAuthorizer'']]"

definition module_api_admin_exceptions :: "module statement list" where
  "module_api_admin_exceptions = [
     Define [''AdminError'', ''AdminAuthorizationError'', ''ChannelNotFoundError'',
       ''ChannelConfigValidationError'']]"

definition module_api_admin_models :: "module statement list" where
  "module_api_admin_models = [
     Define [''AdminActor'', ''ChannelConfigPatch'', ''ChannelAdminActionType'', ''ChannelConfigUpdateResult'',
       ''ChannelStateChangeResult'', ''DataResetResult'']]"

definition module_api_admin_service :: "module statement list" where
  "module_api_admin_service = [
     External ''sqlalchemy'',
     FromImport Api_admin_authorizer [''SlackAdminAuthorizer''],
     FromImport Api_admin_exceptions [''ChannelConfigValidationError'', ''ChannelNotFoundError''],
     FromImport Api_admin_models [''AdminActor'', ''ChannelAdminActionType'', ''ChannelConfigPatch'',
       ''ChannelConfigUpdateResult'', ''ChannelStateChangeResult'', ''DataResetResult''],
     FromImport Core_audit [''AdminAuditLogger''],
     FromImport Infra_db_models [''Channel'', ''Order'', ''Run'', ''RunnerStat'', ''UserPreference''],
     Define [''Clock'', ''AdminService'']]"

definition package_api_slack_runs :: "module statement list" where
  "package_api_slack_runs = [
     FromImport Api_slack_runs [''router''],
     Exports [''router'']]"

definition module_api_slack_runs_dependencies :: "module statement list" where
  "module_api_slack_runs_dependencies = [
     External ''sqlalchemy'',
     FromImport Config [''Settings''],
     FromImport Events_run [''RunEventPublisher''],
     Define [''_SlackRunDependencyState'', ''_state'', ''configure_dependencies'', ''get_settings'',
       ''_session_manager'', ''get_session'', ''get_run_event_publisher'', ''RouterProtocol'',
       ''get_router_with_dependencies'']]"

definition module_api_slack_runs_messages :: "module statement list" where
  "module_api_slack_runs_messages = [
     FromImport Models_run [''Run''],
     Define [''SlackMessageBuilder'']]"

definition module_api_slack_runs_models :: "module statement list" where
  "module_api_slack_runs_models = [
     Define [''SlackCommandPayload'', ''RunCommandOptions'', ''SlackResponseEnvelope'']]"

definition module_api_slack_runs_parsers :: "module statement list" where
  "module_api_slack_runs_parsers = [
     FromImport Api_slack_runs_models [''RunCommandOptions''],
     Define [''parse_command_text'', ''_apply_pickup_time'', ''_parse_pickup_time'']]"

definition module_api_slack_runs_router :: "module statement list" where
  "module_api_slack_runs_router = [
     External ''fastapi'',
     External ''starlette'',
     FromImport Api_slack_runs_models [''SlackCommandPayload''],
     FromImport Api_slack_runs_parsers [''parse_command_text''],
     FromImport Api_slack_runs_service [''SlackRunCommandService''],
     FromImport Api_slack_runs_signature [''SlackSignatureVerifier'', ''SlackVerificationError''],
     FromImport Api_slack_runs_dependencies [''get_run_event_publisher'', ''get_session'', ''get_settings''],
     FromImport Events_run [''RunEventPublisher''],
     Define [''router'', ''handle_slack_command'', ''_parse_form_payload'']]"

definition module_api_slack_runs_service :: "module statement list" where
  "module_api_slack_runs_service = [
     External ''sqlalchemy'',
     FromImport Api_slack_runs_messages [''SlackMessageBuilder''],
     FromImport Api_slack_runs_models [''RunCommandOptions'', ''SlackCommandPayload''],
     FromImport Events_run [''RunCreatedEvent'', ''RunEventPublisher''],
     FromImport Models_run [''Run''],
     Define [''SlackRunCommandService'']]"

definition module_api_slack_runs_signature :: "module statement list" where
  "module_api_slack_runs_signature = [
     Define [''SlackVerificationError'', ''SlackSignatureVerifier'']]"

definition module_app :: "module statement list" where
  "module_app = [
     External ''fastapi'',
     FromImportAs Api_slack_runs ''router'' ''slack_router'',
     FromImport Api_slack_runs_dependencies [''configure_dependencies'', ''get_router_with_dependencies''],
     FromImport Config [''Settings'', ''get_settings''],
     FromImport Infra_db [''build_session_factory''],
     FromImport Infra_kafka [''KafkaRunEventPublisher''],
     Define [''create_app'', ''app''],
     Exports [''app'', ''create_app'']]"

definition module_config :: "module statement list" where
  "module_config = [
     External ''pydantic'',
     External ''pydantic_settings'',
     Define [''Settings'', ''get_settings''],
     Exports [''Settings'', ''get_settings'']]"

definition package_core_audit :: "module statement list" where
  "package_core_audit = [
     FromImport Core_audit_logger [''AdminAuditLogger''],
     Exports [''AdminAuditLogger'']]"

definition module_core_audit_logger :: "module statement list" where
  "module_core_audit_logger = [
     External ''sqlalchemy'',
     FromImport Infra_db_models [''ChannelAdminAction''],
     Define [''AdminAuditLogger'']]"

definition package_core_orders :: "module statement list" where
  "package_core_orders = [
     FromImport Core_orders_exceptions [''OrderError'', ''OrderNotFoundError'', ''OrderValidationError'',
       ''PreferenceNotFoundError'', ''RunNotFoundError'', ''RunNotOpenError'', ''UserNotFoundError''],
     FromImport Core_orders_models [''OrderCancellationResult'', ''OrderProvenance'', ''OrderSubmissionRequest'',
       ''OrderSubmissionResult'', ''UseLastOrderResult''],
     FromImport Core_orders_service [''OrderService'', ''OrderValidator''],
     Exports [''OrderService'', ''OrderValidator'', ''OrderSubmissionRequest'', ''OrderSubmissionResult'',
       ''OrderCancellationResult'', ''UseLastOrderResult'', ''OrderProvenance'', ''OrderValidationError'',
       ''OrderError'', ''OrderNotFoundError'', ''PreferenceNotFoundError'', ''RunNotFoundError'',
       ''RunNotOpenError'', ''UserNotFoundError'']]"

definition module_core_orders_exceptions :: "module statement list" where
  "module_core_orders_exceptions = [
     Define [''OrderError'', ''OrderValidationError'', ''RunNotFoundError'', ''RunNotOpenError'',
       ''PreferenceNotFoundError'', ''OrderNotFoundError'', ''UserNotFoundError'']]"

definition module_core_orders_models :: "module statement list" where
  "module_core_orders_models = [
     Define [''Clock'', ''OrderProvenance'', ''OrderSubmissionRequest'', ''OrderSubmissionResult'',
       ''OrderCancellationResult'', ''UseLastOrderResult'']]"

definition module_core_orders_repository :: "module statement list" where
  "module_core_orders_repository = [
     External ''sqlalchemy'',
     FromImport Core_orders_exceptions [''RunNotFoundError'', ''RunNotOpenError'', ''UserNotFoundError''],
     FromImport Core_orders_models [''Clock'', ''OrderProvenance''],
     FromImport Infra_db_models [''Order'', ''Run'', ''RunStatus'', ''User''],
     Define [''OrderRepository'', ''RunRepository'', ''UserRepository'']]"

definition module_core_orders_service :: "module statement list" where
  "module_core_orders_service = [
     External ''sqlalchemy'',
     FromImport Core_orders_exceptions [''OrderNotFoundError'', ''OrderValidationError'',
       ''PreferenceNotFoundError'', ''RunNotFoundError'', ''RunNotOpenError'', ''UserNotFoundError''],
     FromImport Core_orders_models [''Clock'', ''OrderCancellationResult'', ''OrderProvenance'',
       ''OrderSubmissionRequest'', ''OrderSubmissionResult'', ''UseLastOrderResult''],
     FromImport Core_orders_repository [''OrderRepository'', ''RunRepository'', ''UserRepository''],
     FromImport Infra_db_models [''Run'', ''User''],
     FromImport Services_preferences [''PreferenceService''],
     Define [''OrderValidator'', ''OrderService'']]"

definition package_core_runs :: "module statement list" where
  "package_core_runs = [
     FromImport Core_runs_models [''CloseRunRequest'', ''CloseRunResult'', ''ParticipantOrder'', ''RunSummary''],
     FromImport Core_runs_service [''CloseRunAuthorizer'', ''CloseRunService''],
     Exports [''CloseRunAuthorizer'', ''CloseRunRequest'', ''CloseRunResult'', ''CloseRunService'',
       ''ParticipantOrder'', ''RunSummary'']]"

definition module_core_runs_exceptions :: "module statement list" where
  "module_core_runs_exceptions = [
     Define [''RunCloseError'', ''RunNotFoundError'', ''RunNotOpenError'', ''UnauthorizedRunCloseError'',
       ''RunnerSelectionError'']]"

definition module_core_runs_models :: "module statement list" where
  "module_core_runs_models = [
     Define [''CloseRunRequest'', ''ParticipantOrder'', ''RunSummary'', ''CloseRunResult'']]"

definition module_core_runs_service :: "module statement list" where
  "module_core_runs_service = [
     External ''sqlalchemy'',
     FromImport Core_orders_models [''Clock''],
     FromImport Core_runs_exceptions [''RunNotFoundError'', ''RunNotOpenError'', ''RunnerSelectionError'',
       ''UnauthorizedRunCloseError''],
     FromImport Core_runs_models [''CloseRunRequest'', ''CloseRunResult'', ''ParticipantOrder'', ''RunSummary''],
     FromImport Infra_db_models [''Channel'', ''Order'', ''Run'', ''RunStatus'', ''User''],
     FromImport Services_fairness_service [''FairnessService''],
     Define [''CloseRunAuthorizer'', ''CloseRunService'', ''_as_uuid'']]"

definition package_events :: "module statement list" where
  "package_events = []"

definition module_events_run :: "module statement list" where
  "module_events_run = [
     Define [''RunCreatedEvent'', ''RunEventPublisher'']]"

definition package_infra :: "module statement list" where
  "package_infra = []"

definition package_infra_db :: "module statement list" where
  "package_infra_db = [
     FromImport Infra_db_session [''DatabaseConfig'', ''DbCredentials'', ''create_session_factory''],
     FromImport Infra_db_models [''Base'', ''Channel'', ''ChannelAdminAction'', ''Order'', ''Run'', ''RunStatus'',
       ''RunnerStat'', ''User'', ''UserPreference''],
     Exports [''Base'', ''Channel'', ''ChannelAdminAction'', ''DatabaseConfig'', ''DbCredentials'', ''Order'',
       ''Run'', ''RunStatus'', ''RunnerStat'', ''User'', ''UserPreference'', ''create_session_factory'']]"

definition module_infra_db_models :: "module statement list" where
  "module_infra_db_models = [
     External ''sqlalchemy'',
     Define [''Base'', ''SerializableMixin'', ''TimestampMixin'', ''RunStatus''],
     TableClass ''User'' ''Base'' ''users'',
     TableClass ''Channel'' ''Base'' ''channels'',
     TableClass ''Run'' ''Base'' ''runs'',
     TableClass ''Order'' ''Base'' ''orders'',
     TableClass ''UserPreference'' ''Base'' ''user_preferences'',
     TableClass ''RunnerStat'' ''Base'' ''runner_stats'',
     TableClass ''ChannelAdminAction'' ''Base'' ''channel_admin_actions'']"

definition module_infra_db_schema_loader :: "module statement list" where
  "module_infra_db_schema_loader = [
     External ''yaml'',
     Define [''_SCHEMA_PATH'', ''load_schema_spec'']]"

definition module_infra_db_session :: "module statement list" where
  "module_infra_db_session = [
     External ''hvac'',
     External ''sqlalchemy'',
     Define [''LOGGER'', ''DbCredentials'', ''DatabaseConfig'', ''VaultDbCredentialsProvider'',
       ''create_session_factory'', ''_create_engine'']]"

definition package_infra_kafka :: "module statement list" where
  "package_infra_kafka = [
     FromImport Infra_kafka_config [''KafkaSettings''],
     FromImport Infra_kafka_models [''KafkaEvent'', ''ReminderPayload'', ''ReminderType''],
     FromImport Infra_kafka_producer [''KafkaEventProducer''],
     FromImport Infra_kafka_consumer [''KafkaEventConsumer''],
     FromImport Infra_kafka_reminder_worker [''ReminderWorker'', ''ReminderSender''],
     FromImport Infra_kafka_topics [''TOPIC_REGISTRY'', ''ACL_REQUIREMENTS'', ''RUN_EVENTS_TOPIC'',
       ''REMINDER_EVENTS_TOPIC'', ''TopicACLRequirement'', ''TopicConfig''],
     Exports [''KafkaSettings'', ''KafkaEvent'', ''ReminderPayload'', ''ReminderType'', ''KafkaEventProducer'',
       ''KafkaEventConsumer'', ''ReminderWorker'', ''ReminderSender'', ''TOPIC_REGISTRY'',
       ''ACL_REQUIREMENTS'', ''RUN_EVENTS_TOPIC'', ''REMINDER_EVENTS_TOPIC'', ''TopicACLRequirement'',
       ''TopicConfig'']]"

definition module_infra_kafka_config :: "module statement list" where
  "module_infra_kafka_config = [
     Define [''KafkaSettings'']]"

definition module_infra_kafka_consumer :: "module statement list" where
  "module_infra_kafka_consumer = [
     External ''aiokafka'',
     FromImport Infra_kafka_config [''KafkaSettings''],
     FromImport Infra_kafka_metrics [''KAFKA_CONSUME_TOTAL''],
     FromImport Infra_kafka_models [''KafkaEvent''],
     FromImport Infra_kafka_topics [''TopicConfig''],
     Define [''logger'', ''Handler'', ''ConsumerFactory'', ''KafkaEventConsumer'']]"

definition module_infra_kafka_metrics :: "module statement list" where
  "module_infra_kafka_metrics = [
     External ''prometheus_client'',
     Define [''KAFKA_PRODUCE_TOTAL'', ''KAFKA_CONSUME_TOTAL'', ''REMINDER_SEND_TOTAL'', ''REMINDER_DELAY_SECONDS'']]"

definition module_infra_kafka_models :: "module statement list" where
  "module_infra_kafka_models = [
     External ''pydantic'',
     Define [''KafkaEvent'', ''ReminderType'', ''ReminderPayload'']]"

definition module_infra_kafka_producer :: "module statement list" where
  "module_infra_kafka_producer = [
     External ''aiokafka'',
     FromImport Infra_kafka_config [''KafkaSettings''],
     FromImport Infra_kafka_metrics [''KAFKA_PRODUCE_TOTAL''],
     FromImport Infra_kafka_models [''KafkaEvent''],
     FromImport Infra_kafka_topics [''TopicConfig''],
     Define [''logger'', ''ProducerFactory'', ''KafkaEventProducer'']]"

definition module_infra_kafka_reminder_worker :: "module statement list" where
  "module_infra_kafka_reminder_worker = [
     FromImport Infra_kafka_metrics [''REMINDER_DELAY_SECONDS'', ''REMINDER_SEND_TOTAL''],
     FromImport Infra_kafka_models [''KafkaEvent'', ''ReminderPayload'', ''ReminderType''],
     Define [''logger'', ''SleepFn'', ''ReminderSender'', ''ReminderWorker'']]"

definition module_infra_kafka_topics :: "module statement list" where
  "module_infra_kafka_topics = [
     Define [''TopicConfig'', ''TopicACLRequirement'', ''RUN_EVENTS_TOPIC'', ''REMINDER_EVENTS_TOPIC'',
       ''TOPIC_REGISTRY'', ''ACL_REQUIREMENTS''],
     Exports [''TopicConfig'', ''TopicACLRequirement'', ''RUN_EVENTS_TOPIC'', ''REMINDER_EVENTS_TOPIC'',
       ''TOPIC_REGISTRY'', ''ACL_REQUIREMENTS'']]"

definition package_jobs_reminders :: "module statement list" where
  "package_jobs_reminders = [
     FromImport Jobs_reminders_scheduler [''ChannelReminderConfig'', ''ReminderScheduler''],
     Exports [''ChannelReminderConfig'', ''ReminderScheduler'']]"

definition module_jobs_reminders_scheduler :: "module statement list" where
  "module_jobs_reminders_scheduler = [
     FromImport Infra_kafka_models [''KafkaEvent'', ''ReminderPayload'', ''ReminderType''],
     FromImport Infra_kafka_topics [''REMINDER_EVENTS_TOPIC''],
     Define [''LOGGER'', ''EventPublisher'', ''ChannelReminderConfig'', ''ReminderScheduler'']]"

definition package_models :: "module statement list" where
  "package_models = [
     FromImport Models_run [''Run''],
     Exports [''Run'']]"

definition module_models_run :: "module statement list" where
  "module_models_run = [
     External ''sqlalchemy'',
     FromImport Infra_db [''Base''],
     TableClass ''Run'' ''Base'' ''runs'']"

definition package_services_fairness :: "module statement list" where
  "package_services_fairness = [
     FromImport Services_fairness_models [''FairnessDecision''],
     FromImport Services_fairness_service [''FairnessService''],
     Exports [''FairnessDecision'', ''FairnessService'']]"

definition module_services_fairness_models :: "module statement list" where
  "module_services_fairness_models = [
     Define [''FairnessDecision'']]"

definition module_services_fairness_service :: "module statement list" where
  "module_services_fairness_service = [
     External ''sqlalchemy'',
     FromImport Core_orders_models [''Clock''],
     FromImport Core_runs_exceptions [''RunnerSelectionError''],
     FromImport Infra_db_models [''RunnerStat''],
     FromImport Services_fairness_models [''FairnessDecision''],
     Define [''FairnessService'', ''_as_uuid'']]"

definition package_services_preferences :: "module statement list" where
  "package_services_preferences = [
     FromImport Services_preferences_service [''PreferenceService''],
     Exports [''PreferenceService'']]"

definition module_services_preferences_service :: "module statement list" where
  "module_services_preferences_service = [
     External ''sqlalchemy'',
     FromImport Core_orders_models [''Clock''],
     FromImport Infra_db_models [''UserPreference''],
     Define [''PreferenceService'']]"

primrec module_body :: "module \<Rightarrow> module statement list" where
  "module_body Coffeebuddy = package_coffeebuddy"
| "module_body Api = package_api"
| "module_body Api_admin = package_api_admin"
| "module_body Api_admin_authorizer = module_api_admin_authorizer"
| "module_body Api_admin_exceptions = module_api_admin_exceptions"
| "module_body Api_admin_models = module_api_admin_models"
| "module_body Api_admin_service = module_api_admin_service"
| "module_body Api_slack_runs = package_api_slack_runs"
| "module_body Api_slack_runs_dependencies = module_api_slack_runs_dependencies"
| "module_body Api_slack_runs_messages = module_api_slack_runs_messages"
| "module_body Api_slack_runs_models = module_api_slack_runs_models"
| "module_body Api_slack_runs_parsers = module_api_slack_runs_parsers"
| "module_body Api_slack_runs_router = module_api_slack_runs_router"
| "module_body Api_slack_runs_service = module_api_slack_runs_service"
| "module_body Api_slack_runs_signature = module_api_slack_runs_signature"
| "module_body App = module_app"
| "module_body Config = module_config"
| "module_body Core = []"
| "module_body Core_audit = package_core_audit"
| "module_body Core_audit_logger = module_core_audit_logger"
| "module_body Core_orders = package_core_orders"
| "module_body Core_orders_exceptions = module_core_orders_exceptions"
| "module_body Core_orders_models = module_core_orders_models"
| "module_body Core_orders_repository = module_core_orders_repository"
| "module_body Core_orders_service = module_core_orders_service"
| "module_body Core_runs = package_core_runs"
| "module_body Core_runs_exceptions = module_core_runs_exceptions"
| "module_body Core_runs_models = module_core_runs_models"
| "module_body Core_runs_service = module_core_runs_service"
| "module_body Events = package_events"
| "module_body Events_run = module_events_run"
| "module_body Infra = package_infra"
| "module_body Infra_db = package_infra_db"
| "module_body Infra_db_models = module_infra_db_models"
| "module_body Infra_db_schema_loader = module_infra_db_schema_loader"
| "module_body Infra_db_session = module_infra_db_session"
| "module_body Infra_kafka = package_infra_kafka"
| "module_body Infra_kafka_config = module_infra_kafka_config"
| "module_body Infra_kafka_consumer = module_infra_kafka_consumer"
| "module_body Infra_kafka_metrics = module_infra_kafka_metrics"
| "module_body Infra_kafka_models = module_infra_kafka_models"
| "module_body Infra_kafka_producer = module_infra_kafka_producer"
| "module_body Infra_kafka_reminder_worker = module_infra_kafka_reminder_worker"
| "module_body Infra_kafka_topics = module_infra_kafka_topics"
| "module_body Jobs = []"
| "module_body Jobs_reminders = package_jobs_reminders"
| "module_body Jobs_reminders_scheduler = module_jobs_reminders_scheduler"
| "module_body Models = package_models"
| "module_body Models_run = module_models_run"
| "module_body Services = []"
| "module_body Services_fairness = package_services_fairness"
| "module_body Services_fairness_models = module_services_fairness_models"
| "module_body Services_fairness_service = module_services_fairness_service"
| "module_body Services_preferences = package_services_preferences"
| "module_body Services_preferences_service = module_services_preferences_service"

lemmas module_defs =
  package_coffeebuddy_def package_api_def package_api_admin_def module_api_admin_authorizer_def
  module_api_admin_exceptions_def module_api_admin_models_def module_api_admin_service_def
  package_api_slack_runs_def module_api_slack_runs_dependencies_def module_api_slack_runs_messages_def
  module_api_slack_runs_models_def module_api_slack_runs_parsers_def module_api_slack_runs_router_def
  module_api_slack_runs_service_def module_api_slack_runs_signature_def module_app_def module_config_def
  package_core_audit_def module_core_audit_logger_def package_core_orders_def
  module_core_orders_exceptions_def module_core_orders_models_def module_core_orders_repository_def
  module_core_orders_service_def package_core_runs_def module_core_runs_exceptions_def
  module_core_runs_models_def module_core_runs_service_def package_events_def module_events_run_def
  package_infra_def package_infra_db_def module_infra_db_models_def module_infra_db_schema_loader_def
  module_infra_db_session_def package_infra_kafka_def module_infra_kafka_config_def
  module_infra_kafka_consumer_def module_infra_kafka_metrics_def module_infra_kafka_models_def
  module_infra_kafka_producer_def module_infra_kafka_reminder_worker_def module_infra_kafka_topics_def
  package_jobs_reminders_def module_jobs_reminders_scheduler_def package_models_def module_models_run_def
  package_services_fairness_def module_services_fairness_models_def module_services_fairness_service_def
  package_services_preferences_def module_services_preferences_service_def

text \<open>The packages above a module; none is deeper than three names below the root.\<close>

fun with_packages :: "nat \<Rightarrow> module \<Rightarrow> module list" where
  "with_packages 0 m = [m]"
| "with_packages (Suc n) m = (case parent_package m of None \<Rightarrow> [m] | Some p \<Rightarrow> with_packages n p @ [m])"

definition coffeebuddy :: "module program" where
  "coffeebuddy = \<lparr>body = module_body, chain = with_packages 3,
     submodule = (\<lambda>m x. find (\<lambda>c. parent_package c = Some m \<and> last_name c = x) all_modules)\<rparr>"

definition import_coffeebuddy :: "(string \<Rightarrow> bool) \<Rightarrow> module \<Rightarrow> module import_op" where
  "import_coffeebuddy installed = import_module (Suc (length all_modules)) installed coffeebuddy"

lemma coffeebuddy_simps: "body coffeebuddy = module_body"
  "chain coffeebuddy m = with_packages (Suc (Suc (Suc 0))) m"
  "submodule coffeebuddy m x = find (\<lambda>c. parent_package c = Some m \<and> last_name c = x) all_modules"
  by (simp_all add: coffeebuddy_def numeral_3_eq_3)

lemma find_where: "find (\<lambda>c. p c = Some m \<and> q c = x) [] = None"
  "find (\<lambda>c. p c = Some m \<and> q c = x) (c # cs) =
     (if (if p c = Some m then q c = x else False) then Some c else find (\<lambda>c. p c = Some m \<and> q c = x) cs)"
  by simp_all

lemmas import_eval = import_run coffeebuddy_simps find_where all_modules_def from_import_def table_class_run advance_def enter_module_def drop_module_def
  has_name_def loaded_def module_defs fresh_loader_def import_module_def outcome_simps

section \<open>Importing each module in a fresh interpreter\<close>

lemma run_Coffeebuddy: "outcome (import_module (Suc (Suc (Suc (Suc (Suc (Suc (Suc (Suc (Suc (Suc (Suc (Suc (n))))))))))))) (\<lambda>_. True) coffeebuddy Coffeebuddy fresh_loader) =
  (Inr (),
     [Coffeebuddy])"
  by (simp add: import_eval cong: after_cong)

lemma run_Api: "outcome (import_module (Suc (Suc (Suc (Suc (Suc (Suc (Suc (Suc (Suc (Suc (Suc (Suc (n))))))))))))) (\<lambda>_. True) coffeebuddy Api fresh_loader) =
  (Inr (),
     [Coffeebuddy, Api])"
  by (simp add: import_eval cong: after_cong)

lemma run_Api_admin: "outcome (import_module (Suc (Suc (Suc (Suc (Suc (Suc (Suc (Suc (Suc (Suc (Suc (Suc (n))))))))))))) (\<lambda>_. True) coffeebuddy Api_admin fresh_loader) =
  (Inr (),
     [Coffeebuddy, Api, Api_admin, Api_admin_authorizer, Api_admin_exceptions, Api_admin_models,
       Api_admin_service, Core, Core_audit, Core_audit_logger, Infra, Infra_db, Infra_db_session,
       Infra_db_models])"
  by (simp add: import_eval cong: after_cong)

lemma run_Api_slack_runs: "outcome (import_module (Suc (Suc (Suc (Suc (Suc (Suc (Suc (Suc (Suc (Suc (Suc (Suc (n))))))))))))) (\<lambda>_. True) coffeebuddy Api_slack_runs fresh_loader) =
  (Inl (InvalidRequestError ''runs''),
     [Coffeebuddy, Api, Api_slack_runs_models, Api_slack_runs_parsers, Infra, Infra_db, Infra_db_session,
       Infra_db_models])"
  by (simp add: import_eval cong: after_cong)

lemma run_App: "outcome (import_module (Suc (Suc (Suc (Suc (Suc (Suc (Suc (Suc (Suc (Suc (Suc (Suc (n))))))))))))) (\<lambda>_. True) coffeebuddy App fresh_loader) =
  (Inl (InvalidRequestError ''runs''),
     [Coffeebuddy, Api, Api_slack_runs_models, Api_slack_runs_parsers, Infra, Infra_db, Infra_db_session,
       Infra_db_models])"
  by (simp add: import_eval cong: after_cong)

lemma run_Config: "outcome (import_module (Suc (Suc (Suc (Suc (Suc (Suc (Suc (Suc (Suc (Suc (Suc (Suc (n))))))))))))) (\<lambda>_. True) coffeebuddy Config fresh_loader) =
  (Inr (),
     [Coffeebuddy, Config])"
  by (simp add: import_eval cong: after_cong)

lemma run_Core: "outcome (import_module (Suc (Suc (Suc (Suc (Suc (Suc (Suc (Suc (Suc (Suc (Suc (Suc (n))))))))))))) (\<lambda>_. True) coffeebuddy Core fresh_loader) =
  (Inr (),
     [Coffeebuddy, Core])"
  by (simp add: import_eval cong: after_cong)

lemma run_Core_audit: "outcome (import_module (Suc (Suc (Suc (Suc (Suc (Suc (Suc (Suc (Suc (Suc (Suc (Suc (n))))))))))))) (\<lambda>_. True) coffeebuddy Core_audit fresh_loader) =
  (Inr (),
     [Coffeebuddy, Core, Core_audit, Core_audit_logger, Infra, Infra_db, Infra_db_session, Infra_db_models])"
  by (simp add: import_eval cong: after_cong)

lemma run_Core_orders: "outcome (import_module (Suc (Suc (Suc (Suc (Suc (Suc (Suc (Suc (Suc (Suc (Suc (Suc (n))))))))))))) (\<lambda>_. True) coffeebuddy Core_orders fresh_loader) =
  (Inr (),
     [Coffeebuddy, Core, Core_orders, Core_orders_exceptions, Core_orders_models, Core_orders_service,
       Core_orders_repository, Infra, Infra_db, Infra_db_session, Infra_db_models, Services,
       Services_preferences, Services_preferences_service])"
  by (simp add: import_eval cong: after_cong)

lemma run_Core_runs: "outcome (import_module (Suc (Suc (Suc (Suc (Suc (Suc (Suc (Suc (Suc (Suc (Suc (Suc (n))))))))))))) (\<lambda>_. True) coffeebuddy Core_runs fresh_loader) =
  (Inr (),
     [Coffeebuddy, Core, Core_runs, Core_runs_models, Core_runs_service, Core_orders,
       Core_orders_exceptions, Core_orders_models, Core_orders_service, Core_orders_repository, Infra,
       Infra_db, Infra_db_session, Infra_db_models, Services, Services_preferences,
       Services_preferences_service, Core_runs_exceptions, Services_fairness, Services_fairness_models,
       Services_fairness_service])"
  by (simp add: import_eval cong: after_cong)

lemma run_Events: "outcome (import_module (Suc (Suc (Suc (Suc (Suc (Suc (Suc (Suc (Suc (Suc (Suc (Suc (n))))))))))))) (\<lambda>_. True) coffeebuddy Events fresh_loader) =
  (Inr (),
     [Coffeebuddy, Events])"
  by (simp add: import_eval cong: after_cong)

lemma run_Events_run: "outcome (import_module (Suc (Suc (Suc (Suc (Suc (Suc (Suc (Suc (Suc (Suc (Suc (Suc (n))))))))))))) (\<lambda>_. True) coffeebuddy Events_run fresh_loader) =
  (Inr (),
     [Coffeebuddy, Events, Events_run])"
  by (simp add: import_eval cong: after_cong)

lemma run_Infra: "outcome (import_module (Suc (Suc (Suc (Suc (Suc (Suc (Suc (Suc (Suc (Suc (Suc (Suc (n))))))))))))) (\<lambda>_. True) coffeebuddy Infra fresh_loader) =
  (Inr (),
     [Coffeebuddy, Infra])"
  by (simp add: import_eval cong: after_cong)

lemma run_Infra_db: "outcome (import_module (Suc (Suc (Suc (Suc (Suc (Suc (Suc (Suc (Suc (Suc (Suc (Suc (n))))))))))))) (\<lambda>_. True) coffeebuddy Infra_db fresh_loader) =
  (Inr (),
     [Coffeebuddy, Infra, Infra_db, Infra_db_session, Infra_db_models])"
  by (simp add: import_eval cong: after_cong)

lemma run_Infra_db_schema_loader: "outcome (import_module (Suc (Suc (Suc (Suc (Suc (Suc (Suc (Suc (Suc (Suc (Suc (Suc (n))))))))))))) (\<lambda>_. True) coffeebuddy Infra_db_schema_loader fresh_loader) =
  (Inr (),
     [Coffeebuddy, Infra, Infra_db, Infra_db_session, Infra_db_models, Infra_db_schema_loader])"
  by (simp add: import_eval cong: after_cong)

lemma run_Infra_kafka: "outcome (import_module (Suc (Suc (Suc (Suc (Suc (Suc (Suc (Suc (Suc (Suc (Suc (Suc (n))))))))))))) (\<lambda>_. True) coffeebuddy Infra_kafka fresh_loader) =
  (Inr (),
     [Coffeebuddy, Infra, Infra_kafka, Infra_kafka_config, Infra_kafka_models, Infra_kafka_producer,
       Infra_kafka_metrics, Infra_kafka_topics, Infra_kafka_consumer, Infra_kafka_reminder_worker])"
  by (simp add: import_eval cong: after_cong)

lemma run_Jobs: "outcome (import_module (Suc (Suc (Suc (Suc (Suc (Suc (Suc (Suc (Suc (Suc (Suc (Suc (n))))))))))))) (\<lambda>_. True) coffeebuddy Jobs fresh_loader) =
  (Inr (),
     [Coffeebuddy, Jobs])"
  by (simp add: import_eval cong: after_cong)

lemma run_Jobs_reminders: "outcome (import_module (Suc (Suc (Suc (Suc (Suc (Suc (Suc (Suc (Suc (Suc (Suc (Suc (n))))))))))))) (\<lambda>_. True) coffeebuddy Jobs_reminders fresh_loader) =
  (Inr (),
     [Coffeebuddy, Jobs, Jobs_reminders, Jobs_reminders_scheduler, Infra, Infra_kafka, Infra_kafka_config,
       Infra_kafka_models, Infra_kafka_producer, Infra_kafka_metrics, Infra_kafka_topics,
       Infra_kafka_consumer, Infra_kafka_reminder_worker])"
  by (simp add: import_eval cong: after_cong)

lemma run_Models: "outcome (import_module (Suc (Suc (Suc (Suc (Suc (Suc (Suc (Suc (Suc (Suc (Suc (Suc (n))))))))))))) (\<lambda>_. True) coffeebuddy Models fresh_loader) =
  (Inl (InvalidRequestError ''runs''),
     [Coffeebuddy, Infra, Infra_db, Infra_db_session, Infra_db_models])"
  by (simp add: import_eval cong: after_cong)

lemma run_Services: "outcome (import_module (Suc (Suc (Suc (Suc (Suc (Suc (Suc (Suc (Suc (Suc (Suc (Suc (n))))))))))))) (\<lambda>_. True) coffeebuddy Services fresh_loader) =
  (Inr (),
     [Coffeebuddy, Services])"
  by (simp add: import_eval cong: after_cong)

lemma run_Services_fairness: "outcome (import_module (Suc (Suc (Suc (Suc (Suc (Suc (Suc (Suc (Suc (Suc (Suc (Suc (n))))))))))))) (\<lambda>_. True) coffeebuddy Services_fairness fresh_loader) =
  (Inl (ImportError ''FairnessService'' Services_fairness_service),
     [Coffeebuddy, Services, Services_fairness_models, Core, Core_orders, Core_orders_exceptions,
       Core_orders_models, Core_orders_service, Core_orders_repository, Infra, Infra_db, Infra_db_session,
       Infra_db_models, Services_preferences, Services_preferences_service, Core_runs_models,
       Core_runs_exceptions])"
  by (simp add: import_eval cong: after_cong)

lemma run_Services_preferences: "outcome (import_module (Suc (Suc (Suc (Suc (Suc (Suc (Suc (Suc (Suc (Suc (Suc (Suc (n))))))))))))) (\<lambda>_. True) coffeebuddy Services_preferences fresh_loader) =
  (Inl (ImportError ''PreferenceService'' Services_preferences),
     [Coffeebuddy, Services, Core, Core_orders_exceptions, Core_orders_models, Core_orders_repository,
       Infra, Infra_db, Infra_db_session, Infra_db_models])"
  by (simp add: import_eval cong: after_cong)

section \<open>Which modules can be imported\<close>

lemma all_modules_complete: "set all_modules = UNIV"
proof (rule set_eqI)
  fix m show "m \<in> set all_modules \<longleftrightarrow> m \<in> UNIV"
    by (cases m) (simp_all add: all_modules_def)
qed

instance module :: finite
  by standard (metis List.finite_set all_modules_complete)

lemma modules_count: "length all_modules = 55"
  by (simp add: all_modules_def)

lemma coffeebuddy_in_fuel: "fst (import_coffeebuddy installed m s) \<noteq> Inl OutOfFuel"
proof -
  have "card (UNIV :: module set) \<le> length all_modules"
    by (metis all_modules_complete card_length)
  then show ?thesis
    unfolding import_coffeebuddy_def by (intro import_in_fuel) simp
qed

lemma in_full: "outcome (import_module (Suc (Suc (Suc (Suc (Suc (Suc (Suc (Suc (Suc (Suc (Suc (Suc 44)))))))))))) i coffeebuddy m s) = r \<Longrightarrow> outcome (import_coffeebuddy i m s) = r"
  by (simp add: import_coffeebuddy_def modules_count)

lemma outcome_fst: "outcome r = (x, ms) \<Longrightarrow> fst r = x"
  by (simp add: outcome_def)

lemma chain_parent: "parent_package m = Some p \<Longrightarrow> chain coffeebuddy m = chain coffeebuddy p @ [m]"
  by (cases m) (auto simp: coffeebuddy_simps)

lemma import_part:
  assumes "outcome (import_coffeebuddy i p s) = (r, ms)" and "parent_package m = Some p"
    and "case r of Inl _ \<Rightarrow> True | Inr _ \<Rightarrow> m \<in> set ms"
  shows "fst (import_coffeebuddy i m s) = r"
proof -
  obtain s1 where run: "import_coffeebuddy i p s = (r, s1)" and ms: "ms = map fst (ld_progress s1)"
    using assms(1) by (cases "import_coffeebuddy i p s") (auto simp: outcome_def)
  note below = import_below [OF chain_parent [OF assms(2)], of "Suc (length all_modules)" i s]
  show ?thesis
    using below(1) [of _ s1] below(2) [of s1] run assms(3) unfolding import_coffeebuddy_def by (cases r) (auto simp: names_def ms)
qed

text \<open>A module that was loaded by an import is there for the next one.\<close>

lemma import_later:
  assumes "outcome (import_coffeebuddy i p s) = (Inr (), ms)" and "set (chain coffeebuddy m) \<subseteq> set ms"
  shows "fst (bindE (import_coffeebuddy i p) (\<lambda>_. import_coffeebuddy i m) s) = Inr ()"
proof -
  obtain s1 where run: "import_coffeebuddy i p s = (Inr (), s1)" and ms: "ms = map fst (ld_progress s1)"
    using assms(1) by (cases "import_coffeebuddy i p s") (auto simp: outcome_def)
  have "import_coffeebuddy i m s1 = (Inr (), s1)"
    using assms(2) unfolding import_coffeebuddy_def by (intro import_known) (auto simp: names_def ms)
  then show ?thesis using run by (simp add: bindE_Inr)
qed

lemmas package_runs = 
  run_Coffeebuddy run_Api run_Api_admin run_Api_slack_runs run_App run_Config run_Core run_Core_audit run_Core_orders run_Core_runs run_Events
  run_Events_run run_Infra run_Infra_db run_Infra_db_schema_loader run_Infra_kafka run_Jobs run_Jobs_reminders run_Models run_Services run_Services_fairness run_Services_preferences

lemmas fresh_results = package_runs [THEN in_full, THEN outcome_fst] package_runs [THEN in_full, THEN import_part]

lemma exports_bound: "list_all (\<lambda>x. bound_in x (module_body m)) (exported (module_body m))"
  by (cases m) (simp_all add: module_defs)

definition within :: "module \<Rightarrow> module \<Rightarrow> bool" where
  "within p m \<longleftrightarrow> p \<in> set (chain coffeebuddy m)"

lemma import_results: "fst (import_coffeebuddy (\<lambda>_. True) m fresh_loader) =
   (if m = App \<or> within Models m \<or> within Api_slack_runs m then Inl (InvalidRequestError ''runs'')
    else if within Services_fairness m then Inl (ImportError ''FairnessService'' Services_fairness_service)
    else if within Services_preferences m then Inl (ImportError ''PreferenceService'' Services_preferences)
    else Inr ())"
  unfolding within_def
  by (cases m) (simp_all add: fresh_results coffeebuddy_simps)

text \<open>
  Once the class \<open>Run\<close> of \<open>models/run.py\<close> no longer claims the table, the application stops at the next import that nothing
  provides.
\<close>

lemma app_after_repair:
  "outcome (import_module (Suc (Suc (Suc (Suc (Suc (Suc (Suc (Suc (Suc (Suc (Suc (Suc n)))))))))))) (\<lambda>_. True)
     (coffeebuddy\<lparr>body := module_body(Models_run := [External ''sqlalchemy'', FromImport Infra_db [''Base''], Define [''Run'']])\<rparr>)
     App fresh_loader) = (Inl (ImportError ''build_session_factory'' Infra_db),
     [Coffeebuddy, Api, Api_slack_runs, Api_slack_runs_router, Api_slack_runs_models, Api_slack_runs_parsers,
       Api_slack_runs_service, Api_slack_runs_messages, Models, Models_run, Infra, Infra_db, Infra_db_session,
       Infra_db_models, Events, Events_run, Api_slack_runs_signature, Api_slack_runs_dependencies, Config])"
  by (simp add: import_eval cong: after_cong)

text \<open>
  Property C28. What an import gives in a fresh interpreter with all third parties installed, for every module of the package: the
  application, \<open>models\<close> and everything below \<open>api.slack_runs\<close> raise \<open>InvalidRequestError\<close>, because \<open>models.run\<close> declares the
  table \<open>runs\<close> a second time on the base that \<open>infra.db\<close> exports; \<open>services.fairness\<close> and \<open>services.preferences\<close> raise
  \<open>ImportError\<close>, because they meet themselves half loaded on the way through \<open>core.runs\<close> and \<open>core.orders\<close>; all others
  succeed. The two services can be imported after \<open>core.runs\<close> and \<open>core.orders\<close>. Whatever is installed, an import
  that fails with everything installed fails; and every import ends, from any state of \<open>sys.modules\<close>. No module lists a name in
  \<open>__all__\<close> that it does not bind.
\<close>

theorem fresh_imports:
  "fst (import_coffeebuddy (\<lambda>_. True) m fresh_loader) =
     (if m = App \<or> within Models m \<or> within Api_slack_runs m then Inl (InvalidRequestError ''runs'')
      else if within Services_fairness m then Inl (ImportError ''FairnessService'' Services_fairness_service)
      else if within Services_preferences m then Inl (ImportError ''PreferenceService'' Services_preferences)
      else Inr ())
   \<and> (within Services_fairness m \<longrightarrow> fst (bindE (import_coffeebuddy (\<lambda>_. True) Core_runs)
        (\<lambda>_. import_coffeebuddy (\<lambda>_. True) m) fresh_loader) = Inr ())
   \<and> (within Services_preferences m \<longrightarrow> fst (bindE (import_coffeebuddy (\<lambda>_. True) Core_orders)
        (\<lambda>_. import_coffeebuddy (\<lambda>_. True) m) fresh_loader) = Inr ())
   \<and> (fst (import_coffeebuddy (\<lambda>_. True) m s) \<noteq> Inr () \<longrightarrow> fst (import_coffeebuddy installed m s) \<noteq> Inr ())
   \<and> fst (import_coffeebuddy installed m s) \<noteq> Inl OutOfFuel
   \<and> list_all (\<lambda>x. bound_in x (module_body m)) (exported (module_body m))"
proof (intro conjI impI)
  show "fst (bindE (import_coffeebuddy (\<lambda>_. True) Core_runs) (\<lambda>_. import_coffeebuddy (\<lambda>_. True) m) fresh_loader) = Inr ()"
    if "within Services_fairness m"
    by (rule import_later [OF in_full, OF run_Core_runs]) (use that in \<open>cases m; simp add: within_def coffeebuddy_simps\<close>)
  show "fst (bindE (import_coffeebuddy (\<lambda>_. True) Core_orders) (\<lambda>_. import_coffeebuddy (\<lambda>_. True) m) fresh_loader) = Inr ()"
    if "within Services_preferences m"
    by (rule import_later [OF in_full, OF run_Core_orders]) (use that in \<open>cases m; simp add: within_def coffeebuddy_simps\<close>)
  show "fst (import_coffeebuddy installed m s) \<noteq> Inr ()" if "fst (import_coffeebuddy (\<lambda>_. True) m s) \<noteq> Inr ()"
    using that import_agrees [of _ coffeebuddy m s] unfolding import_coffeebuddy_def
    by (cases "fst (import_module (Suc (length all_modules)) (\<lambda>_. True) coffeebuddy m s)") auto
qed (rule import_results coffeebuddy_in_fuel exports_bound)+

theorem fresh_imports_witness:
  "fst (import_coffeebuddy (\<lambda>p. p = ''fastapi'') App fresh_loader) \<noteq> Inr ()
   \<and> fst (bindE (import_coffeebuddy (\<lambda>_. True) Core_runs)
        (\<lambda>_. import_coffeebuddy (\<lambda>_. True) Services_fairness_models) fresh_loader) = Inr ()"
  using fresh_imports [of App fresh_loader "\<lambda>p. p = ''fastapi''"] fresh_imports [of Services_fairness_models fresh_loader]
  by (simp add: within_def coffeebuddy_simps)

end
