(* ===== verification/Spec2Isabelle.thy ===== *)
theory Spec2Isabelle
  imports Overlap Sharing Ledger ReminderFlow ReminderKit SlackHistory DbSession Packages
begin

text \<open>
  A verification development of CoffeeBuddy, a Slack service that runs coffee orders: a run is started from Slack,
  users order in it, it is closed by choosing a runner fairly, reminders are scheduled over Kafka and sent by a worker,
  and administrators configure the channels. All paths below are relative to \<open>src/src/coffeebuddy\<close>.

  \<^bold>\<open>How the code is modelled.\<close> A method that mutates objects and may raise is a function from a state to its outcome
  and the state it leaves (\<open>op\<close> in \<open>Prelude\<close>); exceptions are the datatype \<open>exn\<close>, so every raise is a value, and the
  state survives an exception as Python's does. Rows are records, tables are lists of rows, the database is the
  record of its tables. Clocks and \<open>uuid4\<close> are streams in the state: the k-th reading or draw is the k-th value. What
  lies outside the repository (brokers, Slack, Vault, pydantic's coercions, a keyed hash, the collation of the
  database) is an argument or a field of the state that says how each call ends. Python strings hold code points
  below 256, integers are unbounded, timestamps are integers in microseconds. Log output is left out.

  \<^bold>\<open>The theories.\<close>
  \<^item> \<open>Prelude\<close>: operations, tables with a primary and a unique key, Python's \<open>min\<close> with a key, and the interfaces
    \<open>upsert_table\<close> (what a service expects of a table it upserts into), \<open>keyed_choice\<close> (what a choice by least key
    promises), \<open>unit_of_work\<close> (what a transaction promises), \<open>state_machine\<close> (what every step keeps), \<open>simulation\<close> (each step
    is an action of an abstract machine) and \<open>simulated_invariant\<close> (what the actions keep the steps keep); \<open>Admin\<close> adds
    \<open>audit_trail\<close> (what the admin service expects of an audit logger). The tables, choices
    and transactions of the code, the loggers, the services, the consumer and the Slack endpoint are interpretations of them.
  \<^item> \<open>PyText\<close>, \<open>Identifiers\<close>, \<open>Urls\<close>, \<open>Dates\<close>, \<open>IsoDates\<close>: the parts of Python's library that the code calls: \<open>strip\<close>, \<open>lower\<close>, \<open>split\<close>,
    \<open>int\<close>, \<open>str\<close>, \<open>UUID\<close>, UTF-8, \<open>quote_plus\<close> and \<open>unquote\<close>, the calendar, \<open>isoformat\<close>, \<open>strftime\<close>
    and \<open>fromisoformat\<close>, with the proofs that what \<open>isoformat\<close> writes is read back and that only such timestamps are read.
  \<^item> \<open>Exceptions\<close>, \<open>Schema\<close>, \<open>Fixtures\<close>: the exception classes, the tables and constraints of \<open>infra/db/models.py\<close>
    (\<open>schema_ok\<close>: keys, foreign keys, CHECK constraints, text lengths and the creation time of an audit row) with the world of a service, and a small concrete database on which witnesses evaluate.
  \<^item> \<open>OrderRepo\<close>, \<open>Preferences\<close>, \<open>OrderService\<close>: \<open>core/orders\<close> and \<open>services/preferences\<close>. Their abstract view is \<open>basket\<close>
    (the text a user has in a run) and \<open>usual\<close> (the text remembered for a user and a channel); C1 to C4,
    C6 and C7 say how submitting, cancelling and reusing refine updates of these maps, and when each is refused.
  \<^item> \<open>Fairness\<close>: \<open>services/fairness\<close>. C8 to C11: who is chosen, what changes, that nobody runs twice in a row, how
    ties are broken and what the rationale says of it.
  \<^item> \<open>CloseRun\<close>, \<open>Sharing\<close>, \<open>Overlap\<close>: \<open>core/runs\<close>. C12: that closing several runs of a channel shares the work evenly. C14 to C18: what a close does, when it is refused, that it is final and what
    calls under way can still do, what its summary says, that consecutive runs rotate.
  \<^item> \<open>Admin\<close>: \<open>api/admin\<close> and \<open>core/audit\<close>. C19 to C25: who is an administrator, that no command passes without it, what
    each command changes and when it is refused, and that the audit row as the repository's logger writes it does not fit its table, so
    that the commands return only with another logger, which the constructor takes.
  \<^item> \<open>Kafka\<close>: \<open>infra/kafka\<close> but for the reminders: topics, settings, events, producer and consumer harness. C26 and C27: the
    loop delivers every message once up to what ends it and tries none again, and the life cycle of a consumer with the two states it cannot leave.
  \<^item> \<open>System\<close>: order service, closing service and admin service together, each call in a transaction of its own. C29:
    whatever is called, the schema is kept and closed runs stay as they are until a reset of their channel deletes them.
  \<^item> \<open>Ledger\<close>: the abstract machine of the coffee run, with four actions over runs, baskets, remembered texts and counts. C5:
    every transaction of \<open>System\<close> is one of its actions or none. C13: the counts of the fairness statistics are the closed
    runs of each user, after any history.
  \<^item> \<open>Reminders\<close>, \<open>ReminderFlow\<close>, \<open>ReminderKit\<close>: \<open>jobs/reminders/scheduler.py\<close>, \<open>ReminderPayload\<close>,
    \<open>infra/kafka/reminder_worker.py\<close> and the older worker of the kit \<open>REQ-007\<close>. C30 to C32 and C34: waiting ends and never
    early, exactly the due reminders are published, each is accounted for once, but for one with a naive time, which is
    sent and reported as failed, and every scheduled reminder arrives through topic, consumer loop and worker, at its time or when
    the one before it in the topic has been sent, whichever is later.
  \<^item> \<open>SlackCommand\<close>, \<open>SlackRuns\<close>, \<open>SlackHistory\<close>: \<open>api/slack_runs\<close>, \<open>models/run.py\<close>, \<open>events/run.py\<close>, \<open>infra/kafka.py\<close>, \<open>config.py\<close>, \<open>app.py\<close>. C33 and
    C35 to C38: that any number of requests keeps the table of runs well-formed and announced, who passes the signature check, that a written command is read back, what a text can come out as,
    and that a request stores a run only with its event, commits it at most once and always closes its session.
  \<^item> \<open>DbSession\<close>: \<open>infra/db/session.py\<close>. C39 and C40: fetching credentials ends within its attempts and pauses, and the
    database URL holds the credentials whole. It also has \<open>infra/db/schema_loader.py\<close>.
  \<^item> \<open>Imports\<close>, \<open>Packages\<close>: Python's import system on the top level of every module of the package: what it imports, which names
    it binds and which tables it maps. C28: which modules can be imported first, which not, and with which exception.

  \<^bold>\<open>Loops.\<close> Loops over lists are recursions on the list. \<open>wait_until\<close> of the reminder worker may run for ever if sleeping
  returns too early, so it is a partial function and C30 proves that it returns when sleeps last at least as long as
  asked. \<open>fetch_loop\<close> terminates by the attempts that are left. Nested imports have fuel: each enters a module that was
  not loaded, so one more than the number of modules is enough, which C28 states.

  \<^bold>\<open>What theorems assume.\<close> \<open>schema_ok\<close> of the initial database; \<open>fresh_draws n\<close>, that the next n draws of \<open>uuid4\<close> differ and
  are unused; for external parts the behaviour their documentation states, as named hypotheses (\<open>json_codec\<close>, decoding
  what UTF-8 encoded, a keyed hash in ASCII). Each such property has a witness at a concrete input.

  \<^bold>\<open>Not modelled.\<close> FastAPI and SQLAlchemy's unit of work; the values of module-level definitions in \<open>Packages\<close>. A handler that swallows a
  cancellation (\<open>cancel_and_await\<close> ends a running task; the repository's handlers pass it on). In \<open>verify\<close>, the limit of \<open>int\<close> on very long
  digit strings and the rounding of the clock as a float. The application cannot
  be imported as it stands (C28), and \<open>infra/db.py\<close> and \<open>infra/kafka.py\<close> are shadowed by packages of the same names; the
  theories of these files model the code as written, as if the imports were mended. Also not modelled: the copies of the
  same files under \<open>runs/kit\<close>, the REQ-007 worker apart. Calls run in transactions of their own, one after the other; the
  interleavings that are modelled have a close commit between the checks and the writes of a submission or of another close (C16).
\<close>

end
